(* ===== verification/Go_Prelude.thy ===== *)
theory Go_Prelude
  imports Main "HOL-Library.AList" "HOL-Library.Word"
begin

text \<open>
  What every component of the model shares: Go maps with their iteration order, pointers into
  a heap of objects, panics as values, the clock, and the lemma collections the component
  theories extend.
\<close>

section \<open>Lemma collections\<close>

named_theorems go_simps \<open>unfolding rules of small operations that every proof may use\<close>
named_theorems wf_intros \<open>preservation of the components' well-formedness\<close>

section \<open>Go maps\<close>

text \<open>
  A Go map is an association list: its entries in the order in which a \<open>range\<close> loop would visit
  them. Go leaves that order open, so properties are stated for any list. \<open>gm_ok\<close> says that no
  key occurs twice; every operation keeps it.
\<close>

type_synonym ('k, 'v) gomap = "('k \<times> 'v) list"

abbreviation gm_get :: "('k, 'v) gomap \<Rightarrow> 'k \<Rightarrow> 'v option" where
  "gm_get m k \<equiv> map_of m k"

abbreviation gm_set :: "'k \<Rightarrow> 'v \<Rightarrow> ('k, 'v) gomap \<Rightarrow> ('k, 'v) gomap" where
  "gm_set k v m \<equiv> AList.update k v m"

abbreviation gm_del :: "'k \<Rightarrow> ('k, 'v) gomap \<Rightarrow> ('k, 'v) gomap" where
  "gm_del k m \<equiv> AList.delete k m"

definition gm_ok :: "('k, 'v) gomap \<Rightarrow> bool" where
  "gm_ok m \<longleftrightarrow> distinct (map fst m)"

text \<open>A lookup in a \<open>map[string]bool\<close>: a missing key reads as false.\<close>

definition gm_true :: "('k, bool) gomap \<Rightarrow> 'k \<Rightarrow> bool" where
  "gm_true m k \<longleftrightarrow> gm_get m k = Some True"

lemma gm_get_set [simp, go_simps]: "gm_get (gm_set k v m) k' = (if k' = k then Some v else gm_get m k')"
  by (simp add: update_conv')

lemma gm_get_del [simp, go_simps]: "gm_get (gm_del k m) k' = (if k' = k then None else gm_get m k')"
  by (simp add: delete_conv')

lemma gm_ok_empty [simp, intro]: "gm_ok []"
  by (simp add: gm_ok_def)

lemma gm_ok_set [simp, wf_intros]: "gm_ok m \<Longrightarrow> gm_ok (gm_set k v m)"
  by (simp add: gm_ok_def distinct_update)

lemma gm_ok_del [simp, wf_intros]: "gm_ok m \<Longrightarrow> gm_ok (gm_del k m)"
  by (simp add: gm_ok_def distinct_delete)

lemma gm_ok_filter [simp, wf_intros]: "gm_ok m \<Longrightarrow> gm_ok (filter P m)"
  by (simp add: gm_ok_def distinct_map_filter)

lemma gm_ok_in_get: "gm_ok m \<Longrightarrow> (k, v) \<in> set m \<longleftrightarrow> gm_get m k = Some v"
  by (auto simp: gm_ok_def map_of_eq_Some_iff)

lemma gm_get_in: "gm_get m k = Some v \<Longrightarrow> (k, v) \<in> set m"
  by (rule map_of_SomeD)

lemma gm_get_filter:
  assumes "gm_ok m"
  shows "gm_get (filter P m) k =
     (case gm_get m k of None \<Rightarrow> None | Some v \<Rightarrow> if P (k, v) then Some v else None)"
proof (cases "gm_get m k")
  case None
  then have "k \<notin> fst ` set (filter P m)" by (auto simp: map_of_eq_None_iff)
  with None show ?thesis by (simp add: map_of_eq_None_iff [THEN iffD2])
next
  case (Some v)
  have *: "(k, w) \<in> set m \<longleftrightarrow> w = v" for w
    using Some gm_ok_in_get [OF assms, of k w] by auto
  show ?thesis
  proof (cases "P (k, v)")
    case True
    then have "(k, v) \<in> set (filter P m)" using * by simp
    then have "gm_get (filter P m) k = Some v"
      using gm_ok_in_get [OF gm_ok_filter [OF assms]] by blast
    with True Some show ?thesis by simp
  next
    case False
    then have "k \<notin> fst ` set (filter P m)" using * by force
    with False Some show ?thesis by (simp add: map_of_eq_None_iff [THEN iffD2])
  qed
qed

lemma gm_true_set [simp, go_simps]: "gm_true (gm_set k v m) k' = (if k' = k then v else gm_true m k')"
  by (simp add: gm_true_def)

lemma gm_true_empty [simp]: "\<not> gm_true [] k"
  by (simp add: gm_true_def)

lemma set_gm_set: "set (gm_set k v m) \<subseteq> insert (k, v) (set m)"
  by (induction m) auto

lemma in_gm_set_cases:
  assumes "(k', v') \<in> set (gm_set k v m)"
  obtains "k' = k" "v' = v" | "(k', v') \<in> set m"
  using assms set_gm_set by fastforce

lemma set_gm_del: "set (gm_del k m) = {p \<in> set m. fst p \<noteq> k}"
  by (induction m) auto

lemma length_gm_set_new: "gm_get m k = None \<Longrightarrow> length (gm_set k v m) = Suc (length m)"
  by (induction m) (auto split: if_splits)

lemma length_gm_set_old: "gm_get m k = Some w \<Longrightarrow> length (gm_set k v m) = length m"
  by (induction m) (auto split: if_splits)

lemma fst_set_gm_set: "fst ` set (gm_set k v m) = insert k (fst ` set m)"
  by (induction m) auto

lemma gm_get_None_iff: "gm_get m k = None \<longleftrightarrow> k \<notin> fst ` set m"
  by (rule map_of_eq_None_iff)

section \<open>Pointers\<close>

text \<open>
  Objects that several structures point to (registered clients, commands, consensus requests,
  coordinator entries) live in a heap, a list of objects; a pointer is an index into it and
  allocation appends. An object is never freed: Go's collector keeps what is still referenced.
\<close>

type_synonym ref = nat
type_synonym 'a heap = "'a list"

definition h_get :: "'a heap \<Rightarrow> ref \<Rightarrow> 'a option" where
  "h_get h r = (if r < length h then Some (h ! r) else None)"

definition h_upd :: "ref \<Rightarrow> ('a \<Rightarrow> 'a) \<Rightarrow> 'a heap \<Rightarrow> 'a heap" where
  "h_upd r f h = (if r < length h then h[r := f (h ! r)] else h)"

lemma h_get_upd [simp, go_simps]:
  "h_get (h_upd r f h) r' = (if r' = r then map_option f (h_get h r) else h_get h r')"
  by (simp add: h_get_def h_upd_def)

lemma h_get_alloc [simp, go_simps]: "h_get (h @ [x]) r = (if r = length h then Some x else h_get h r)"
  by (simp add: h_get_def nth_append)

lemma h_get_Nil [simp]: "h_get [] r = None"
  by (simp add: h_get_def)

lemma length_h_upd [simp]: "length (h_upd r f h) = length h"
  by (simp add: h_upd_def)

lemma h_get_Some_less: "h_get h r = Some x \<Longrightarrow> r < length h"
  by (simp add: h_get_def split: if_splits)

lemma h_get_fresh [simp]: "h_get h (length h) = None"
  by (simp add: h_get_def)

lemma h_get_in_set: "h_get h r = Some x \<Longrightarrow> x \<in> set h"
  by (auto simp: h_get_def split: if_splits)

lemma h_upd_ident: "(\<And>x. h_get h r = Some x \<Longrightarrow> f x = x) \<Longrightarrow> h_upd r f h = h"
  by (auto simp: h_get_def h_upd_def)

lemma map_h_upd_same: "(\<And>x. g (f x) = g x) \<Longrightarrow> map g (h_upd r f h) = map g h"
  by (simp add: h_upd_def map_update list_update_same_conv)

text \<open>The position of the first element that a loop over a slice stops at.\<close>

fun find_index :: "('a \<Rightarrow> bool) \<Rightarrow> 'a list \<Rightarrow> nat option" where
  "find_index P [] = None"
| "find_index P (x # xs) = (if P x then Some 0 else map_option Suc (find_index P xs))"

lemma find_index_SomeD:
  "find_index P xs = Some i \<Longrightarrow> i < length xs \<and> P (xs ! i) \<and> (\<forall>j<i. \<not> P (xs ! j))"
  by (induction xs arbitrary: i) (auto simp: less_Suc_eq_0_disj split: if_splits)

lemma find_index_None_iff: "find_index P xs = None \<longleftrightarrow> (\<forall>x\<in>set xs. \<not> P x)"
  by (induction xs) auto

lemma find_index_h_get: "find_index P xs = Some i \<Longrightarrow> \<exists>x. h_get xs i = Some x \<and> P x"
  using find_index_SomeD [of P xs i] by (simp add: h_get_def)

lemma find_index_append:
  "find_index P (xs @ ys) =
     (case find_index P xs of Some i \<Rightarrow> Some i | None \<Rightarrow> map_option ((+) (length xs)) (find_index P ys))"
  by (cases "find_index P ys"; induction xs) (auto split: option.splits)

lemma find_index_cong_map:
  "map g xs = map g ys \<Longrightarrow> find_index (\<lambda>x. P (g x)) xs = find_index (\<lambda>x. P (g x)) ys"
proof (induction xs arbitrary: ys)
  case (Cons x xs)
  then show ?case by (cases ys) auto
qed simp

section \<open>Panics\<close>

text \<open>
  A run-time panic of the code is a value, \<open>Inl\<close> of its reason; a result is \<open>Inr\<close>. The
  last one is \<open>log.Fatal\<close>, which ends the process.
\<close>

datatype panic = NilDeref | IndexOutOfRange | TypeAssertion | NotYetSupported | LogFatal

section \<open>Time\<close>

text \<open>
  A \<open>time.Time\<close> is the number of nanoseconds since the Unix epoch; the zero value of the type is
  the first of January of year 1. \<open>Unix()\<close> drops the fraction of a second.
\<close>

type_synonym time = int

definition nanosecond_per_second :: int where
  "nanosecond_per_second = 1000000000"

definition unix :: "time \<Rightarrow> int" where
  "unix t = t div nanosecond_per_second"

definition zero_time :: time where
  "zero_time = - 62135596800 * nanosecond_per_second"

section \<open>Files\<close>

text \<open>
  A file that the program stores a value in as JSON: absent, holding something that does not
  parse, or holding the encoding of a value. Encoding and decoding keep every exported field,
  so the file is represented by the value itself; what is not exported is dropped where the
  store writes.
\<close>

datatype 'a stored = NoFile | BadJson | Json 'a

text \<open>
  \<open>ioutil.WriteFile\<close> opens and truncates the file and then writes: it succeeds, fails before it
  has touched the file, or fails after it has truncated it.
\<close>

datatype write_outcome = WriteOk | OpenFailed | WriteFailed

fun write_file :: "write_outcome \<Rightarrow> 'a \<Rightarrow> 'a stored \<Rightarrow> 'a stored" where
  "write_file WriteOk v f = Json v"
| "write_file OpenFailed v f = f"
| "write_file WriteFailed v f = BadJson"

lemma write_file_cases:
  "write_file w v f = Json u \<Longrightarrow> u = v \<or> f = Json u"
  by (cases w) auto

end
