(* ===== verification/Go_Strings.thy ===== *)
theory Go_Strings
  imports Go_Prelude "HOL-Library.Sublist" "HOL-Library.Char_ord"
begin

text \<open>
  The parts of the packages strings and strconv that the program calls. A Go string is a
  sequence of bytes, here a list of \<open>char\<close> (a \<open>char\<close> is a byte); \<open>len\<close> is \<open>length\<close>.
\<close>

section \<open>strings.TrimSpace\<close>

text \<open>
  The UTF-8 encodings of the code points that \<open>unicode.IsSpace\<close> accepts: tab, newline, vertical
  tab, form feed, carriage return, space, U+0085, U+00A0, U+1680, U+2000 to U+200A, U+2028,
  U+2029, U+202F, U+205F and U+3000.
\<close>

definition space_codes :: "string list" where
  "space_codes =
     [[CHR 0x09], [CHR 0x0A], [CHR 0x0B], [CHR 0x0C], [CHR 0x0D], [CHR 0x20],
      [CHR 0xC2, CHR 0x85], [CHR 0xC2, CHR 0xA0], [CHR 0xE1, CHR 0x9A, CHR 0x80],
      [CHR 0xE2, CHR 0x80, CHR 0x80], [CHR 0xE2, CHR 0x80, CHR 0x81], [CHR 0xE2, CHR 0x80, CHR 0x82],
      [CHR 0xE2, CHR 0x80, CHR 0x83], [CHR 0xE2, CHR 0x80, CHR 0x84], [CHR 0xE2, CHR 0x80, CHR 0x85],
      [CHR 0xE2, CHR 0x80, CHR 0x86], [CHR 0xE2, CHR 0x80, CHR 0x87], [CHR 0xE2, CHR 0x80, CHR 0x88],
      [CHR 0xE2, CHR 0x80, CHR 0x89], [CHR 0xE2, CHR 0x80, CHR 0x8A], [CHR 0xE2, CHR 0x80, CHR 0xA8],
      [CHR 0xE2, CHR 0x80, CHR 0xA9], [CHR 0xE2, CHR 0x80, CHR 0xAF], [CHR 0xE2, CHR 0x81, CHR 0x9F],
      [CHR 0xE3, CHR 0x80, CHR 0x80]]"

text \<open>Drop the longest run of the given codes at the front of a string.\<close>

function strip_codes :: "string list \<Rightarrow> string \<Rightarrow> string" where
  "strip_codes codes s =
     (case find (\<lambda>c. c \<noteq> [] \<and> prefix c s) codes of
        None \<Rightarrow> s
      | Some c \<Rightarrow> strip_codes codes (drop (length c) s))"
  by pat_completeness auto
termination
proof (relation "measure (\<lambda>(_, s). length s)", goal_cases)
  case (2 codes s c)
  then have "c \<noteq> []" "prefix c s" by (auto simp: find_Some_iff)
  then show ?case by (cases c; cases s) auto
qed simp

declare strip_codes.simps [simp del]

definition TrimLeftSpace :: "string \<Rightarrow> string" where
  "TrimLeftSpace s = strip_codes space_codes s"

definition TrimRightSpace :: "string \<Rightarrow> string" where
  "TrimRightSpace s = rev (strip_codes (map rev space_codes) (rev s))"

definition TrimSpace :: "string \<Rightarrow> string" where
  "TrimSpace s = TrimRightSpace (TrimLeftSpace s)"

lemma strip_codes_idem: "strip_codes codes (strip_codes codes s) = strip_codes codes s"
proof (induction codes s rule: strip_codes.induct)
  case (1 codes s)
  show ?case
  proof (cases "find (\<lambda>c. c \<noteq> [] \<and> prefix c s) codes")
    case None
    then have "strip_codes codes s = s" by (simp add: strip_codes.simps)
    then show ?thesis by simp
  next
    case (Some c)
    then have "strip_codes codes s = strip_codes codes (drop (length c) s)"
      by (simp add: strip_codes.simps [of codes s])
    with Some 1 show ?thesis by simp
  qed
qed

lemma strip_codes_suffix: "\<exists>p. s = p @ strip_codes codes s"
proof (induction codes s rule: strip_codes.induct)
  case (1 codes s)
  show ?case
  proof (cases "find (\<lambda>c. c \<noteq> [] \<and> prefix c s) codes")
    case None
    then show ?thesis by (simp add: strip_codes.simps)
  next
    case (Some c)
    then obtain p where "drop (length c) s = p @ strip_codes codes (drop (length c) s)"
      using 1 by blast
    then have "s = (take (length c) s @ p) @ strip_codes codes (drop (length c) s)"
      by (metis append.assoc append_take_drop_id)
    moreover from Some have "strip_codes codes s = strip_codes codes (drop (length c) s)"
      by (simp add: strip_codes.simps [of codes s])
    ultimately show ?thesis by metis
  qed
qed

lemma strip_codes_Nil [simp]: "strip_codes codes [] = []"
  using strip_codes_suffix [of "[]" codes] by simp

lemma TrimSpace_Nil [simp]: "TrimSpace [] = []"
  by (simp add: TrimSpace_def TrimRightSpace_def TrimLeftSpace_def)

lemma strip_codes_no_code:
  "c \<in> set codes \<Longrightarrow> c \<noteq> [] \<Longrightarrow> \<not> prefix c (strip_codes codes s)"
proof (induction codes s rule: strip_codes.induct)
  case (1 codes s)
  show ?case
  proof (cases "find (\<lambda>c. c \<noteq> [] \<and> prefix c s) codes")
    case None
    then have "strip_codes codes s = s" by (simp add: strip_codes.simps)
    with None "1.prems" show ?thesis by (auto simp: find_None_iff)
  next
    case (Some d)
    then have "\<not> prefix c (strip_codes codes (drop (length d) s))"
      using "1.IH" "1.prems" by blast
    with Some show ?thesis by (simp add: strip_codes.simps [of codes s])
  qed
qed

lemma length_TrimSpace: "length (TrimSpace s) \<le> length s"
proof -
  have le: "length (strip_codes codes t) \<le> length t" for codes t
    using strip_codes_suffix [of t codes] by (metis length_append le_add2)
  have "length (TrimSpace s) \<le> length (TrimLeftSpace s)"
    using le [of "map rev space_codes" "rev (TrimLeftSpace s)"]
    by (simp add: TrimSpace_def TrimRightSpace_def)
  also have "\<dots> \<le> length s" by (simp add: TrimLeftSpace_def le)
  finally show ?thesis .
qed

section \<open>strings.Split, strings.Join, strings.Contains\<close>

text \<open>\<open>strings.Split(s, sep)\<close> for the one-byte separators that the program uses.\<close>

fun Split :: "char \<Rightarrow> string \<Rightarrow> string list" where
  "Split sep [] = [[]]"
| "Split sep (c # cs) =
     (if c = sep then [] # Split sep cs
      else case Split sep cs of [] \<Rightarrow> [[c]] | p # ps \<Rightarrow> (c # p) # ps)"

fun Join :: "string list \<Rightarrow> string \<Rightarrow> string" where
  "Join [] sep = []"
| "Join [x] sep = x"
| "Join (x # y # xs) sep = x @ sep @ Join (y # xs) sep"

fun Contains :: "string \<Rightarrow> string \<Rightarrow> bool" where
  "Contains [] t = (t = [])"
| "Contains (c # cs) t = (prefix t (c # cs) \<or> Contains cs t)"

lemma Split_not_Nil [simp]: "Split sep s \<noteq> []"
  by (induction s) (auto split: list.splits)

lemma Join_Cons: "xs \<noteq> [] \<Longrightarrow> Join (x # xs) sep = x @ sep @ Join xs sep"
  by (cases xs) auto

text \<open>Joining what was split gives the string back, and no piece holds the separator.\<close>

lemma Join_Split: "Join (Split sep s) [sep] = s"
proof (induction s)
  case (Cons c s)
  obtain p ps where sp: "Split sep s = p # ps" by (cases "Split sep s") auto
  with Cons show ?case by (cases ps) auto
qed simp

lemma Split_no_sep: "p \<in> set (Split sep s) \<Longrightarrow> sep \<notin> set p"
  by (induction s arbitrary: p) (auto split: list.splits if_splits)

lemma Split_single: "sep \<notin> set s \<Longrightarrow> Split sep s = [s]"
  by (induction s) auto

lemma Split_append: "sep \<notin> set p \<Longrightarrow> Split sep (p @ sep # s) = p # Split sep s"
  by (induction p) auto

lemma Split_Join:
  "xs \<noteq> [] \<Longrightarrow> (\<And>x. x \<in> set xs \<Longrightarrow> sep \<notin> set x) \<Longrightarrow> Split sep (Join xs [sep]) = xs"
proof (induction xs)
  case (Cons x xs)
  then show ?case by (cases "xs = []") (auto simp: Split_single Split_append Join_Cons)
qed simp

lemma Contains_iff: "Contains s t \<longleftrightarrow> (\<exists>p q. s = p @ t @ q)"
proof (induction s)
  case IH: (Cons c s)
  show ?case
  proof
    assume "Contains (c # s) t"
    then consider "prefix t (c # s)" | "\<exists>p q. s = p @ t @ q" using IH by auto
    then show "\<exists>p q. c # s = p @ t @ q"
      by cases (force simp: prefix_def, metis append_Cons)
  next
    assume "\<exists>p q. c # s = p @ t @ q"
    then obtain p q where eq: "c # s = p @ t @ q" by blast
    show "Contains (c # s) t"
    proof (cases p)
      case Nil
      with eq have "prefix t (c # s)" by (simp add: prefix_def)
      then show ?thesis by simp
    next
      case (Cons a p')
      with eq have "s = p' @ t @ q" by simp
      then have "Contains s t" using IH by blast
      then show ?thesis by simp
    qed
  qed
qed auto

text \<open>\<open>strings.TrimLeft\<close> and \<open>strings.TrimRight\<close> for a cutset of one byte.\<close>

definition TrimLeft :: "char \<Rightarrow> string \<Rightarrow> string" where
  "TrimLeft c s = dropWhile (\<lambda>d. d = c) s"

definition TrimRight :: "char \<Rightarrow> string \<Rightarrow> string" where
  "TrimRight c s = rev (dropWhile (\<lambda>d. d = c) (rev s))"

section \<open>strconv.ParseInt in base 10 for 64 bits\<close>

datatype num_error = ErrSyntax | ErrRange

definition digit_value :: "char \<Rightarrow> nat option" where
  "digit_value c = (let n = of_char c in if 48 \<le> n \<and> n \<le> 57 then Some (n - 48) else None)"

text \<open>The loop of \<open>ParseUint\<close>: it stops at the first byte that is no digit or overflows.\<close>

fun ParseUint_loop :: "nat \<Rightarrow> string \<Rightarrow> num_error + nat" where
  "ParseUint_loop n [] = Inr n"
| "ParseUint_loop n (c # cs) =
     (case digit_value c of
        None \<Rightarrow> Inl ErrSyntax
      | Some d \<Rightarrow>
          if n * 10 + d > 2 ^ 64 - 1 then Inl ErrRange else ParseUint_loop (n * 10 + d) cs)"

definition ParseUint :: "string \<Rightarrow> num_error + nat" where
  "ParseUint s = (if s = [] then Inl ErrSyntax else ParseUint_loop 0 s)"

definition ParseInt :: "string \<Rightarrow> num_error + int" where
  "ParseInt s =
     (if s = [] then Inl ErrSyntax
      else let neg = (hd s = CHR ''-'');
               t = (if hd s = CHR ''+'' \<or> hd s = CHR ''-'' then tl s else s)
           in case ParseUint t of
                Inl e \<Rightarrow> Inl e
              | Inr n \<Rightarrow>
                  if \<not> neg \<and> n \<ge> 2 ^ 63 then Inl ErrRange
                  else if neg \<and> n > 2 ^ 63 then Inl ErrRange
                  else Inr (if neg then - int n else int n))"

lemma ParseInt_range: "ParseInt s = Inr n \<Longrightarrow> - (2 ^ 63) \<le> n \<and> n < 2 ^ 63"
  by (auto simp: ParseInt_def Let_def split: if_splits sum.splits)

section \<open>Decimal output\<close>

text \<open>The verb \<open>%d\<close> of \<open>fmt.Sprintf\<close>.\<close>

fun nat_digits :: "nat \<Rightarrow> string" where
  "nat_digits n = (if n < 10 then [char_of (48 + n)] else nat_digits (n div 10) @ [char_of (48 + n mod 10)])"

declare nat_digits.simps [simp del]

definition itoa :: "int \<Rightarrow> string" where
  "itoa i = (if i < 0 then CHR ''-'' # nat_digits (nat (- i)) else nat_digits (nat i))"

section \<open>Quoting\<close>

text \<open>
  \<open>strconv.Quote\<close> byte by byte: the named escapes, hexadecimal for the other control characters;
  bytes of a character beyond ASCII stay, as they do for printable characters in valid UTF-8.
\<close>

definition hex_digit :: "nat \<Rightarrow> char" where
  "hex_digit n = ''0123456789abcdef'' ! (n mod 16)"

definition quote_char :: "char \<Rightarrow> string" where
  "quote_char c =
     (let n = (of_char c :: nat); backslash = char_of (92 :: nat)
      in case map_of [(34, char_of (34 :: nat)), (92, backslash), (7, CHR ''a''), (8, CHR ''b''), (12, CHR ''f''),
                      (10, CHR ''n''), (13, CHR ''r''), (9, CHR ''t''), (11, CHR ''v'')] n of
           Some d \<Rightarrow> [backslash, d]
         | None \<Rightarrow>
             if n < 32 \<or> n = 127 then [backslash, CHR ''x'', hex_digit (n div 16), hex_digit n] else [c])"

definition Quote :: "string \<Rightarrow> string" where
  "Quote s = char_of (34 :: nat) # concat (map quote_char s) @ [char_of (34 :: nat)]"

section \<open>strings.ToLower, strings.FieldsFunc\<close>

text \<open>
  \<open>strings.ToLower\<close> on bytes: the letters of ASCII, and the two characters beyond it that have a
  lower case form in ASCII (U+0130 and U+212A). Other characters beyond ASCII are left alone; the
  code lowers those that are capital letters to other characters beyond ASCII.
\<close>

definition lower_char :: "char \<Rightarrow> char" where
  "lower_char c = (let n = (of_char c :: nat) in if 65 \<le> n \<and> n \<le> 90 then char_of (n + 32) else c)"

fun ToLower :: "string \<Rightarrow> string" where
  "ToLower [] = []"
| "ToLower (c # cs) =
     (if prefix [CHR 0xC4, CHR 0xB0] (c # cs) then CHR ''i'' # ToLower (drop 1 cs)
      else if prefix [CHR 0xE2, CHR 0x84, CHR 0xAA] (c # cs) then CHR ''k'' # ToLower (drop 2 cs)
      else lower_char c # ToLower cs)"

text \<open>\<open>strings.FieldsFunc(s, f)\<close>: the maximal runs of bytes that \<open>f\<close> does not hold of.\<close>

function FieldsFunc :: "(char \<Rightarrow> bool) \<Rightarrow> string \<Rightarrow> string list" where
  "FieldsFunc f [] = []"
| "FieldsFunc f (c # cs) =
     (if f c then FieldsFunc f cs
      else (c # takeWhile (\<lambda>d. \<not> f d) cs) # FieldsFunc f (dropWhile (\<lambda>d. \<not> f d) cs))"
  by pat_completeness auto
termination
  by (relation "measure (\<lambda>(_, s). length s)") (auto simp: less_Suc_eq_le length_dropWhile_le)

lemma FieldsFunc_fields: "t \<in> set (FieldsFunc f s) \<Longrightarrow> t \<noteq> [] \<and> (\<forall>c \<in> set t. \<not> f c)"
proof (induction f s rule: FieldsFunc.induct)
  case (2 f c cs)
  show ?case
  proof (cases "f c")
    case True
    then have "t \<in> set (FieldsFunc f cs)" using "2.prems" by simp
    with True show ?thesis using "2.IH"(1) by blast
  next
    case False
    then have "t = c # takeWhile (\<lambda>d. \<not> f d) cs \<or> t \<in> set (FieldsFunc f (dropWhile (\<lambda>d. \<not> f d) cs))"
      using "2.prems" by simp
    then show ?thesis
    proof
      assume "t = c # takeWhile (\<lambda>d. \<not> f d) cs"
      moreover have "\<not> f x" if "x \<in> set (takeWhile (\<lambda>d. \<not> f d) cs)" for x
        using set_takeWhileD [OF that] by simp
      ultimately show ?thesis using False by simp
    qed (use "2.IH"(2) False in blast)
  qed
qed simp

lemma concat_FieldsFunc: "concat (FieldsFunc f s) = filter (\<lambda>c. \<not> f c) s"
proof (induction f s rule: FieldsFunc.induct)
  case (2 f c cs)
  have "takeWhile (\<lambda>d. \<not> f d) cs @ filter (\<lambda>c. \<not> f c) (dropWhile (\<lambda>d. \<not> f d) cs) = filter (\<lambda>c. \<not> f c) cs"
    by (induction cs) auto
  with 2 show ?case by (cases "f c") simp_all
qed simp

declare FieldsFunc.simps(2) [simp del]

end
