(* ===== verification/Crypto.thy ===== *)
theory Crypto
  imports Go_Strings
begin

text \<open>
  The parts of crypto/sha256, crypto/hmac and encoding/base64 that the program calls: SHA-256
  (FIPS 180-4), HMAC over it (RFC 2104) and the URL-safe base64 alphabet with padding. The
  round trip of the base64 coder is proved here.
\<close>

unbundle bit_operations_syntax

section \<open>base64.URLEncoding\<close>

definition b64_alphabet :: string where
  "b64_alphabet =
     ''ABCDEFGHIJKLMNOPQRSTUVWXYZabcdefghijklmnopqrstuvwxyz0123456789-_''"

definition b64_char :: "nat \<Rightarrow> char" where
  "b64_char n = b64_alphabet ! n"

definition b64_value :: "char \<Rightarrow> nat option" where
  "b64_value c = find_index (\<lambda>d. d = c) b64_alphabet"

abbreviation b64_pad :: char where
  "b64_pad \<equiv> CHR ''=''"

fun b64_encode :: "string \<Rightarrow> string" where
  "b64_encode [] = []"
| "b64_encode [a] =
     (let x = of_char a in
      [b64_char (x div 4), b64_char (x mod 4 * 16), b64_pad, b64_pad])"
| "b64_encode [a, b] =
     (let x = of_char a; y = of_char b in
      [b64_char (x div 4), b64_char (x mod 4 * 16 + y div 16), b64_char (y mod 16 * 4), b64_pad])"
| "b64_encode (a # b # c # cs) =
     (let x = of_char a; y = of_char b; z = of_char c in
      [b64_char (x div 4), b64_char (x mod 4 * 16 + y div 16),
       b64_char (y mod 16 * 4 + z div 64), b64_char (z mod 64)] @ b64_encode cs)"

text \<open>
  The decoder drops newlines, reads quanta of four characters, and accepts padding only at the
  end; a quantum with a character outside the alphabet is an error (\<open>None\<close>).
\<close>

fun b64_decode_quanta :: "string \<Rightarrow> string option" where
  "b64_decode_quanta [] = Some []"
| "b64_decode_quanta (p # q # r # s # cs) =
     (case (b64_value p, b64_value q) of
        (Some x, Some y) \<Rightarrow>
          if r = b64_pad then
            (if s = b64_pad \<and> cs = [] then Some [char_of (x * 4 + y div 16)] else None)
          else (case b64_value r of
            None \<Rightarrow> None
          | Some z \<Rightarrow>
              if s = b64_pad then
                (if cs = [] then Some [char_of (x * 4 + y div 16), char_of (y mod 16 * 16 + z div 4)]
                 else None)
              else (case b64_value s of
                None \<Rightarrow> None
              | Some w \<Rightarrow> map_option
                  (\<lambda>rest. [char_of (x * 4 + y div 16), char_of (y mod 16 * 16 + z div 4),
                          char_of (z mod 4 * 64 + w)] @ rest) (b64_decode_quanta cs)))
      | _ \<Rightarrow> None)"
| "b64_decode_quanta _ = None"

definition b64_decode :: "string \<Rightarrow> string option" where
  "b64_decode s = b64_decode_quanta (filter (\<lambda>c. c \<noteq> CHR 0x0A \<and> c \<noteq> CHR 0x0D) s)"

text \<open>Decoding inverts encoding.\<close>

lemma b64_alphabet_scan:
  "list_all (\<lambda>n. b64_value (b64_char n) = Some n \<and> b64_char n \<noteq> b64_pad \<and>
     b64_char n \<noteq> CHR 0x0A \<and> b64_char n \<noteq> CHR 0x0D) [0..<64]"
  by code_simp

lemma b64_char_facts:
  assumes "n < 64"
  shows "b64_value (b64_char n) = Some n" "b64_char n \<noteq> b64_pad"
    "b64_char n \<noteq> CHR 0x0A" "b64_char n \<noteq> CHR 0x0D"
  using b64_alphabet_scan assms by (auto simp: list_all_iff)

lemma digits_rejoin:
  assumes "r < k"
  shows "(q * k + r) div k = (q :: nat)" "(q * k + r) mod k = r"
  using assms by (simp_all add: div_add1_eq)

lemma b64_sextets:
  assumes "x < 256" "y < 256" "z < (256 :: nat)"
  shows "x div 4 < 64" "x mod 4 * 16 + y div 16 < 64" "x mod 4 * 16 < 64"
    "y mod 16 * 4 + z div 64 < 64" "y mod 16 * 4 < 64" "z mod 64 < 64"
proof -
  have "x mod 4 < 4" "y div 16 < 16" "y mod 16 < 16" "z div 64 < 4" using assms by simp_all
  then show "x mod 4 * 16 + y div 16 < 64" "x mod 4 * 16 < 64"
    "y mod 16 * 4 + z div 64 < 64" "y mod 16 * 4 < 64" by linarith+
qed (use assms in simp_all)

lemma b64_rejoin:
  assumes "x < 256" "y < 256" "z < (256 :: nat)"
  shows "x div 4 * 4 + (x mod 4 * 16 + y div 16) div 16 = x"
    "(x mod 4 * 16 + y div 16) mod 16 * 16 + (y mod 16 * 4 + z div 64) div 4 = y"
    "(y mod 16 * 4 + z div 64) mod 4 * 64 + z mod 64 = z"
    "x div 4 * 4 + (x mod 4 * 16) div 16 = x"
    "(x mod 4 * 16 + y div 16) mod 16 * 16 + (y mod 16 * 4) div 4 = y"
proof -
  have "y div 16 < 16" "z div 64 < 4" using assms by simp_all
  then show "x div 4 * 4 + (x mod 4 * 16 + y div 16) div 16 = x"
    "(x mod 4 * 16 + y div 16) mod 16 * 16 + (y mod 16 * 4 + z div 64) div 4 = y"
    "(y mod 16 * 4 + z div 64) mod 4 * 64 + z mod 64 = z"
    "(x mod 4 * 16 + y div 16) mod 16 * 16 + (y mod 16 * 4) div 4 = y"
    by (simp_all add: digits_rejoin div_mult_mod_eq del: div_mult_self1 div_mult_self2)
qed simp

lemma b64_quanta_encode: "b64_decode_quanta (b64_encode s) = Some s"
proof (induction s rule: b64_encode.induct)
  case (2 a)
  have "of_char a < (256 :: nat)" by simp
  note b = b64_sextets [OF this this this] b64_rejoin [OF this this this]
  then show ?case by (simp add: Let_def b64_char_facts)
next
  case (3 a b)
  have ab: "of_char a < (256 :: nat)" "of_char b < (256 :: nat)" by simp_all
  note b = b64_sextets [OF ab ab(1)] b64_rejoin [OF ab ab(1)]
  then show ?case by (simp add: Let_def b64_char_facts)
next
  case (4 a b c cs)
  have abc: "of_char a < (256 :: nat)" "of_char b < (256 :: nat)" "of_char c < (256 :: nat)"
    by simp_all
  note b = b64_sextets [OF abc] b64_rejoin [OF abc]
  then show ?case by (simp add: Let_def b64_char_facts 4)
qed simp

lemma b64_encode_no_newline: "filter (\<lambda>c. c \<noteq> CHR 0x0A \<and> c \<noteq> CHR 0x0D) (b64_encode s) = b64_encode s"
proof (induction s rule: b64_encode.induct)
  case (2 a)
  have "of_char a < (256 :: nat)" by simp
  from b64_sextets [OF this this this] show ?case by (simp add: Let_def b64_char_facts)
next
  case (3 a b)
  have ab: "of_char a < (256 :: nat)" "of_char b < (256 :: nat)" by simp_all
  from b64_sextets [OF ab ab(1)] b64_sextets(5) [OF ab ab(2)] show ?case by (simp add: Let_def b64_char_facts)
next
  case (4 a b c cs)
  have abc: "of_char a < (256 :: nat)" "of_char b < (256 :: nat)" "of_char c < (256 :: nat)"
    by simp_all
  from b64_sextets [OF abc] show ?case by (simp add: Let_def b64_char_facts 4)
qed simp

lemma b64_decode_encode: "b64_decode (b64_encode s) = Some s"
  by (simp add: b64_decode_def b64_encode_no_newline b64_quanta_encode)

lemma b64_encode_inj: "b64_encode s = b64_encode t \<longleftrightarrow> s = t"
  by (metis b64_decode_encode option.inject)

lemma b64_encode_Nil_iff [simp]: "b64_encode s = [] \<longleftrightarrow> s = []"
  by (cases s rule: b64_encode.cases) (auto simp: Let_def)

section \<open>SHA-256\<close>

type_synonym u32 = "32 word"

definition sha256_K :: "u32 list" where
  "sha256_K =
    [1116352408, 1899447441, 3049323471, 3921009573, 961987163, 1508970993, 2453635748, 2870763221,
     3624381080, 310598401, 607225278, 1426881987, 1925078388, 2162078206, 2614888103, 3248222580,
     3835390401, 4022224774, 264347078, 604807628, 770255983, 1249150122, 1555081692, 1996064986,
     2554220882, 2821834349, 2952996808, 3210313671, 3336571891, 3584528711, 113926993, 338241895,
     666307205, 773529912, 1294757372, 1396182291, 1695183700, 1986661051, 2177026350, 2456956037,
     2730485921, 2820302411, 3259730800, 3345764771, 3516065817, 3600352804, 4094571909, 275423344,
     430227734, 506948616, 659060556, 883997877, 958139571, 1322822218, 1537002063, 1747873779,
     1955562222, 2024104815, 2227730452, 2361852424, 2428436474, 2756734187, 3204031479, 3329325298]"

definition sha256_init :: "u32 list" where
  "sha256_init =
    [1779033703, 3144134277, 1013904242, 2773480762, 1359893119, 2600822924, 528734635, 1541459225]"

definition rotr :: "nat \<Rightarrow> u32 \<Rightarrow> u32" where
  "rotr n w = (drop_bit n w) OR (push_bit (32 - n) w)"

definition be_word :: "char list \<Rightarrow> u32" where
  "be_word bs = foldl (\<lambda>acc b. acc * 256 + of_char b) 0 bs"

definition be_bytes :: "nat \<Rightarrow> 'a::len word \<Rightarrow> char list" where
  "be_bytes k w = map (\<lambda>i. char_of (unat (drop_bit (8 * i) w AND 0xFF))) (rev [0..<k])"

definition sha256_pad :: "string \<Rightarrow> string" where
  "sha256_pad m =
     m @ CHR 0x80 # replicate ((119 - length m mod 64) mod 64) (CHR 0x00) @ be_bytes 8 (of_nat (8 * length m) :: 64 word)"

fun chunks :: "nat \<Rightarrow> 'a list \<Rightarrow> 'a list list" where
  "chunks n xs = (if n = 0 \<or> xs = [] then [] else take n xs # chunks n (drop n xs))"

declare chunks.simps [simp del]

text \<open>The message schedule, newest word first.\<close>

definition schedule_step :: "u32 list \<Rightarrow> u32 list" where
  "schedule_step ws =
     (let w15 = ws ! 14; w2 = ws ! 1;
          s0 = rotr 7 w15 XOR rotr 18 w15 XOR drop_bit 3 w15;
          s1 = rotr 17 w2 XOR rotr 19 w2 XOR drop_bit 10 w2
      in (ws ! 15 + s0 + ws ! 6 + s1) # ws)"

definition sha256_schedule :: "string \<Rightarrow> u32 list" where
  "sha256_schedule block = rev ((schedule_step ^^ 48) (rev (map be_word (chunks 4 block))))"

fun sha256_round :: "u32 list \<Rightarrow> u32 \<times> u32 \<Rightarrow> u32 list" where
  "sha256_round [a, b, c, d, e, f, g, h] (k, w) =
     (let s1 = rotr 6 e XOR rotr 11 e XOR rotr 25 e;
          ch = (e AND f) XOR (NOT e AND g);
          t1 = h + s1 + ch + k + w;
          s0 = rotr 2 a XOR rotr 13 a XOR rotr 22 a;
          maj = (a AND b) XOR (a AND c) XOR (b AND c)
      in [t1 + s0 + maj, a, b, c, d + t1, e, f, g])"
| "sha256_round hs _ = hs"

definition sha256_block :: "u32 list \<Rightarrow> string \<Rightarrow> u32 list" where
  "sha256_block hs block =
     map2 (+) hs (foldl sha256_round hs (zip sha256_K (sha256_schedule block)))"

definition sha256 :: "string \<Rightarrow> string" where
  "sha256 m = concat (map (\<lambda>w. be_bytes 4 w)
     (foldl sha256_block sha256_init (chunks 64 (sha256_pad m))))"

definition hmac_sha256 :: "string \<Rightarrow> string \<Rightarrow> string" where
  "hmac_sha256 key m =
     (let k0 = (if length key > 64 then sha256 key else key);
          k = k0 @ replicate (64 - length k0) (CHR 0x00);
          pad = (\<lambda>p. map (\<lambda>c. char_of (of_char c XOR p :: nat)) k)
      in sha256 (pad 0x5c @ sha256 (pad 0x36 @ m)))"

text \<open>Digests have 32 bytes.\<close>

lemma length_be_bytes [simp]: "length (be_bytes k w) = k"
  by (simp add: be_bytes_def)

lemma length_sha256_round: "length hs = 8 \<Longrightarrow> length (sha256_round hs kw) = 8"
  by (cases "(hs, kw)" rule: sha256_round.cases) (auto simp: Let_def)

lemma length_foldl_round: "length hs = 8 \<Longrightarrow> length (foldl sha256_round hs kws) = 8"
  by (induction kws arbitrary: hs) (simp_all add: length_sha256_round)

lemma length_foldl_block: "length hs = 8 \<Longrightarrow> length (foldl sha256_block hs bs) = 8"
  by (induction bs arbitrary: hs) (simp_all add: sha256_block_def length_foldl_round Let_def)

lemma length_sha256 [simp]: "length (sha256 m) = 32"
proof -
  have "length (foldl sha256_block sha256_init bs) = 8" for bs
    by (rule length_foldl_block) (simp add: sha256_init_def)
  moreover have "length (concat (map (be_bytes 4) ws)) = 4 * length ws" for ws :: "u32 list"
    by (induction ws) simp_all
  ultimately show ?thesis by (simp add: sha256_def)
qed

lemma length_hmac [simp]: "length (hmac_sha256 key m) = 32"
  by (simp add: hmac_sha256_def Let_def)

lemma digest_not_Nil [simp]: "sha256 m \<noteq> []" "hmac_sha256 key m \<noteq> []"
  using length_sha256 [of m] length_hmac [of key m] by (metis list.size(3) zero_neq_numeral)+

end
