(* ===== verification/Go_External.thy ===== *)
theory Go_External
  imports Crypto
begin

text \<open>
  The inputs of the model that are not code of this repository: third-party packages (bcrypt
  and the one-time-password package) as functions, and what one run of an operation reads from
  its surroundings (clock, random numbers, fresh identifiers, whether a file can be written).
\<close>

text \<open>
  \<^item> \<open>bcrypt_generate salt password\<close> is \<open>bcrypt.GenerateFromPassword\<close> at the cost the program
    uses, its random salt made explicit; \<open>None\<close> is its error.
  \<^item> \<open>bcrypt_compare hash password\<close> says that \<open>bcrypt.CompareHashAndPassword\<close> returns no error.
  \<^item> \<open>totp_authenticate secret window token now\<close> is \<open>OTPConfig.Authenticate\<close> of dgoogauth for a
    configuration with this secret and window size: the verdict and the text of its error.
  \<^item> \<open>otp_png secret account\<close> is the PNG image of the QR code of a one-time-password
    configuration for an account (packages dgoogauth, barcode, qr), or the text of the error.
  \<^item> \<open>cast_ToBool\<close> is the conversion of a string by the package cast.
\<close>

record ext =
  bcrypt_generate :: "string \<Rightarrow> string \<Rightarrow> string option"
  bcrypt_compare :: "string \<Rightarrow> string \<Rightarrow> bool"
  totp_authenticate :: "string \<Rightarrow> int \<Rightarrow> string \<Rightarrow> time \<Rightarrow> bool \<times> string option"
  otp_png :: "string \<Rightarrow> string \<Rightarrow> string + string"
  cast_ToBool :: "string \<Rightarrow> bool"

text \<open>The documented contract of bcrypt: a hash matches the password it was made from.\<close>

definition bcrypt_contract :: "ext \<Rightarrow> bool" where
  "bcrypt_contract x \<longleftrightarrow>
     (\<forall>salt pwd h. bcrypt_generate x salt pwd = Some h \<longrightarrow> bcrypt_compare x h pwd)"

text \<open>
  \<^item> \<open>env_now\<close>: the clock. One operation reads it once.
  \<^item> \<open>env_uuid k\<close>: the \<open>k\<close>-th identifier that \<open>uuid.NewV4().String()\<close> yields in the operation.
  \<^item> \<open>env_rand k\<close>: the bytes of the \<open>k\<close>-th read of crypto/rand (at least as
    many as the buffer takes), \<open>None\<close> when the read fails.
  \<^item> \<open>env_salt\<close>: bcrypt's salt; \<open>env_dice\<close>: the results of \<open>rand.Intn\<close> of math/rand.
  \<^item> \<open>env_write\<close>: how \<open>ioutil.WriteFile\<close> ends.
\<close>

record env =
  env_now :: time
  env_uuid :: "nat \<Rightarrow> string"
  env_rand :: "nat \<Rightarrow> string option"
  env_salt :: string
  env_dice :: "nat \<Rightarrow> nat"
  env_write :: write_outcome

section \<open>random_strings.go\<close>

text \<open>
  \<open>secureRandomString(c)\<close>: the base64 form of the \<open>c\<close> bytes that the read fills its buffer with,
  or the error.
\<close>

definition secureRandomString :: "nat \<Rightarrow> string option \<Rightarrow> string option" where
  "secureRandomString c bytes = map_option (\<lambda>bs. b64_encode (take c bs)) bytes"

text \<open>The callers that ignore the error get the empty string.\<close>

definition secureRandomString_ignoring :: "nat \<Rightarrow> string option \<Rightarrow> string" where
  "secureRandomString_ignoring c bytes =
     (case secureRandomString c bytes of None \<Rightarrow> [] | Some s \<Rightarrow> s)"

definition totpChars :: string where
  "totpChars = ''ABCDEFGHIJKLMNOPQRSTUVWXYZ234567''"

definition TotpSecret :: "(nat \<Rightarrow> nat) \<Rightarrow> string" where
  "TotpSecret dice = map (\<lambda>i. totpChars ! (dice i mod length totpChars)) [0..<16]"

lemma length_TotpSecret [simp]: "length (TotpSecret dice) = 16"
  by (simp add: TotpSecret_def)

lemma TotpSecret_chars: "set (TotpSecret dice) \<subseteq> set totpChars"
proof
  fix c assume "c \<in> set (TotpSecret dice)"
  then obtain i where "c = totpChars ! (dice i mod length totpChars)"
    by (auto simp: TotpSecret_def)
  moreover have "dice i mod length totpChars < length totpChars" by (simp add: totpChars_def)
  ultimately show "c \<in> set totpChars" by (metis nth_mem)
qed

end
