(* ===== verification/Users.thy ===== *)
theory Users
  imports Go_External
begin

text \<open>
  users.go: the user record, the authentication types as a bit set, and the user store with
  its file. A pointer to a user of the store is the user's position in the slice \<open>Users\<close>.
\<close>

unbundle bit_operations_syntax

section \<open>Authentication types\<close>

type_synonym auth_type = "64 word"

definition AUTH_TYPE_LOCAL :: auth_type where "AUTH_TYPE_LOCAL = push_bit 0 1"
definition AUTH_TYPE_LDAP :: auth_type where "AUTH_TYPE_LDAP = push_bit 1 1"
definition AUTH_TYPE_TWO_FACTOR :: auth_type where "AUTH_TYPE_TWO_FACTOR = push_bit 2 1"

definition TOTP_MAX_WINDOWS :: int where "TOTP_MAX_WINDOWS = 3"

section \<open>User\<close>

record user =
  user_Id :: string
  user_Username :: string
  user_EmailAddress :: string
  user_PasswordHash :: string
  user_AuthType :: auth_type
  user_Enabled :: bool
  user_SessionToken :: string
  user_TotpSecret :: string
  user_TotpSecretValidated :: bool
  user_SessionIpAddress :: string
  user_SessionLastTimestamp :: time
  user_Roles :: "(string, bool) gomap"

definition newUser :: "string \<Rightarrow> user" where
  "newUser uid =
     \<lparr>user_Id = uid, user_Username = [], user_EmailAddress = [], user_PasswordHash = [],
      user_AuthType = 0, user_Enabled = False, user_SessionToken = [], user_TotpSecret = [],
      user_TotpSecretValidated = False, user_SessionIpAddress = [],
      user_SessionLastTimestamp = zero_time, user_Roles = []\<rparr>"

definition LegacyHasTwoFactors :: "user \<Rightarrow> bool" where
  "LegacyHasTwoFactors u \<longleftrightarrow> length (user_TotpSecret u) > 0 \<and> user_TotpSecretValidated u = True"

definition IsAuthType :: "user \<Rightarrow> auth_type \<Rightarrow> bool" where
  "IsAuthType u a \<longleftrightarrow> user_AuthType u AND a \<noteq> 0"

definition IsAuthDefined :: "user \<Rightarrow> bool" where
  "IsAuthDefined u \<longleftrightarrow> user_AuthType u \<noteq> 0"

definition HasTwoFactor :: "user \<Rightarrow> bool" where
  "HasTwoFactor u \<longleftrightarrow> IsAuthType u AUTH_TYPE_TWO_FACTOR \<and> LegacyHasTwoFactors u"

definition HasRole :: "user \<Rightarrow> string \<Rightarrow> bool" where
  "HasRole u r \<longleftrightarrow> gm_true (user_Roles u) r"

definition AddRole :: "string \<Rightarrow> user \<Rightarrow> user" where
  "AddRole r u = u\<lparr>user_Roles := gm_set r True (user_Roles u)\<rparr>"

definition TouchSession :: "time \<Rightarrow> string \<Rightarrow> user \<Rightarrow> user" where
  "TouchSession now ip u = u\<lparr>user_SessionLastTimestamp := now, user_SessionIpAddress := ip\<rparr>"

text \<open>The token and the error text; both \<open>strings.TrimSpace\<close> and the stored secret guard it.\<close>

definition ValidateTotp :: "ext \<Rightarrow> time \<Rightarrow> user \<Rightarrow> string \<Rightarrow> bool \<times> string option" where
  "ValidateTotp x now u t =
     (if length (user_TotpSecret u) < 1 \<or> length (TrimSpace t) < 1
      then (False, Some ''Token not provided'')
      else totp_authenticate x (user_TotpSecret u) TOTP_MAX_WINDOWS t now)"

definition GenerateOTPSecret :: "env \<Rightarrow> user \<Rightarrow> user" where
  "GenerateOTPSecret e u = u\<lparr>user_TotpSecret := TotpSecret (env_dice e)\<rparr>"

definition TotpQrImage :: "ext \<Rightarrow> user \<Rightarrow> string + string" where
  "TotpQrImage x u = otp_png x (user_TotpSecret u) (''indispenso:'' @ user_Username u)"

text \<open>The token of a session; a failed read of random bytes leaves it empty.\<close>

definition StartSession :: "env \<Rightarrow> user \<Rightarrow> user \<times> string" where
  "StartSession e u =
     (let t = secureRandomString_ignoring 32 (env_rand e 0)
      in (u\<lparr>user_SessionToken := t\<rparr>, t))"

lemma HasRole_AddRole [simp, go_simps]: "HasRole (AddRole r u) r' \<longleftrightarrow> r' = r \<or> HasRole u r'"
  by (simp add: HasRole_def AddRole_def)

lemma user_touch_simps [simp, go_simps]:
  "user_Username (TouchSession now ip u) = user_Username u"
  "user_Id (TouchSession now ip u) = user_Id u"
  "user_Roles (TouchSession now ip u) = user_Roles u"
  "user_Enabled (TouchSession now ip u) = user_Enabled u"
  "user_SessionToken (TouchSession now ip u) = user_SessionToken u"
  "user_TotpSecret (TouchSession now ip u) = user_TotpSecret u"
  "user_TotpSecretValidated (TouchSession now ip u) = user_TotpSecretValidated u"
  "user_AuthType (TouchSession now ip u) = user_AuthType u"
  "user_PasswordHash (TouchSession now ip u) = user_PasswordHash u"
  "user_SessionLastTimestamp (TouchSession now ip u) = now"
  "HasRole (TouchSession now ip u) = HasRole u"
  "HasTwoFactor (TouchSession now ip u) = HasTwoFactor u"
  "ValidateTotp x t (TouchSession now ip u) = ValidateTotp x t u"
  by (simp_all add: TouchSession_def HasRole_def fun_eq_iff HasTwoFactor_def IsAuthType_def
      LegacyHasTwoFactors_def ValidateTotp_def)

lemma auth_type_bits:
  "AUTH_TYPE_LOCAL = 1" "AUTH_TYPE_LDAP = 2" "AUTH_TYPE_TWO_FACTOR = 4"
  by (simp_all add: AUTH_TYPE_LOCAL_def AUTH_TYPE_LDAP_def AUTH_TYPE_TWO_FACTOR_def)

text \<open>Setting one authentication type sets its bit and leaves the bits of the others alone.\<close>

lemma auth_type_or:
  "(w OR AUTH_TYPE_LOCAL) AND AUTH_TYPE_LOCAL \<noteq> 0"
  "(w OR AUTH_TYPE_LDAP) AND AUTH_TYPE_LDAP \<noteq> 0"
  "(w OR AUTH_TYPE_TWO_FACTOR) AND AUTH_TYPE_TWO_FACTOR \<noteq> 0"
  by (simp_all add: auth_type_bits bit.conj_disj_distrib2)

definition AuthTypes :: "(string \<times> int) list" where
  "AuthTypes = [(''Local'', uint AUTH_TYPE_LOCAL), (''LDAP'', uint AUTH_TYPE_LDAP),
                (''Two factor'', uint AUTH_TYPE_TWO_FACTOR)]"

section \<open>User store\<close>

record user_store =
  us_Users :: "user list"
  us_file :: "user list stored"

text \<open>Writing through a pointer to a user of the store.\<close>

definition upd_user :: "nat \<Rightarrow> (user \<Rightarrow> user) \<Rightarrow> user_store \<Rightarrow> user_store" where
  "upd_user i f s = s\<lparr>us_Users := h_upd i f (us_Users s)\<rparr>"

abbreviation get_user :: "user_store \<Rightarrow> nat \<Rightarrow> user option" where
  "get_user s i \<equiv> h_get (us_Users s) i"

definition ByName :: "user_store \<Rightarrow> string \<Rightarrow> nat option" where
  "ByName s username = find_index (\<lambda>u. user_Username u = username) (us_Users s)"

definition ById :: "user_store \<Rightarrow> string \<Rightarrow> nat option" where
  "ById s userId = find_index (\<lambda>u. user_Id u = userId) (us_Users s)"

definition RemoveByName :: "string \<Rightarrow> user_store \<Rightarrow> user_store" where
  "RemoveByName username s =
     s\<lparr>us_Users := filter (\<lambda>u. user_Username u \<noteq> username) (us_Users s)\<rparr>"

definition users_save :: "env \<Rightarrow> user_store \<Rightarrow> user_store" where
  "users_save e s = s\<lparr>us_file := write_file (env_write e) (us_Users s) (us_file s)\<rparr>"

text \<open>\<open>HashPassword\<close>: the encoded hash and whether bcrypt failed (then there are no bytes).\<close>

definition HashPassword :: "ext \<Rightarrow> env \<Rightarrow> string \<Rightarrow> string \<times> bool" where
  "HashPassword x e pwd =
     (case bcrypt_generate x (env_salt e) pwd of
        None \<Rightarrow> (b64_encode [], True)
      | Some b \<Rightarrow> (b64_encode b, False))"

text \<open>The user that \<open>CreateUser\<close> builds before it looks at the store.\<close>

definition created_user :: "env \<Rightarrow> string \<Rightarrow> string \<Rightarrow> string list \<Rightarrow> user" where
  "created_user e username email roles =
     (let user = (newUser (env_uuid e 0))
            \<lparr>user_Username := TrimSpace username, user_EmailAddress := email, user_Enabled := True\<rparr>
      in foldl (\<lambda>u role. u\<lparr>user_Roles := gm_set role True (user_Roles u)\<rparr>) user roles)"

text \<open>\<open>CreateUser\<close>; \<open>None\<close> is \<open>log.Fatal\<close>, which ends the process.\<close>

definition CreateUser ::
  "ext \<Rightarrow> env \<Rightarrow> string \<Rightarrow> string \<Rightarrow> string \<Rightarrow> string list \<Rightarrow> user_store \<Rightarrow> (bool \<times> user_store) option"
where
  "CreateUser x e username password email roles s =
     (let user = created_user e username email roles
      in if \<exists>usr \<in> set (us_Users s). user_Username usr = user_Username user then Some (False, s)
         else case HashPassword x e password of
             (hash, True) \<Rightarrow> None
           | (hash, False) \<Rightarrow>
               let user = user\<lparr>user_PasswordHash := hash\<rparr>;
                   user = (if length password > 0
                           then user\<lparr>user_AuthType := user_AuthType user OR AUTH_TYPE_LOCAL\<rparr>
                           else user)
               in Some (True, s\<lparr>us_Users := us_Users s @ [user]\<rparr>))"

text \<open>\<open>AddUser\<close>: the pointer to the new user, or the error text.\<close>

definition AddUser ::
  "env \<Rightarrow> string \<Rightarrow> string \<Rightarrow> auth_type \<Rightarrow> user_store \<Rightarrow> (string + nat) \<times> user_store"
where
  "AddUser e login email authType s =
     (let login = TrimSpace login
      in if \<exists>usr \<in> set (us_Users s). user_Username usr = login
         then (Inl (''Cannot add new user ('' @ login @ ''), user already exsists''), s)
         else
           let user = (newUser (env_uuid e 0))
                 \<lparr>user_Username := login, user_EmailAddress := email, user_Enabled := True\<rparr>;
               user = user\<lparr>user_AuthType := user_AuthType user OR authType\<rparr>
           in (Inr (length (us_Users s)), s\<lparr>us_Users := us_Users s @ [user]\<rparr>))"

definition migrate_user :: "user \<Rightarrow> user" where
  "migrate_user v =
     (if \<not> IsAuthDefined v then
        (let v = (if length (user_PasswordHash v) > 0
                  then v\<lparr>user_AuthType := user_AuthType v OR AUTH_TYPE_LOCAL\<rparr> else v)
         in if LegacyHasTwoFactors v
            then v\<lparr>user_AuthType := user_AuthType v OR AUTH_TYPE_TWO_FACTOR\<rparr> else v)
      else v)"

definition MigrateUsers :: "user list \<Rightarrow> user list" where
  "MigrateUsers users = map migrate_user users"

definition users_load :: "user_store \<Rightarrow> user_store" where
  "users_load s =
     (case us_file s of Json v \<Rightarrow> s\<lparr>us_Users := MigrateUsers v\<rparr> | _ \<Rightarrow> s)"

definition prepareDefaultUser :: "ext \<Rightarrow> env \<Rightarrow> user_store \<Rightarrow> user_store option" where
  "prepareDefaultUser x e s =
     (if length (us_Users s) < 1 then
        let pwd = secureRandomString_ignoring 32 (env_rand e 0)
        in case CreateUser x e ''admin'' pwd [] [] s of
             None \<Rightarrow> None
           | Some (_, s) \<Rightarrow>
               (case ByName s ''admin'' of
                  None \<Rightarrow> None
                | Some i \<Rightarrow>
                    let s = upd_user i (AddRole ''admin'') s;
                        s = upd_user i (AddRole ''requester'') s;
                        s = upd_user i (AddRole ''approver'') s
                    in Some (users_load (users_save e s)))
      else Some s)"

definition newUserStore :: "ext \<Rightarrow> env \<Rightarrow> user list stored \<Rightarrow> user_store option" where
  "newUserStore x e f = prepareDefaultUser x e (users_load \<lparr>us_Users = [], us_file = f\<rparr>)"

section \<open>Lookups\<close>

lemma get_user_upd [simp, go_simps]:
  "get_user (upd_user i f s) j = (if j = i then map_option f (get_user s i) else get_user s j)"
  by (simp add: upd_user_def)

lemma us_file_upd [simp, go_simps]: "us_file (upd_user i f s) = us_file s"
  by (simp add: upd_user_def)

lemma ByName_SomeD:
  "ByName s n = Some i \<Longrightarrow> \<exists>u. get_user s i = Some u \<and> user_Username u = n"
  unfolding ByName_def by (rule find_index_h_get)

lemma ByName_None_iff: "ByName s n = None \<longleftrightarrow> n \<notin> user_Username ` set (us_Users s)"
  by (auto simp: ByName_def find_index_None_iff)

lemma ByName_upd [simp, go_simps]:
  assumes "\<And>u. user_Username (f u) = user_Username u"
  shows "ByName (upd_user i f s) n = ByName s n"
  unfolding ByName_def
  by (rule find_index_cong_map [where g = user_Username and P = "\<lambda>m. m = n"])
    (simp add: upd_user_def map_h_upd_same assms)

lemma ById_SomeD: "ById s n = Some i \<Longrightarrow> \<exists>u. get_user s i = Some u \<and> user_Id u = n"
  unfolding ById_def by (rule find_index_h_get)

section \<open>Invariant: user names are unique\<close>

definition names_distinct :: "user list \<Rightarrow> bool" where
  "names_distinct us \<longleftrightarrow> distinct (map user_Username us)"

definition user_store_ok :: "user_store \<Rightarrow> bool" where
  "user_store_ok s \<longleftrightarrow>
     names_distinct (us_Users s) \<and> (\<forall>us. us_file s = Json us \<longrightarrow> names_distinct us)"

lemma user_store_ok_upd [wf_intros]:
  assumes "user_store_ok s" "\<And>u. user_Username (f u) = user_Username u"
  shows "user_store_ok (upd_user i f s)"
  using assms by (simp add: user_store_ok_def names_distinct_def upd_user_def map_h_upd_same)

lemma user_store_ok_save [wf_intros]: "user_store_ok s \<Longrightarrow> user_store_ok (users_save e s)"
  by (auto simp: user_store_ok_def users_save_def dest: write_file_cases)

lemma user_store_ok_Remove [wf_intros]: "user_store_ok s \<Longrightarrow> user_store_ok (RemoveByName n s)"
  by (simp add: user_store_ok_def RemoveByName_def names_distinct_def distinct_map_filter)

lemma names_distinct_snoc:
  "names_distinct (us @ [u]) \<longleftrightarrow> names_distinct us \<and> (\<forall>v \<in> set us. user_Username v \<noteq> user_Username u)"
  by (auto simp: names_distinct_def image_iff)

lemma roles_loop_frame:
  "user_Username (foldl (\<lambda>u role. u\<lparr>user_Roles := gm_set role True (user_Roles u)\<rparr>) u roles) = user_Username u"
  "user_AuthType (foldl (\<lambda>u role. u\<lparr>user_Roles := gm_set role True (user_Roles u)\<rparr>) u roles) = user_AuthType u"
  "user_Enabled (foldl (\<lambda>u role. u\<lparr>user_Roles := gm_set role True (user_Roles u)\<rparr>) u roles) = user_Enabled u"
  "user_TotpSecret (foldl (\<lambda>u role. u\<lparr>user_Roles := gm_set role True (user_Roles u)\<rparr>) u roles) = user_TotpSecret u"
  by (induction roles arbitrary: u) auto

lemma roles_loop_HasRole:
  "HasRole (foldl (\<lambda>u role. u\<lparr>user_Roles := gm_set role True (user_Roles u)\<rparr>) u roles) r \<longleftrightarrow>
     r \<in> set roles \<or> HasRole u r"
  by (induction roles arbitrary: u) (auto simp: HasRole_def)

lemma migrate_user_Username [simp]: "user_Username (migrate_user u) = user_Username u"
  by (simp add: migrate_user_def Let_def)

lemma user_store_ok_load [wf_intros]: "user_store_ok s \<Longrightarrow> user_store_ok (users_load s)"
  by (auto simp: user_store_ok_def users_load_def MigrateUsers_def names_distinct_def comp_def
      split: stored.splits)

lemma created_user_fields:
  "user_Username (created_user e n m roles) = TrimSpace n"
  "user_AuthType (created_user e n m roles) = 0"
  "user_Enabled (created_user e n m roles)"
  "user_TotpSecret (created_user e n m roles) = []"
  "HasRole (created_user e n m roles) r \<longleftrightarrow> r \<in> set roles"
  by (simp_all add: created_user_def Let_def roles_loop_frame roles_loop_HasRole newUser_def)
    (simp add: HasRole_def)

lemma HasRole_frame [simp]:
  "HasRole (u\<lparr>user_PasswordHash := p\<rparr>) = HasRole u" "HasRole (u\<lparr>user_AuthType := a\<rparr>) = HasRole u"
  by (simp_all add: HasRole_def fun_eq_iff)

text \<open>The two ways \<open>CreateUser\<close> can return.\<close>

lemma CreateUser_cases:
  assumes "CreateUser x e username password email roles s = Some (res, s')"
  obtains
    (taken) "\<not> res" "s' = s" "TrimSpace username \<in> user_Username ` set (us_Users s)"
  | (created) u h where "res" "s' = s\<lparr>us_Users := us_Users s @ [u]\<rparr>"
      "TrimSpace username \<notin> user_Username ` set (us_Users s)"
      "user_Username u = TrimSpace username" "user_Enabled u" "user_TotpSecret u = []"
      "\<forall>r. HasRole u r \<longleftrightarrow> r \<in> set roles"
      "bcrypt_generate x (env_salt e) password = Some h" "user_PasswordHash u = b64_encode h"
      "user_AuthType u = (if password = [] then 0 else AUTH_TYPE_LOCAL)"
proof (cases "TrimSpace username \<in> user_Username ` set (us_Users s)")
  case True
  then have "\<exists>usr \<in> set (us_Users s). user_Username usr = TrimSpace username" by force
  with assms taken True show ?thesis by (simp add: CreateUser_def created_user_fields)
next
  case False
  then have no: "\<forall>usr \<in> set (us_Users s). user_Username usr \<noteq> TrimSpace username" by force
  from assms no obtain h where h: "bcrypt_generate x (env_salt e) password = Some h"
    by (auto simp: CreateUser_def created_user_fields HashPassword_def split: option.splits)
  let ?v = "(created_user e username email roles)\<lparr>user_PasswordHash := b64_encode h\<rparr>"
  let ?u = "if password = [] then ?v else ?v\<lparr>user_AuthType := user_AuthType ?v OR AUTH_TYPE_LOCAL\<rparr>"
  from assms no h have "res" "s' = s\<lparr>us_Users := us_Users s @ [?u]\<rparr>"
    by (auto simp: CreateUser_def created_user_fields HashPassword_def Let_def)
  then show ?thesis
    using False h by (intro created [of ?u h]) (simp_all add: created_user_fields)
qed

lemma user_store_ok_Create:
  assumes "user_store_ok s" "CreateUser x e username password email roles s = Some (res, s')"
  shows "user_store_ok s'"
  using assms(2)
proof (cases rule: CreateUser_cases)
  case (created u h)
  then have "names_distinct (us_Users s @ [u])"
    using assms(1) by (force simp: names_distinct_snoc user_store_ok_def)
  with created assms(1) show ?thesis by (simp add: user_store_ok_def)
qed (use assms in simp)

lemma user_store_ok_AddUser [wf_intros]:
  assumes "user_store_ok s"
  shows "user_store_ok (snd (AddUser e login email a s))"
  using assms by (auto simp: AddUser_def Let_def user_store_ok_def names_distinct_snoc)

lemma prepareDefaultUser_ok:
  assumes "user_store_ok s" "prepareDefaultUser x e s = Some s'"
  shows "user_store_ok s'"
proof (cases "us_Users s = []")
  case False
  with assms show ?thesis by (simp add: prepareDefaultUser_def)
next
  case True
  with assms(2) obtain r t i where c: "CreateUser x e ''admin''
      (secureRandomString_ignoring 32 (env_rand e 0)) [] [] s = Some (r, t)" "ByName t ''admin'' = Some i"
    and s': "s' = users_load (users_save e (upd_user i (AddRole ''approver'')
      (upd_user i (AddRole ''requester'') (upd_user i (AddRole ''admin'') t))))"
    by (auto simp: prepareDefaultUser_def Let_def split: option.splits)
  have "user_Username (AddRole q u) = user_Username u" for q u by (simp add: AddRole_def)
  then show ?thesis
    unfolding s'
    by (intro user_store_ok_load user_store_ok_save user_store_ok_upd
        user_store_ok_Create [OF assms(1) c(1)])
qed

text \<open>A first start with a writable home directory ends with one user, who has the three roles.\<close>

lemma newUserStore_admin:
  assumes "newUserStore x e NoFile = Some s" "env_write e = WriteOk" "bs = env_rand e 0" "bs \<noteq> None"
    "the bs \<noteq> []"
  shows "\<exists>u. us_Users s = [u] \<and> user_Username u = ''admin'' \<and> user_Enabled u \<and>
    {r. HasRole u r} = {''admin'', ''requester'', ''approver''} \<and>
    user_AuthType u = AUTH_TYPE_LOCAL \<and> us_file s = Json (us_Users s) \<and> user_TotpSecret u = [] \<and>
    (\<exists>h. bcrypt_generate x (env_salt e) (secureRandomString_ignoring 32 bs) = Some h \<and>
       user_PasswordHash u = b64_encode h)"
proof -
  let ?pwd = "secureRandomString_ignoring 32 (env_rand e 0)"
  let ?s0 = "\<lparr>us_Users = [], us_file = NoFile\<rparr>"
  have trim: "TrimSpace ''admin'' = ''admin''" by code_simp
  have pwd: "?pwd \<noteq> []"
    using assms(3-5) by (auto simp: secureRandomString_ignoring_def secureRandomString_def)
  from assms(1) obtain r t i where c: "CreateUser x e ''admin'' ?pwd [] [] ?s0 = Some (r, t)"
      "ByName t ''admin'' = Some i"
    and s: "s = users_load (users_save e (upd_user i (AddRole ''approver'')
      (upd_user i (AddRole ''requester'') (upd_user i (AddRole ''admin'') t))))"
    by (auto simp: newUserStore_def users_load_def prepareDefaultUser_def Let_def split: option.splits)
  from c(1) obtain u h where u: "us_Users t = [u]" "user_Username u = ''admin''" "user_Enabled u"
      "\<forall>r. \<not> HasRole u r" "user_AuthType u = AUTH_TYPE_LOCAL" "user_TotpSecret u = []"
      "bcrypt_generate x (env_salt e) ?pwd = Some h" "user_PasswordHash u = b64_encode h"
    by (cases rule: CreateUser_cases) (auto simp: trim pwd)
  have i: "i = 0" using c(2) u by (simp add: ByName_def split: if_splits)
  let ?v = "AddRole ''approver'' (AddRole ''requester'' (AddRole ''admin'' u))"
  have "migrate_user ?v = ?v"
    using u(5) by (simp add: migrate_user_def IsAuthDefined_def AddRole_def auth_type_bits)
  then have "us_Users s = [?v]" "us_file s = Json [?v]"
    using u(1) assms(2)
    by (simp_all add: s i users_load_def users_save_def upd_user_def h_upd_def MigrateUsers_def)
  moreover have "user_Username ?v = ''admin''" "user_Enabled ?v" "user_AuthType ?v = AUTH_TYPE_LOCAL"
    "user_TotpSecret ?v = []" "user_PasswordHash ?v = b64_encode h"
    using u by (simp_all add: AddRole_def)
  ultimately show ?thesis using u(4,7) assms(3) by auto
qed

end
