(* ===== verification/Authentication.thy ===== *)
theory Authentication
  imports Users
begin

text \<open>
  user_auth.go: the service that logs a user in through first-factor authenticators and a
  second factor; and the session check of server.go (\<open>getUser\<close>, \<open>authUser\<close>).
\<close>

section \<open>Requests and authenticators\<close>

record auth_request =
  ar_login :: string
  ar_credential :: string
  ar_token :: string

definition AuthRequest_Validate :: "auth_request \<Rightarrow> string option" where
  "AuthRequest_Validate ar =
     (if length (ar_login ar) < 1 \<or> length (ar_credential ar) < 1
      then Some ''Empty login or credential'' else None)"

text \<open>
  The interface \<open>Authenticator\<close>: from the user (a pointer, \<open>None\<close> for nil) and the request to a
  user and an error (\<open>None\<close> for nil). An authenticator may write to the user store.
\<close>

type_synonym auth_result = "nat option \<times> string option"
type_synonym authenticator = "nat option \<Rightarrow> auth_request \<Rightarrow> user_store \<Rightarrow> auth_result \<times> user_store"

definition LocalAuthenticator :: "ext \<Rightarrow> authenticator" where
  "LocalAuthenticator x user ar s =
     (case user of
        None \<Rightarrow> ((None, Some ''Cannot authenticate for unknown user.''), s)
      | Some i \<Rightarrow>
          (case get_user s i of
             None \<Rightarrow> ((None, Some ''Cannot authenticate for unknown user.''), s)
           | Some u \<Rightarrow>
               let bytes = (case b64_decode (user_PasswordHash u) of None \<Rightarrow> [] | Some b \<Rightarrow> b)
               in if \<not> bcrypt_compare x bytes (ar_credential ar)
                  then ((None, Some ''Password and hash doesn't match''), s)
                  else ((Some i, None), s)))"

definition GAuthAuthenticator :: "ext \<Rightarrow> time \<Rightarrow> authenticator" where
  "GAuthAuthenticator x now user ar s =
     (case user of
        None \<Rightarrow> ((None, Some ''User not found''), s)
      | Some i \<Rightarrow>
          (case get_user s i of
             None \<Rightarrow> ((None, Some ''User not found''), s)
           | Some u \<Rightarrow>
               (case ValidateTotp x now u (ar_token ar) of
                  (True, err) \<Rightarrow> ((Some i, None), s)
                | (False, err) \<Rightarrow>
                    ((None, Some (case err of None \<Rightarrow> ''Invalid token/Unknown error'' | Some e \<Rightarrow> e)), s))))"

section \<open>The authentication service\<close>

record auth_service =
  as_secondFactorAuth :: "authenticator option"
  as_firstFactorAuth :: "authenticator list"

definition newAuthService :: "authenticator list \<Rightarrow> authenticator option \<Rightarrow> auth_service" where
  "newAuthService ffAuth sfAuth = \<lparr>as_secondFactorAuth = sfAuth, as_firstFactorAuth = ffAuth\<rparr>"

definition appendFirstFactor :: "authenticator \<Rightarrow> auth_service \<Rightarrow> auth_service" where
  "appendFirstFactor a as = as\<lparr>as_firstFactorAuth := as_firstFactorAuth as @ [a]\<rparr>"

text \<open>The service of a server without LDAP (\<open>createAuthService\<close>), or with the given authenticator.\<close>

definition createAuthService :: "ext \<Rightarrow> time \<Rightarrow> authenticator option \<Rightarrow> auth_service" where
  "createAuthService x now ldap =
     (let as = newAuthService [LocalAuthenticator x] (Some (GAuthAuthenticator x now))
      in case ldap of None \<Rightarrow> as | Some a \<Rightarrow> appendFirstFactor a as)"

definition getValidUser :: "auth_request \<Rightarrow> user_store \<Rightarrow> auth_result" where
  "getValidUser ar s =
     (case ByName s (ar_login ar) of
        None \<Rightarrow> (None, None)
      | Some i \<Rightarrow>
          (case get_user s i of
             None \<Rightarrow> (None, None)
           | Some u \<Rightarrow>
               if \<not> user_Enabled u then (None, Some ''User not enabled'')
               else if \<not> IsAuthDefined u then (None, Some ''User doesn't have auth type configured'')
               else (Some i, None)))"

text \<open>The loop: the first authenticator without an error decides.\<close>

fun first_factor_loop ::
  "authenticator list \<Rightarrow> string \<Rightarrow> nat option \<Rightarrow> auth_request \<Rightarrow> user_store \<Rightarrow> auth_result \<times> user_store"
where
  "first_factor_loop [] err user ar s = ((user, Some err), s)"
| "first_factor_loop (v # vs) err user ar s =
     (case v user ar s of
        ((authenticatedUser, None), s) \<Rightarrow> ((authenticatedUser, None), s)
      | ((authenticatedUser, Some e), s) \<Rightarrow> first_factor_loop vs e user ar s)"

definition performFirstFactorAuth ::
  "auth_service \<Rightarrow> nat option \<Rightarrow> auth_request \<Rightarrow> user_store \<Rightarrow> auth_result \<times> user_store"
where
  "performFirstFactorAuth as user ar s =
     first_factor_loop (as_firstFactorAuth as)
       ''Misconfigured Auth Service, there are no First Factor Authenticators defined'' user ar s"

definition service_authUser :: "auth_service \<Rightarrow> auth_request \<Rightarrow> user_store \<Rightarrow> auth_result \<times> user_store" where
  "service_authUser as ar s =
     (case AuthRequest_Validate ar of
        Some err \<Rightarrow> ((None, Some err), s)
      | None \<Rightarrow>
          (case getValidUser ar s of
             (user, Some err) \<Rightarrow> ((user, Some err), s)
           | (user, None) \<Rightarrow>
               (case performFirstFactorAuth as user ar s of
                  ((user, err), s) \<Rightarrow>
                    (case (user, err) of
                       (Some i, None) \<Rightarrow>
                         (case (as_secondFactorAuth as, get_user s i) of
                            (Some second, Some u) \<Rightarrow>
                              if HasTwoFactor u then second (Some i) ar s else ((Some i, None), s)
                          | _ \<Rightarrow> ((Some i, None), s))
                     | _ \<Rightarrow> ((None, Some (''User not authenticated, last authenticator error: ''
                              @ (case err of None \<Rightarrow> ''%!s(<nil>)'' | Some e \<Rightarrow> e))), s)))))"

section \<open>Sessions\<close>

text \<open>
  The body of a report of log lines: it cannot be read, is not JSON of the expected shape, or
  decodes to a pointer (nil for the JSON value null) to the two lists.
\<close>

record log_struct =
  ls_Output :: "string list"
  ls_Error :: "string list"

datatype log_body = Unreadable | Unparsable | Decoded "log_struct option"

record http_request =
  rq_Url :: string
  rq_XAuth :: string
  rq_XAuthUser :: string
  rq_XAuthSession :: string
  rq_RemoteAddr :: string
  rq_PostForm :: "(string \<times> string) list"
  rq_Query :: "(string \<times> string) list"
  rq_Params :: "(string \<times> string) list"
  rq_Body :: log_body

text \<open>\<open>PostFormValue\<close>, \<open>Query().Get\<close> and \<open>ByName\<close>: the first value of a key, or the empty string.\<close>

definition value_of :: "(string \<times> string) list \<Rightarrow> string \<Rightarrow> string" where
  "value_of m k = (case map_of m k of None \<Rightarrow> [] | Some v \<Rightarrow> v)"

abbreviation PostFormValue :: "http_request \<Rightarrow> string \<Rightarrow> string" where
  "PostFormValue r k \<equiv> value_of (rq_PostForm r) k"

abbreviation QueryGet :: "http_request \<Rightarrow> string \<Rightarrow> string" where
  "QueryGet r k \<equiv> value_of (rq_Query r) k"

abbreviation ParamByName :: "http_request \<Rightarrow> string \<Rightarrow> string" where
  "ParamByName r k \<equiv> value_of (rq_Params r) k"

definition session_timeout :: int where
  "session_timeout = 30 * 60 * nanosecond_per_second"

definition getUser :: "http_request \<Rightarrow> time \<Rightarrow> user_store \<Rightarrow> nat option" where
  "getUser r now s =
     (case ByName s (rq_XAuthUser r) of
        None \<Rightarrow> None
      | Some i \<Rightarrow>
          (case get_user s i of
             None \<Rightarrow> None
           | Some user \<Rightarrow>
               if length (user_SessionToken user) < 1 then None
               else if user_Enabled user = False then None
               else if now - user_SessionLastTimestamp user > session_timeout then None
               else if rq_XAuthSession r \<noteq> user_SessionToken user then None
               else Some i))"

abbreviation getIp :: "http_request \<Rightarrow> string" where
  "getIp r \<equiv> rq_RemoteAddr r"

definition authUser :: "http_request \<Rightarrow> time \<Rightarrow> user_store \<Rightarrow> bool \<times> user_store" where
  "authUser r now s =
     (case getUser r now s of
        None \<Rightarrow> (False, s)
      | Some i \<Rightarrow> (True, upd_user i (TouchSession now (getIp r)) s))"

section \<open>The contract of an authenticator\<close>

text \<open>
  What the service relies on, for an authenticator that decides on users that exist: success
  is for the user asked about and needs valid credentials, an error yields no user, and the
  store is left alone.
\<close>

locale checking_authenticator =
  fixes auth :: authenticator
    and credential_ok :: "user \<Rightarrow> auth_request \<Rightarrow> bool"
  assumes auth_keeps: "auth user ar s = (res, s') \<Longrightarrow> s' = s"
    and auth_success: "auth user ar s = ((v, None), s') \<Longrightarrow>
      \<exists>i u. user = Some i \<and> v = Some i \<and> get_user s i = Some u \<and> credential_ok u ar"
    and auth_complete: "get_user s i = Some u \<Longrightarrow> credential_ok u ar \<Longrightarrow>
      auth (Some i) ar s = ((Some i, None), s)"
begin

text \<open>A service whose only first factor is this authenticator.\<close>

lemma loop_success:
  assumes "first_factor_loop [auth] err user ar s = ((v, None), s')"
  shows "\<exists>i u. user = Some i \<and> v = Some i \<and> s' = s \<and> get_user s i = Some u \<and> credential_ok u ar"
proof -
  from assms have "auth user ar s = ((v, None), s')"
    by (auto split: prod.splits option.splits)
  then show ?thesis using auth_success auth_keeps by blast
qed

lemma loop_complete:
  "get_user s i = Some u \<Longrightarrow> credential_ok u ar \<Longrightarrow>
   first_factor_loop (auth # rest) err (Some i) ar s = ((Some i, None), s)"
  by (simp add: auth_complete)

lemma loop_keeps: "first_factor_loop [auth] err user ar s = (res, s') \<Longrightarrow> s' = s"
  by (auto split: prod.splits option.splits dest: auth_keeps)

end

definition password_ok :: "ext \<Rightarrow> user \<Rightarrow> auth_request \<Rightarrow> bool" where
  "password_ok x u ar \<longleftrightarrow>
     bcrypt_compare x (case b64_decode (user_PasswordHash u) of None \<Rightarrow> [] | Some b \<Rightarrow> b) (ar_credential ar)"

definition token_ok :: "ext \<Rightarrow> time \<Rightarrow> user \<Rightarrow> auth_request \<Rightarrow> bool" where
  "token_ok x now u ar \<longleftrightarrow> fst (ValidateTotp x now u (ar_token ar))"

interpretation local: checking_authenticator "LocalAuthenticator x" "password_ok x" for x
  by unfold_locales
    (auto simp: LocalAuthenticator_def password_ok_def Let_def split: option.splits if_splits)

interpretation gauth: checking_authenticator "GAuthAuthenticator x now" "token_ok x now" for x now
  by unfold_locales
    (auto simp: GAuthAuthenticator_def token_ok_def split: option.splits prod.splits bool.splits)

lemma getValidUser_SomeD:
  assumes "getValidUser ar s = (Some i, None)"
  shows "\<exists>u. ByName s (ar_login ar) = Some i \<and> get_user s i = Some u \<and> user_Enabled u \<and> IsAuthDefined u"
  using assms by (auto simp: getValidUser_def split: option.splits if_splits)

section \<open>Sessions\<close>

text \<open>A live session: the token is the current one, the user enabled, the last request recent.\<close>

definition session_valid :: "http_request \<Rightarrow> time \<Rightarrow> user \<Rightarrow> bool" where
  "session_valid r now u \<longleftrightarrow>
     user_SessionToken u \<noteq> [] \<and> user_Enabled u \<and>
     now - user_SessionLastTimestamp u \<le> session_timeout \<and> rq_XAuthSession r = user_SessionToken u"

lemma getUser_Some_iff:
  "getUser r now s = Some i \<longleftrightarrow>
     ByName s (rq_XAuthUser r) = Some i \<and> (\<exists>u. get_user s i = Some u \<and> session_valid r now u)"
proof (cases "ByName s (rq_XAuthUser r)")
  case None
  then show ?thesis by (simp add: getUser_def)
next
  case (Some j)
  then obtain u where u: "get_user s j = Some u" using ByName_SomeD by blast
  have "getUser r now s = (if session_valid r now u then Some j else None)"
    using Some u by (simp add: getUser_def session_valid_def not_less)
  with Some u show ?thesis by auto
qed

lemma authUser_fails_keeps: "authUser r now s = (False, s') \<Longrightarrow> s' = s"
  by (simp add: authUser_def split: option.splits)

lemma session_valid_touched:
  "session_valid r now u \<Longrightarrow> session_valid r now (TouchSession now ip u)"
  by (simp add: session_valid_def session_timeout_def nanosecond_per_second_def)

text \<open>After a successful check the handlers get the same user, only touched.\<close>

lemma authUser_True_iff:
  "authUser r now s = (True, s') \<longleftrightarrow>
     (\<exists>i. getUser r now s = Some i \<and> s' = upd_user i (TouchSession now (rq_RemoteAddr r)) s)"
  by (auto simp: authUser_def split: option.splits)

lemma getUser_touched:
  assumes "getUser r now s = Some i"
  shows "getUser r now (upd_user i (TouchSession now ip) s) = Some i"
  using assms by (auto simp: getUser_Some_iff session_valid_touched)

end
