(* ===== verification/Keyed_Store.thy ===== *)
theory Keyed_Store
  imports Go_Prelude
begin

text \<open>
  The interface that the stores of the server share: objects that carry their own identifier,
  looked up, added and removed by it. The template store and the store of http checks provide
  it; what its clients may conclude from any sequence of operations is proved here once.
\<close>

datatype 'v store_op = StoreAdd 'v | StoreRemove string

locale keyed_store =
  fixes get :: "'s \<Rightarrow> string \<Rightarrow> 'v option"
    and add :: "'v \<Rightarrow> 's \<Rightarrow> 's"
    and remove :: "string \<Rightarrow> 's \<Rightarrow> 's"
    and key :: "'v \<Rightarrow> string"
    and ok :: "'s \<Rightarrow> bool"
  assumes get_add: "ok s \<Longrightarrow> get (add v s) k = (if k = key v then Some v else get s k)"
    and get_remove: "ok s \<Longrightarrow> get (remove i s) k = (if k = i then None else get s k)"
    and ok_add: "ok s \<Longrightarrow> ok (add v s)"
    and ok_remove: "ok s \<Longrightarrow> ok (remove i s)"
    and get_key: "ok s \<Longrightarrow> get s k = Some v \<Longrightarrow> key v = k"
begin

lemma get_added: "ok s \<Longrightarrow> get (add v s) (key v) = Some v"
  by (simp add: get_add)

lemma get_removed: "ok s \<Longrightarrow> get (remove i s) i = None"
  by (simp add: get_remove)

lemma remove_add_other: "ok s \<Longrightarrow> key v \<noteq> i \<Longrightarrow> get (remove i (add v s)) = get (add v (remove i s))"
  by (rule ext) (simp add: get_add get_remove ok_add ok_remove)

lemma remove_add_same: "ok s \<Longrightarrow> get (remove (key v) (add v s)) = get (remove (key v) s)"
  by (rule ext) (simp add: get_add get_remove ok_add ok_remove)

fun run_op :: "'v store_op \<Rightarrow> 's \<Rightarrow> 's" where
  "run_op (StoreAdd v) s = add v s"
| "run_op (StoreRemove i) s = remove i s"

fun op_key :: "'v store_op \<Rightarrow> string" where
  "op_key (StoreAdd v) = key v"
| "op_key (StoreRemove i) = i"

fun op_result :: "'v store_op \<Rightarrow> 'v option" where
  "op_result (StoreAdd v) = Some v"
| "op_result (StoreRemove i) = None"

lemma ok_run_op: "ok s \<Longrightarrow> ok (run_op c s)"
  by (cases c) (simp_all add: ok_add ok_remove)

lemma get_run_op: "ok s \<Longrightarrow> get (run_op c s) k = (if k = op_key c then op_result c else get s k)"
  by (cases c) (simp_all add: get_add get_remove)

lemma ok_run: "ok s \<Longrightarrow> ok (fold run_op cs s)"
  by (induction cs arbitrary: s) (auto simp: ok_run_op)

text \<open>After any sequence of operations a lookup yields what the last one on that key left.\<close>

lemma get_run:
  "ok s \<Longrightarrow> get (fold run_op cs s) k =
     (case find (\<lambda>c. op_key c = k) (rev cs) of None \<Rightarrow> get s k | Some c \<Rightarrow> op_result c)"
proof (induction cs rule: rev_induct)
  case (snoc c cs)
  then show ?case by (simp add: get_run_op ok_run)
qed simp

end

end
