(* ===== verification/Templates.thy ===== *)
theory Templates
  imports Go_External Keyed_Store
begin

text \<open>
  templates.go, execution_validation.go and the strategy values of execution_strategy.go: what
  can be executed, on whose approval, how a batch is rolled out and how its output is judged.
\<close>

section \<open>Execution strategies\<close>

type_synonym strategy_type = int

definition SimpleExecutionStrategy :: strategy_type where "SimpleExecutionStrategy = 0"
definition OneTestExecutionStrategy :: strategy_type where "OneTestExecutionStrategy = 1"
definition RollingExecutionStrategy :: strategy_type where "RollingExecutionStrategy = 2"
definition ExponentialRollingExecutionStrategy :: strategy_type where
  "ExponentialRollingExecutionStrategy = 3"

lemmas strategy_defs = SimpleExecutionStrategy_def OneTestExecutionStrategy_def
  RollingExecutionStrategy_def ExponentialRollingExecutionStrategy_def

record execution_strategy =
  es_Strategy :: strategy_type

definition newExecutionStrategy :: "strategy_type \<Rightarrow> execution_strategy" where
  "newExecutionStrategy strategy = \<lparr>es_Strategy = strategy\<rparr>"

section \<open>Validation rules\<close>

record execution_validation =
  ev_Id :: string
  ev_Fatal :: bool
  ev_MustContain :: bool
  ev_OutputStream :: int
  ev_Text :: string

text \<open>\<open>None\<close> is the nil pointer.\<close>

definition newExecutionValidation ::
  "string \<Rightarrow> string \<Rightarrow> bool \<Rightarrow> bool \<Rightarrow> int \<Rightarrow> execution_validation option"
where
  "newExecutionValidation uid txt fatal mustContain outputStream =
     (if outputStream \<noteq> 1 \<and> outputStream \<noteq> 2 then None
      else if length txt < 1 then None
      else Some \<lparr>ev_Id = uid, ev_Fatal = True, ev_MustContain = True, ev_OutputStream = 1,
                 ev_Text = txt\<rparr>)"

section \<open>Templates\<close>

record template_acl =
  acl_MinAuth :: "64 word"
  acl_IncludedTags :: "string list"
  acl_ExcludedTags :: "string list"

record template =
  tmpl_Id :: string
  tmpl_Title :: string
  tmpl_Description :: string
  tmpl_Command :: string
  tmpl_Enabled :: bool
  tmpl_Timeout :: int
  tmpl_Acl :: template_acl
  tmpl_ExecutionStrategy :: "execution_strategy option"
  tmpl_ValidationRules :: "execution_validation list"

definition AddValidationRule :: "execution_validation \<Rightarrow> template \<Rightarrow> template" where
  "AddValidationRule r t = t\<lparr>tmpl_ValidationRules := tmpl_ValidationRules t @ [r]\<rparr>"

definition DeleteValidationRule :: "string \<Rightarrow> template \<Rightarrow> template" where
  "DeleteValidationRule rid t =
     t\<lparr>tmpl_ValidationRules := filter (\<lambda>r. ev_Id r \<noteq> rid) (tmpl_ValidationRules t)\<rparr>"

definition GetExecutionStrategy :: "template \<Rightarrow> execution_strategy option" where
  "GetExecutionStrategy t =
     (case tmpl_ExecutionStrategy t of
        None \<Rightarrow> Some (newExecutionStrategy SimpleExecutionStrategy)
      | Some es \<Rightarrow> Some es)"

definition newTemplateAcl :: template_acl where
  "newTemplateAcl = \<lparr>acl_MinAuth = 0, acl_IncludedTags = [], acl_ExcludedTags = []\<rparr>"

definition newTemplate ::
  "string \<Rightarrow> string \<Rightarrow> string \<Rightarrow> string \<Rightarrow> bool \<Rightarrow> string list \<Rightarrow> string list \<Rightarrow> 64 word \<Rightarrow> int \<Rightarrow>
   execution_strategy option \<Rightarrow> template"
where
  "newTemplate uid title description command enabled includedTags excludedTags minAuth timeout executionStrategy =
     (let acl = newTemplateAcl\<lparr>acl_IncludedTags := includedTags, acl_ExcludedTags := excludedTags,
                               acl_MinAuth := minAuth\<rparr>;
          acl = (if acl_IncludedTags acl = [[]] then acl\<lparr>acl_IncludedTags := []\<rparr> else acl);
          acl = (if acl_ExcludedTags acl = [[]] then acl\<lparr>acl_ExcludedTags := []\<rparr> else acl)
      in \<lparr>tmpl_Id = uid, tmpl_Title = title, tmpl_Description = description,
          tmpl_Command = command, tmpl_Enabled = enabled, tmpl_Timeout = timeout, tmpl_Acl = acl,
          tmpl_ExecutionStrategy = executionStrategy, tmpl_ValidationRules = []\<rparr>)"

section \<open>Template store\<close>

record template_store =
  ts_Templates :: "(string, template) gomap"
  ts_file :: "(string, template) gomap stored"

definition TemplateStore_Get :: "template_store \<Rightarrow> string \<Rightarrow> template option" where
  "TemplateStore_Get s templateId = gm_get (ts_Templates s) templateId"

definition TemplateStore_Add :: "template \<Rightarrow> template_store \<Rightarrow> template_store" where
  "TemplateStore_Add t s = s\<lparr>ts_Templates := gm_set (tmpl_Id t) t (ts_Templates s)\<rparr>"

definition TemplateStore_Remove :: "string \<Rightarrow> template_store \<Rightarrow> template_store" where
  "TemplateStore_Remove templateId s = s\<lparr>ts_Templates := gm_del templateId (ts_Templates s)\<rparr>"

definition templates_save :: "env \<Rightarrow> template_store \<Rightarrow> bool \<times> template_store" where
  "templates_save e s =
     (env_write e = WriteOk,
      s\<lparr>ts_file := write_file (env_write e) (ts_Templates s) (ts_file s)\<rparr>)"

definition templates_load :: "template_store \<Rightarrow> template_store" where
  "templates_load s =
     (case ts_file s of Json v \<Rightarrow> s\<lparr>ts_Templates := v\<rparr> | _ \<Rightarrow> s)"

definition newTemplateStore :: "(string, template) gomap stored \<Rightarrow> template_store" where
  "newTemplateStore f = templates_load \<lparr>ts_Templates = [], ts_file = f\<rparr>"

text \<open>Writing through the pointer that \<open>Get\<close> returned.\<close>

definition upd_template :: "string \<Rightarrow> (template \<Rightarrow> template) \<Rightarrow> template_store \<Rightarrow> template_store" where
  "upd_template tid f s =
     (case gm_get (ts_Templates s) tid of
        None \<Rightarrow> s
      | Some t \<Rightarrow> s\<lparr>ts_Templates := gm_set tid (f t) (ts_Templates s)\<rparr>)"

text \<open>\<open>IsValid\<close>: \<open>None\<close> when the template is accepted, the error text otherwise.\<close>

definition Template_IsValid :: "template_store \<Rightarrow> template \<Rightarrow> string option" where
  "Template_IsValid store s =
     (if length (tmpl_Title s) < 1 then Some ''Fill in a title''
      else if \<exists>(_, template) \<in> set (ts_Templates store). tmpl_Title template = tmpl_Title s
      then Some ''Title is not unique''
      else if length (tmpl_Description s) < 1 then Some ''Fill in a description''
      else if length (tmpl_Command s) < 1 then Some ''Fill in a command''
      else None)"

section \<open>Invariant and interface\<close>

text \<open>Every template is filed under its own identifier, and titles are unique.\<close>

definition template_store_ok :: "template_store \<Rightarrow> bool" where
  "template_store_ok s \<longleftrightarrow>
     gm_ok (ts_Templates s) \<and> (\<forall>(k, t) \<in> set (ts_Templates s). tmpl_Id t = k)"

definition titles_unique :: "template_store \<Rightarrow> bool" where
  "titles_unique s \<longleftrightarrow>
     (\<forall>k k' t t'. gm_get (ts_Templates s) k = Some t \<longrightarrow> gm_get (ts_Templates s) k' = Some t' \<longrightarrow>
        tmpl_Title t = tmpl_Title t' \<longrightarrow> k = k')"

lemma template_store_ok_empty [simp]: "template_store_ok \<lparr>ts_Templates = [], ts_file = f\<rparr>"
  by (simp add: template_store_ok_def)

lemma template_store_ok_Add [wf_intros]:
  "template_store_ok s \<Longrightarrow> template_store_ok (TemplateStore_Add t s)"
  using set_gm_set [of "tmpl_Id t" t "ts_Templates s"]
  by (fastforce simp: template_store_ok_def TemplateStore_Add_def)

lemma template_store_ok_Remove [wf_intros]:
  "template_store_ok s \<Longrightarrow> template_store_ok (TemplateStore_Remove i s)"
  by (auto simp: template_store_ok_def TemplateStore_Remove_def set_gm_del)

lemma template_store_ok_upd [wf_intros]:
  assumes "template_store_ok s" "\<And>t. tmpl_Id (f t) = tmpl_Id t"
  shows "template_store_ok (upd_template tid f s)"
proof (cases "gm_get (ts_Templates s) tid")
  case (Some t)
  then have "tmpl_Id t = tid" using assms(1) gm_get_in by (fastforce simp: template_store_ok_def)
  then show ?thesis
    using assms Some set_gm_set [of tid "f t" "ts_Templates s"]
    by (fastforce simp: template_store_ok_def upd_template_def)
qed (use assms in \<open>simp add: upd_template_def\<close>)

lemma template_store_ok_save [wf_intros, simp]:
  "template_store_ok (snd (templates_save e s)) = template_store_ok s"
  by (simp add: template_store_ok_def templates_save_def)

interpretation templates: keyed_store TemplateStore_Get TemplateStore_Add TemplateStore_Remove
  tmpl_Id template_store_ok
proof unfold_locales
  fix s k v assume "template_store_ok s" "TemplateStore_Get s k = Some v"
  then show "tmpl_Id v = k"
    by (auto simp: template_store_ok_def TemplateStore_Get_def dest: gm_get_in)
qed (simp_all add: wf_intros TemplateStore_Get_def TemplateStore_Add_def TemplateStore_Remove_def
      template_store_ok_Add [unfolded TemplateStore_Add_def]
      template_store_ok_Remove [unfolded TemplateStore_Remove_def])

section \<open>What the operations guarantee\<close>

lemma IsValid_None_iff:
  "Template_IsValid s t = None \<longleftrightarrow>
     tmpl_Title t \<noteq> [] \<and> tmpl_Description t \<noteq> [] \<and> tmpl_Command t \<noteq> [] \<and>
     (\<forall>(k, t') \<in> set (ts_Templates s). tmpl_Title t' \<noteq> tmpl_Title t)"
  by (auto simp: Template_IsValid_def)

lemma titles_unique_Add:
  assumes "titles_unique s" "Template_IsValid s t = None"
  shows "titles_unique (TemplateStore_Add t s)"
proof -
  have new: "tmpl_Title t' \<noteq> tmpl_Title t" if "gm_get (ts_Templates s) k = Some t'" for k t'
    using assms(2) gm_get_in [OF that] by (auto simp: IsValid_None_iff)
  show ?thesis
    using assms(1) new unfolding titles_unique_def TemplateStore_Add_def
    by (auto split: if_splits dest: new)
qed

lemma titles_unique_Remove: "titles_unique s \<Longrightarrow> titles_unique (TemplateStore_Remove i s)"
  unfolding titles_unique_def TemplateStore_Remove_def by (auto split: if_splits)

lemma titles_unique_upd:
  assumes "titles_unique s" "\<And>t. tmpl_Title (f t) = tmpl_Title t"
  shows "titles_unique (upd_template tid f s)"
  using assms unfolding titles_unique_def upd_template_def
  by (auto split: option.splits if_splits)

lemma templates_roundtrip:
  assumes "env_write e = WriteOk"
  shows "ts_Templates (newTemplateStore (ts_file (snd (templates_save e s)))) = ts_Templates s"
  using assms by (simp add: newTemplateStore_def templates_load_def templates_save_def)

lemma newExecutionValidation_Some:
  "newExecutionValidation uid txt fatal must stream = Some r \<longleftrightarrow>
     (stream = 1 \<or> stream = 2) \<and> txt \<noteq> [] \<and>
     r = \<lparr>ev_Id = uid, ev_Fatal = True, ev_MustContain = True, ev_OutputStream = 1, ev_Text = txt\<rparr>"
  by (auto simp: newExecutionValidation_def)

lemma DeleteValidationRule_gone:
  "r \<in> set (tmpl_ValidationRules (DeleteValidationRule rid t)) \<longleftrightarrow>
     r \<in> set (tmpl_ValidationRules t) \<and> ev_Id r \<noteq> rid"
  by (auto simp: DeleteValidationRule_def)

lemma GetExecutionStrategy_Some: "\<exists>es. GetExecutionStrategy t = Some es"
  by (simp add: GetExecutionStrategy_def split: option.splits)

lemma validation_rule_frame [simp, go_simps]:
  "tmpl_Id (AddValidationRule r t) = tmpl_Id t" "tmpl_Title (AddValidationRule r t) = tmpl_Title t"
  "tmpl_Acl (AddValidationRule r t) = tmpl_Acl t"
  "tmpl_Id (DeleteValidationRule i t) = tmpl_Id t" "tmpl_Title (DeleteValidationRule i t) = tmpl_Title t"
  "tmpl_Acl (DeleteValidationRule i t) = tmpl_Acl t"
  by (simp_all add: AddValidationRule_def DeleteValidationRule_def)

end
