(* ===== verification/Commands.thy ===== *)
theory Commands
  imports Templates
begin

text \<open>
  cmd.go, the part that is about one command: its record, creation, signature, the client's
  buffers, and the judgement of its output by the validation rules of its template.
\<close>

record cmd =
  cmd_Command :: string
  cmd_Pending :: bool
  cmd_Id :: string
  cmd_ClientId :: string
  cmd_TemplateId :: string
  cmd_ConsensusRequestId :: string
  cmd_Signature :: string
  cmd_Timeout :: int
  cmd_State :: string
  cmd_RequestUserId :: string
  cmd_Created :: int
  cmd_ExecutionIterationId :: nat
  cmd_BufOutput :: "string list"
  cmd_BufOutputErr :: "string list"

definition DEFAULT_COMMAND_TIMEOUT :: int where "DEFAULT_COMMAND_TIMEOUT = 300"

definition newCmd :: "string \<Rightarrow> time \<Rightarrow> string \<Rightarrow> int \<Rightarrow> cmd" where
  "newCmd uid now command timeout =
     \<lparr>cmd_Command = command, cmd_Pending = True, cmd_Id = uid, cmd_ClientId = [],
      cmd_TemplateId = [], cmd_ConsensusRequestId = [], cmd_Signature = [],
      cmd_Timeout = (if timeout < 1 then DEFAULT_COMMAND_TIMEOUT else timeout),
      cmd_State = ''pending'', cmd_RequestUserId = [], cmd_Created = unix now,
      cmd_ExecutionIterationId = 0, cmd_BufOutput = [], cmd_BufOutputErr = []\<rparr>"

section \<open>Signature\<close>

definition ComputeHmac :: "cmd \<Rightarrow> string \<Rightarrow> string" where
  "ComputeHmac c token =
     (case b64_decode token of
        None \<Rightarrow> []
      | Some bytes \<Rightarrow> b64_encode (hmac_sha256 bytes (cmd_Command c @ cmd_Id c)))"

definition Sign :: "string \<Rightarrow> cmd \<Rightarrow> cmd" where
  "Sign authToken c = c\<lparr>cmd_Signature := ComputeHmac c authToken\<rparr>"

text \<open>The check in \<open>Execute\<close> on the client: the command runs only if it passes.\<close>

definition signature_valid :: "string \<Rightarrow> cmd \<Rightarrow> bool" where
  "signature_valid authToken c \<longleftrightarrow>
     \<not> (ComputeHmac c authToken \<noteq> cmd_Signature c \<or> length (cmd_Signature c) < 1)"

section \<open>Validation of the output\<close>

definition rule_stream :: "execution_validation \<Rightarrow> cmd \<Rightarrow> string list" where
  "rule_stream v c = (if ev_OutputStream v = 1 then cmd_BufOutput c else cmd_BufOutputErr c)"

fun line_matches :: "string list \<Rightarrow> string \<Rightarrow> bool" where
  "line_matches [] txt = False"
| "line_matches (line # stream) txt = (if Contains line txt then True else line_matches stream txt)"

text \<open>The loop over the rules: true when it stopped at a rule the output fails.\<close>

fun failed_validation :: "execution_validation list \<Rightarrow> cmd \<Rightarrow> bool" where
  "failed_validation [] c = False"
| "failed_validation (v # vs) c =
     (let matched = line_matches (rule_stream v c) (ev_Text v)
      in if ev_MustContain v = True \<and> matched = False then True
         else if ev_MustContain v = False \<and> matched = True then True
         else failed_validation vs c)"

text \<open>What the rules ask for, without the loops.\<close>

definition rule_satisfied :: "cmd \<Rightarrow> execution_validation \<Rightarrow> bool" where
  "rule_satisfied c v \<longleftrightarrow>
     (ev_MustContain v \<longleftrightarrow> (\<exists>line \<in> set (rule_stream v c). \<exists>p q. line = p @ ev_Text v @ q))"

lemma line_matches_iff: "line_matches stream txt \<longleftrightarrow> (\<exists>line \<in> set stream. \<exists>p q. line = p @ txt @ q)"
  by (induction stream) (auto simp: Contains_iff)

lemma failed_validation_iff: "failed_validation vs c \<longleftrightarrow> (\<exists>v \<in> set vs. \<not> rule_satisfied c v)"
  by (induction vs) (auto simp: Let_def rule_satisfied_def line_matches_iff [symmetric])

lemma ComputeHmac_cong:
  "cmd_Command c = cmd_Command d \<Longrightarrow> cmd_Id c = cmd_Id d \<Longrightarrow> ComputeHmac c t = ComputeHmac d t"
  by (simp add: ComputeHmac_def split: option.split)

lemma Sign_simps [simp, go_simps]:
  "cmd_Command (Sign t c) = cmd_Command c" "cmd_Id (Sign t c) = cmd_Id c"
  "cmd_Pending (Sign t c) = cmd_Pending c" "cmd_ConsensusRequestId (Sign t c) = cmd_ConsensusRequestId c"
  "cmd_ClientId (Sign t c) = cmd_ClientId c" "cmd_State (Sign t c) = cmd_State c"
  "cmd_Signature (Sign t c) = ComputeHmac c t" "cmd_Timeout (Sign t c) = cmd_Timeout c"
  by (simp_all add: Sign_def)

end
