(* ===== verification/Clients.thy ===== *)
theory Clients
  imports Commands
begin

text \<open>
  The registered clients of server.go: their registration and expiry, the two command maps that
  share the command objects, and the channel on which a long poll waits for work.
\<close>

definition CLIENT_PING_INTERVAL :: int where "CLIENT_PING_INTERVAL = 60"

text \<open>
  \<open>rc_CmdChan\<close> stands for the unbuffered channel \<open>CmdChan\<close>: the number of goroutines that are
  blocked sending on it. A receive takes one of them.
\<close>

record registered_client =
  rc_ClientId :: string
  rc_AuthToken :: string
  rc_LastPing :: time
  rc_Tags :: "string list"
  rc_DispatchedCmds :: "(string, ref) gomap"
  rc_Cmds :: "(string, ref) gomap"
  rc_CmdChan :: nat

text \<open>The fields \<open>clients\<close> and \<open>Tags\<close> of \<open>Server\<close>, with the objects they lead to.\<close>

record client_store =
  cs_clients :: "(string, ref) gomap"
  cs_Tags :: "(string, bool) gomap"
  cs_heap :: "registered_client heap"
  cs_cmds :: "cmd heap"

definition newRegisteredClient :: "string \<Rightarrow> registered_client" where
  "newRegisteredClient clientId =
     \<lparr>rc_ClientId = clientId, rc_AuthToken = [], rc_LastPing = zero_time, rc_Tags = [],
      rc_DispatchedCmds = [], rc_Cmds = [], rc_CmdChan = 0\<rparr>"

abbreviation get_client :: "client_store \<Rightarrow> ref \<Rightarrow> registered_client option" where
  "get_client s r \<equiv> h_get (cs_heap s) r"

abbreviation get_cmd :: "client_store \<Rightarrow> ref \<Rightarrow> cmd option" where
  "get_cmd s r \<equiv> h_get (cs_cmds s) r"

definition upd_client :: "ref \<Rightarrow> (registered_client \<Rightarrow> registered_client) \<Rightarrow> client_store \<Rightarrow> client_store" where
  "upd_client r f s = s\<lparr>cs_heap := h_upd r f (cs_heap s)\<rparr>"

definition upd_cmd :: "ref \<Rightarrow> (cmd \<Rightarrow> cmd) \<Rightarrow> client_store \<Rightarrow> client_store" where
  "upd_cmd r f s = s\<lparr>cs_cmds := h_upd r f (cs_cmds s)\<rparr>"

definition GetClient :: "client_store \<Rightarrow> string \<Rightarrow> ref option" where
  "GetClient s clientId = gm_get (cs_clients s) clientId"

definition RegisterClient :: "time \<Rightarrow> string \<Rightarrow> string list \<Rightarrow> client_store \<Rightarrow> client_store" where
  "RegisterClient now clientId tags s =
     (let s = (if gm_get (cs_clients s) clientId = None
               then s\<lparr>cs_heap := cs_heap s @ [newRegisteredClient clientId],
                      cs_clients := gm_set clientId (length (cs_heap s)) (cs_clients s)\<rparr>
               else s);
          s = (case gm_get (cs_clients s) clientId of
                 None \<Rightarrow> s
               | Some r \<Rightarrow> upd_client r (\<lambda>c. c\<lparr>rc_LastPing := now, rc_Tags := tags\<rparr>) s)
      in s\<lparr>cs_Tags := foldl (\<lambda>m tag. gm_set tag True m) (cs_Tags s) tags\<rparr>)"

text \<open>Whether a client has missed its pings; the difference of two times is in nanoseconds.\<close>

definition client_expired :: "time \<Rightarrow> registered_client \<Rightarrow> bool" where
  "client_expired now client \<longleftrightarrow>
     now - rc_LastPing client > CLIENT_PING_INTERVAL * 5 * nanosecond_per_second"

definition CleanupClients :: "time \<Rightarrow> client_store \<Rightarrow> client_store" where
  "CleanupClients now s =
     s\<lparr>cs_clients := filter (\<lambda>(k, r). case get_client s r of
                                  None \<Rightarrow> True
                                | Some client \<Rightarrow> \<not> client_expired now client) (cs_clients s)\<rparr>"

text \<open>
  \<open>Submit\<close>: the command object goes into both maps, then the goroutine blocks on the channel
  until a poll takes its signal.
\<close>

definition Submit :: "ref \<Rightarrow> cmd \<Rightarrow> client_store \<Rightarrow> client_store" where
  "Submit client cmd s =
     (let r = length (cs_cmds s);
          s = s\<lparr>cs_cmds := cs_cmds s @ [cmd]\<rparr>;
          s = upd_client client (\<lambda>c. c\<lparr>rc_Cmds := gm_set (cmd_Id cmd) r (rc_Cmds c),
                                      rc_DispatchedCmds := gm_set (cmd_Id cmd) r (rc_DispatchedCmds c)\<rparr>) s
      in upd_client client (\<lambda>c. c\<lparr>rc_CmdChan := rc_CmdChan c + 1\<rparr>) s)"

text \<open>Fourteen days; an entry whose age is larger is dropped.\<close>

definition max_age :: "time \<Rightarrow> int" where
  "max_age now = unix now - 14 * 86400"

definition recent_cmd :: "time \<Rightarrow> client_store \<Rightarrow> ref \<Rightarrow> bool" where
  "recent_cmd now s r =
     (case get_cmd s r of None \<Rightarrow> False | Some d \<Rightarrow> cmd_Created d \<ge> max_age now)"

definition GetDispatchedCmds :: "time \<Rightarrow> ref \<Rightarrow> client_store \<Rightarrow> (string, ref) gomap \<times> client_store" where
  "GetDispatchedCmds now client s =
     (case get_client s client of
        None \<Rightarrow> ([], s)
      | Some c \<Rightarrow>
          let newMap = filter (\<lambda>(k, d). recent_cmd now s d) (rc_DispatchedCmds c);
              dirty = (\<exists>(k, d) \<in> set (rc_DispatchedCmds c). \<not> recent_cmd now s d)
          in (newMap,
              if dirty then upd_client client (\<lambda>c. c\<lparr>rc_DispatchedCmds := newMap\<rparr>) s else s))"

definition HasTag :: "registered_client \<Rightarrow> string \<Rightarrow> bool" where
  "HasTag c s = (if length (rc_Tags c) = 0 then False else list_ex (\<lambda>tag. tag = s) (rc_Tags c))"

text \<open>
  The loop of \<open>ClientCmds\<close> over the command map after a signal arrived: every command that is
  still pending is collected and its flag, shared with the other map, is cleared.
\<close>

fun take_pending :: "(string, ref) gomap \<Rightarrow> cmd heap \<Rightarrow> ref list \<times> cmd heap" where
  "take_pending [] h = ([], h)"
| "take_pending ((k, r) # m) h =
     (case h_get h r of
        None \<Rightarrow> take_pending m h
      | Some cmd \<Rightarrow>
          if cmd_Pending cmd then
            (let (rs, h') = take_pending m (h_upd r (\<lambda>c. c\<lparr>cmd_Pending := False\<rparr>) h) in (r # rs, h'))
          else take_pending m h)"

text \<open>
  One long poll of a registered client. It is woken only if a sender is blocked on the channel;
  \<open>timed_out\<close> says that the timer won the \<open>select\<close>. \<open>None\<close> is the timeout branch.
\<close>

definition poll_cmds :: "bool \<Rightarrow> ref \<Rightarrow> client_store \<Rightarrow> ref list option \<times> client_store" where
  "poll_cmds timed_out client s =
     (case get_client s client of
        None \<Rightarrow> (None, s)
      | Some c \<Rightarrow>
          if timed_out \<or> rc_CmdChan c = 0 then (None, s)
          else
            let s = upd_client client (\<lambda>c. c\<lparr>rc_CmdChan := rc_CmdChan c - 1\<rparr>) s;
                (rs, h) = take_pending (rc_Cmds c) (cs_cmds s)
            in (Some rs, s\<lparr>cs_cmds := h\<rparr>))"

section \<open>Reading through the updates\<close>

lemma client_store_simps [simp, go_simps]:
  "cs_clients (upd_client r f s) = cs_clients s" "cs_Tags (upd_client r f s) = cs_Tags s"
  "cs_cmds (upd_client r f s) = cs_cmds s" "length (cs_heap (upd_client r f s)) = length (cs_heap s)"
  "cs_clients (upd_cmd r g s) = cs_clients s" "cs_Tags (upd_cmd r g s) = cs_Tags s"
  "cs_heap (upd_cmd r g s) = cs_heap s" "length (cs_cmds (upd_cmd r g s)) = length (cs_cmds s)"
  by (simp_all add: upd_client_def upd_cmd_def)

lemma get_client_upd [simp, go_simps]:
  "get_client (upd_client r f s) r' = (if r' = r then map_option f (get_client s r) else get_client s r')"
  by (simp add: upd_client_def)

lemma get_cmd_upd [simp, go_simps]:
  "get_cmd (upd_cmd r f s) r' = (if r' = r then map_option f (get_cmd s r) else get_cmd s r')"
  by (simp add: upd_cmd_def)

text \<open>What \<open>take_pending\<close> leaves in the heap, and what it collects.\<close>

lemma take_pending_heap:
  "h_get (snd (take_pending m h)) r =
     map_option (\<lambda>c. if r \<in> snd ` set m then c\<lparr>cmd_Pending := False\<rparr> else c) (h_get h r)"
proof (induction m h rule: take_pending.induct)
  case (2 k r' m h)
  show ?case
  proof (cases "h_get h r'")
    case None
    then show ?thesis using 2 by (cases "h_get h r") auto
  next
    case (Some cmd)
    have same: "cmd\<lparr>cmd_Pending := False\<rparr> = cmd" if "\<not> cmd_Pending cmd"
      using that by (cases cmd) simp
    show ?thesis
      using 2 Some same
      by (cases "cmd_Pending cmd"; cases "h_get h r") (auto simp: split_beta option.map_comp comp_def)
  qed
qed (simp add: option.map_ident)

lemma take_pending_refs:
  "distinct (map snd m) \<Longrightarrow>
     fst (take_pending m h) =
       filter (\<lambda>r. case h_get h r of None \<Rightarrow> False | Some c \<Rightarrow> cmd_Pending c) (map snd m)"
proof (induction m h rule: take_pending.induct)
  case (2 k r m h)
  have other: "filter (\<lambda>x. case h_get (h_upd r g h) x of None \<Rightarrow> False | Some c \<Rightarrow> cmd_Pending c) (map snd m) =
      filter (\<lambda>x. case h_get h x of None \<Rightarrow> False | Some c \<Rightarrow> cmd_Pending c) (map snd m)" for g
    using "2.prems" by (intro filter_cong) auto
  show ?case using 2 other by (auto simp: split_beta split: option.splits)
qed simp

lemma length_take_pending [simp]: "length (snd (take_pending m h)) = length h"
  by (induction m h rule: take_pending.induct) (auto simp: split_beta split: option.splits)

section \<open>Invariant\<close>

definition is_pending :: "client_store \<Rightarrow> ref \<Rightarrow> bool" where
  "is_pending s r = (case get_cmd s r of None \<Rightarrow> False | Some c \<Rightarrow> cmd_Pending c)"

text \<open>The commands that wait for delivery to a client.\<close>

definition pending_refs :: "client_store \<Rightarrow> registered_client \<Rightarrow> ref list" where
  "pending_refs s c = filter (is_pending s) (map snd (rc_Cmds c))"

text \<open>A command map files existing command objects under their identifiers.\<close>

definition cmd_map_ok :: "client_store \<Rightarrow> (string, ref) gomap \<Rightarrow> bool" where
  "cmd_map_ok s m \<longleftrightarrow> gm_ok m \<and> (\<forall>(k, r) \<in> set m. \<exists>d. get_cmd s r = Some d \<and> cmd_Id d = k)"

text \<open>
  The last conjunct rules out a lost wake-up: at least as many goroutines wait to signal a
  client as there are commands it has not fetched.
\<close>

definition client_ok :: "client_store \<Rightarrow> registered_client \<Rightarrow> bool" where
  "client_ok s c \<longleftrightarrow>
     cmd_map_ok s (rc_Cmds c) \<and> cmd_map_ok s (rc_DispatchedCmds c) \<and>
     length (pending_refs s c) \<le> rc_CmdChan c"

definition client_store_ok :: "client_store \<Rightarrow> bool" where
  "client_store_ok s \<longleftrightarrow>
     gm_ok (cs_clients s) \<and>
     (\<forall>(k, r) \<in> set (cs_clients s). \<exists>c. get_client s r = Some c \<and> rc_ClientId c = k) \<and>
     (\<forall>r c. get_client s r = Some c \<longrightarrow> client_ok s c)"

lemma client_store_okI:
  assumes "gm_ok (cs_clients s)"
    "\<And>k r. (k, r) \<in> set (cs_clients s) \<Longrightarrow> \<exists>c. get_client s r = Some c \<and> rc_ClientId c = k"
    "\<And>r c. get_client s r = Some c \<Longrightarrow> client_ok s c"
  shows "client_store_ok s"
  using assms by (auto simp: client_store_ok_def)

lemma client_store_okD:
  assumes "client_store_ok s"
  shows "gm_ok (cs_clients s)"
    "(k, r) \<in> set (cs_clients s) \<Longrightarrow> \<exists>c. get_client s r = Some c \<and> rc_ClientId c = k"
    "get_client s r = Some c \<Longrightarrow> client_ok s c"
  using assms by (auto simp: client_store_ok_def)

lemma cmd_map_okD:
  "cmd_map_ok s m \<Longrightarrow> (k, r) \<in> set m \<Longrightarrow> \<exists>d. get_cmd s r = Some d \<and> cmd_Id d = k"
  by (auto simp: cmd_map_ok_def)

text \<open>Distinct keys point to distinct objects, since an object knows its key.\<close>

lemma cmd_map_ok_distinct_refs:
  assumes "cmd_map_ok s m"
  shows "distinct (map snd m)"
proof -
  have "inj_on snd (set m)"
  proof (rule inj_onI)
    fix p q assume pq: "p \<in> set m" "q \<in> set m" "snd p = snd q"
    obtain k r where p: "p = (k, r)" by (cases p)
    obtain k' r' where q: "q = (k', r')" by (cases q)
    from pq p q obtain d d' where "get_cmd s r = Some d" "cmd_Id d = k" "get_cmd s r' = Some d'" "cmd_Id d' = k'"
      using cmd_map_okD [OF assms] by metis
    with p q pq show "p = q" by simp
  qed
  moreover have "distinct m"
    using assms by (simp add: cmd_map_ok_def gm_ok_def distinct_map)
  ultimately show ?thesis by (simp add: distinct_map)
qed

text \<open>Invariants of one client carry over when command objects keep identity and only lose flags.\<close>

lemma cmd_map_ok_mono:
  assumes "cmd_map_ok s m"
    "\<And>r d. get_cmd s r = Some d \<Longrightarrow> \<exists>d'. get_cmd s' r = Some d' \<and> cmd_Id d' = cmd_Id d"
  shows "cmd_map_ok s' m"
  using assms unfolding cmd_map_ok_def by fastforce

lemma length_filter_implies:
  "(\<And>x. x \<in> set xs \<Longrightarrow> P x \<Longrightarrow> Q x) \<Longrightarrow> length (filter P xs) \<le> length (filter Q xs)"
  by (induction xs) auto

lemma client_ok_mono:
  assumes "client_ok s c"
    and "\<And>r d. get_cmd s r = Some d \<Longrightarrow>
      \<exists>d'. get_cmd s' r = Some d' \<and> cmd_Id d' = cmd_Id d \<and> (cmd_Pending d' \<longrightarrow> cmd_Pending d)"
  shows "client_ok s' c"
proof -
  have "is_pending s r" if "r \<in> snd ` set (rc_Cmds c)" "is_pending s' r" for r
  proof -
    from that(1) assms(1) obtain d where d: "get_cmd s r = Some d"
      by (force simp: client_ok_def cmd_map_ok_def)
    with assms(2) [OF d] that(2) show ?thesis by (auto simp: is_pending_def)
  qed
  then have "length (pending_refs s' c) \<le> length (pending_refs s c)"
    unfolding pending_refs_def by (intro length_filter_implies) auto
  moreover have "cmd_map_ok s' (rc_Cmds c)" "cmd_map_ok s' (rc_DispatchedCmds c)"
    using assms by (auto simp: client_ok_def intro!: cmd_map_ok_mono [of s])
  ultimately show ?thesis using assms(1) by (auto simp: client_ok_def)
qed

subsection \<open>Every operation keeps it\<close>

lemma client_store_ok_empty [simp]:
  "client_store_ok \<lparr>cs_clients = [], cs_Tags = t, cs_heap = [], cs_cmds = []\<rparr>"
  by (simp add: client_store_ok_def)

lemma client_ok_new: "client_ok s (newRegisteredClient k)"
  by (simp add: client_ok_def cmd_map_ok_def pending_refs_def newRegisteredClient_def)

text \<open>Only the fields of the client that the invariant reads matter.\<close>

lemma client_ok_frame:
  assumes "rc_Cmds c' = rc_Cmds c" "rc_DispatchedCmds c' = rc_DispatchedCmds c"
    "rc_CmdChan c' = rc_CmdChan c" "cs_cmds s' = cs_cmds s"
  shows "client_ok s' c' = client_ok s c"
proof -
  have "is_pending s' = is_pending s" using assms(4) by (simp add: is_pending_def fun_eq_iff)
  then show ?thesis using assms by (simp add: client_ok_def cmd_map_ok_def pending_refs_def)
qed

lemma client_ok_maps [simp]:
  "client_ok (s\<lparr>cs_Tags := t\<rparr>) c = client_ok s c"
  "client_ok (s\<lparr>cs_clients := m\<rparr>) c = client_ok s c"
  by (rule client_ok_frame; simp)+

lemma client_store_ok_upd_client:
  assumes "client_store_ok s"
    "\<And>c. get_client s r = Some c \<Longrightarrow> client_ok s (f c) \<and> rc_ClientId (f c) = rc_ClientId c"
  shows "client_store_ok (upd_client r f s)"
proof (rule client_store_okI)
  fix k r' assume "(k, r') \<in> set (cs_clients (upd_client r f s))"
  then show "\<exists>c. get_client (upd_client r f s) r' = Some c \<and> rc_ClientId c = k"
    using client_store_okD(2) [OF assms(1), of k r'] assms(2) by fastforce
next
  fix r' c assume "get_client (upd_client r f s) r' = Some c"
  then have "client_ok s c"
    using client_store_okD(3) [OF assms(1)] assms(2) by (auto split: if_splits)
  then show "client_ok (upd_client r f s) c" by (subst client_ok_frame [of c c _ s]) simp_all
qed (simp add: client_store_okD(1) [OF assms(1)])

lemma client_store_ok_Tags [simp]: "client_store_ok (s\<lparr>cs_Tags := t\<rparr>) = client_store_ok s"
  by (simp add: client_store_ok_def)

lemma client_store_ok_add_client:
  assumes "client_store_ok s"
  shows "client_store_ok (s\<lparr>cs_heap := cs_heap s @ [newRegisteredClient k],
                           cs_clients := gm_set k (length (cs_heap s)) (cs_clients s)\<rparr>)"
    (is "client_store_ok ?t")
proof (rule client_store_okI)
  fix k' r assume "(k', r) \<in> set (cs_clients ?t)"
  then have "(k', r) \<in> set (gm_set k (length (cs_heap s)) (cs_clients s))" by simp
  then show "\<exists>c. get_client ?t r = Some c \<and> rc_ClientId c = k'"
  proof (cases rule: in_gm_set_cases)
    case 1
    then show ?thesis by (simp add: newRegisteredClient_def)
  next
    case 2
    from client_store_okD(2) [OF assms this] show ?thesis by (auto dest: h_get_Some_less)
  qed
next
  fix r c assume "get_client ?t r = Some c"
  then have "client_ok s c"
    using client_store_okD(3) [OF assms] client_ok_new by (auto split: if_splits)
  then show "client_ok ?t c" by (subst client_ok_frame [of c c _ s]) simp_all
qed (simp add: client_store_okD(1) [OF assms])

lemma client_store_ok_Register [wf_intros]:
  assumes "client_store_ok s"
  shows "client_store_ok (RegisterClient now k tags s)"
proof -
  let ?f = "\<lambda>c. c\<lparr>rc_LastPing := now, rc_Tags := tags\<rparr>"
  have upd: "client_store_ok (upd_client r ?f t)" if t: "client_store_ok t" for r t
  proof (rule client_store_ok_upd_client [OF t])
    fix c assume "get_client t r = Some c"
    from client_store_okD(3) [OF t this]
    show "client_ok t (?f c) \<and> rc_ClientId (?f c) = rc_ClientId c"
      using client_ok_frame [of "?f c" c t t] by simp
  qed
  show ?thesis
    using assms client_store_ok_add_client [OF assms, of k]
    by (auto simp: RegisterClient_def Let_def upd split: option.splits)
qed

lemma client_store_ok_Cleanup [wf_intros]:
  "client_store_ok s \<Longrightarrow> client_store_ok (CleanupClients now s)"
  by (auto simp: client_store_ok_def CleanupClients_def)

lemma client_store_ok_upd_cmd [wf_intros]:
  assumes "client_store_ok s"
    "\<And>d. cmd_Id (f d) = cmd_Id d" "\<And>d. cmd_Pending (f d) \<Longrightarrow> cmd_Pending d"
  shows "client_store_ok (upd_cmd r f s)"
proof (rule client_store_okI)
  fix r' c assume "get_client (upd_cmd r f s) r' = Some c"
  then have "client_ok s c" using client_store_okD(3) [OF assms(1)] by simp
  then show "client_ok (upd_cmd r f s) c"
    by (rule client_ok_mono) (auto simp: assms)
qed (use client_store_okD [OF assms(1)] in auto)

lemma client_store_ok_filter_dispatched [wf_intros]:
  assumes "client_store_ok s"
  shows "client_store_ok (upd_client r (\<lambda>c. c\<lparr>rc_DispatchedCmds := filter P (rc_DispatchedCmds c)\<rparr>) s)"
proof (rule client_store_ok_upd_client [OF assms])
  fix c assume "get_client s r = Some c"
  from client_store_okD(3) [OF assms this]
  show "client_ok s (c\<lparr>rc_DispatchedCmds := filter P (rc_DispatchedCmds c)\<rparr>) \<and>
      rc_ClientId (c\<lparr>rc_DispatchedCmds := filter P (rc_DispatchedCmds c)\<rparr>) = rc_ClientId c"
    by (auto simp: client_ok_def cmd_map_ok_def pending_refs_def)
qed

lemma client_store_ok_GetDispatched [wf_intros]:
  assumes "client_store_ok s"
  shows "client_store_ok (snd (GetDispatchedCmds now r s))"
proof -
  let ?P = "\<lambda>(k :: string, d). recent_cmd now s d"
  have "upd_client r (\<lambda>c'. c'\<lparr>rc_DispatchedCmds := filter ?P (rc_DispatchedCmds c)\<rparr>) s =
      upd_client r (\<lambda>c. c\<lparr>rc_DispatchedCmds := filter ?P (rc_DispatchedCmds c)\<rparr>) s"
    if "get_client s r = Some c" for c
    using that by (simp add: upd_client_def h_upd_def h_get_def split: if_splits)
  then show ?thesis
    using assms client_store_ok_filter_dispatched [OF assms, of r ?P]
    by (auto simp: GetDispatchedCmds_def Let_def split: option.splits)
qed

lemma pending_refs_submit:
  assumes "cmd_map_ok s m"
  shows "length (filter (is_pending (s\<lparr>cs_cmds := cs_cmds s @ [cmd]\<rparr>))
      (map snd (gm_set (cmd_Id cmd) (length (cs_cmds s)) m)))
    \<le> Suc (length (filter (is_pending s) (map snd m)))"
proof -
  let ?p = "is_pending (s\<lparr>cs_cmds := cs_cmds s @ [cmd]\<rparr>)"
  have eq: "?p r = is_pending s r" if "r \<in> snd ` set m" for r
    using that cmd_map_okD [OF assms] by (force simp: is_pending_def dest: h_get_Some_less)
  have "length (filter P (map snd (gm_set k v m))) \<le> Suc (length (filter P (map snd m)))" for P k v
    by (induction m) (auto simp: comp_def)
  from this [of ?p] have "length (filter ?p (map snd (gm_set (cmd_Id cmd) (length (cs_cmds s)) m)))
      \<le> Suc (length (filter ?p (map snd m)))" .
  also have "filter ?p (map snd m) = filter (is_pending s) (map snd m)"
    using eq by (intro filter_cong) auto
  finally show ?thesis .
qed

lemma cmd_map_ok_submit:
  assumes "cmd_map_ok s m"
  shows "cmd_map_ok (s\<lparr>cs_cmds := cs_cmds s @ [cmd]\<rparr>) (gm_set (cmd_Id cmd) (length (cs_cmds s)) m)"
proof -
  have "\<exists>d. get_cmd (s\<lparr>cs_cmds := cs_cmds s @ [cmd]\<rparr>) r = Some d \<and> cmd_Id d = k"
    if "(k, r) \<in> set (gm_set (cmd_Id cmd) (length (cs_cmds s)) m)" for k r
    using that
  proof (cases rule: in_gm_set_cases)
    case 2
    from cmd_map_okD [OF assms this] show ?thesis by (auto dest: h_get_Some_less)
  qed simp
  moreover have "gm_ok (gm_set (cmd_Id cmd) (length (cs_cmds s)) m)"
    using assms by (simp add: cmd_map_ok_def)
  ultimately show ?thesis unfolding cmd_map_ok_def by blast
qed

lemma client_store_ok_alloc_cmd:
  assumes "client_store_ok s"
  shows "client_store_ok (s\<lparr>cs_cmds := cs_cmds s @ [cmd]\<rparr>)"
proof (rule client_store_okI)
  fix r c assume "get_client (s\<lparr>cs_cmds := cs_cmds s @ [cmd]\<rparr>) r = Some c"
  then have "client_ok s c" using client_store_okD(3) [OF assms] by simp
  then show "client_ok (s\<lparr>cs_cmds := cs_cmds s @ [cmd]\<rparr>) c"
    by (rule client_ok_mono) (auto dest: h_get_Some_less)
qed (use client_store_okD [OF assms] in auto)

lemma upd_client_upd_client: "upd_client r f (upd_client r g s) = upd_client r (f \<circ> g) s"
  by (simp add: upd_client_def h_upd_def)

lemma client_store_ok_Submit [wf_intros]:
  assumes "client_store_ok s"
  shows "client_store_ok (Submit r cmd s)"
proof -
  let ?s = "s\<lparr>cs_cmds := cs_cmds s @ [cmd]\<rparr>"
  have "client_store_ok (upd_client r
      ((\<lambda>c. c\<lparr>rc_CmdChan := rc_CmdChan c + 1\<rparr>) \<circ>
       (\<lambda>c. c\<lparr>rc_Cmds := gm_set (cmd_Id cmd) (length (cs_cmds s)) (rc_Cmds c),
             rc_DispatchedCmds := gm_set (cmd_Id cmd) (length (cs_cmds s)) (rc_DispatchedCmds c)\<rparr>)) ?s)"
  proof (rule client_store_ok_upd_client [OF client_store_ok_alloc_cmd [OF assms]])
    fix c assume "get_client ?s r = Some c"
    then have "client_ok s c" using client_store_okD(3) [OF assms] by simp
    then show "client_ok ?s (((\<lambda>c. c\<lparr>rc_CmdChan := rc_CmdChan c + 1\<rparr>) \<circ>
       (\<lambda>c. c\<lparr>rc_Cmds := gm_set (cmd_Id cmd) (length (cs_cmds s)) (rc_Cmds c),
             rc_DispatchedCmds := gm_set (cmd_Id cmd) (length (cs_cmds s)) (rc_DispatchedCmds c)\<rparr>)) c) \<and>
       rc_ClientId (((\<lambda>c. c\<lparr>rc_CmdChan := rc_CmdChan c + 1\<rparr>) \<circ>
       (\<lambda>c. c\<lparr>rc_Cmds := gm_set (cmd_Id cmd) (length (cs_cmds s)) (rc_Cmds c),
             rc_DispatchedCmds := gm_set (cmd_Id cmd) (length (cs_cmds s)) (rc_DispatchedCmds c)\<rparr>)) c)
       = rc_ClientId c"
      using cmd_map_ok_submit [of s _ cmd] pending_refs_submit [of s "rc_Cmds c" cmd]
      by (auto simp: client_ok_def pending_refs_def)
  qed
  then show ?thesis by (simp add: Submit_def Let_def upd_client_upd_client)
qed

lemma poll_woken:
  assumes "get_client s r = Some c" "\<not> timed_out" "rc_CmdChan c \<noteq> 0"
  shows "poll_cmds timed_out r s =
    (Some (fst (take_pending (rc_Cmds c) (cs_cmds s))),
     (upd_client r (\<lambda>c. c\<lparr>rc_CmdChan := rc_CmdChan c - 1\<rparr>) s)
       \<lparr>cs_cmds := snd (take_pending (rc_Cmds c) (cs_cmds s))\<rparr>)"
  using assms by (simp add: poll_cmds_def split_beta)

lemma client_store_ok_poll [wf_intros]:
  assumes "client_store_ok s"
  shows "client_store_ok (snd (poll_cmds timed_out r s))"
proof (cases "\<exists>c. get_client s r = Some c \<and> \<not> timed_out \<and> rc_CmdChan c \<noteq> 0")
  case False
  then show ?thesis using assms by (auto simp: poll_cmds_def split: option.splits)
next
  case True
  then obtain c where c: "get_client s r = Some c" "\<not> timed_out" "rc_CmdChan c \<noteq> 0" by blast
  let ?t = "snd (poll_cmds timed_out r s)"
  let ?f = "\<lambda>c. c\<lparr>rc_CmdChan := rc_CmdChan c - 1\<rparr>"
  note t = poll_woken [OF c]
  have cmds: "get_cmd ?t q = map_option (\<lambda>d. if q \<in> snd ` set (rc_Cmds c) then d\<lparr>cmd_Pending := False\<rparr> else d)
      (get_cmd s q)" for q
    by (simp add: t take_pending_heap)
  have keep: "client_ok ?t d" if "client_ok s d" for d
    using that by (rule client_ok_mono) (auto simp: cmds)
  show ?thesis
  proof (rule client_store_okI)
    show "gm_ok (cs_clients ?t)" by (simp add: t client_store_okD(1) [OF assms])
  next
    fix k q assume "(k, q) \<in> set (cs_clients ?t)"
    then have "(k, q) \<in> set (cs_clients s)" by (simp add: t)
    from client_store_okD(2) [OF assms this] show "\<exists>c. get_client ?t q = Some c \<and> rc_ClientId c = k"
      by (auto simp: t upd_client_def)
  next
    fix q d assume d: "get_client ?t q = Some d"
    show "client_ok ?t d"
    proof (cases "q = r")
      case False
      with d have "get_client s q = Some d" unfolding t by (simp add: upd_client_def)
      then show ?thesis using keep client_store_okD(3) [OF assms] by blast
    next
      case True
      have dc: "d = ?f c" using d c(1) unfolding t True by (simp add: upd_client_def)
      have "pending_refs ?t d = []"
        by (auto simp: pending_refs_def dc filter_empty_conv is_pending_def cmds split: option.splits)
      then show ?thesis
        using keep [OF client_store_okD(3) [OF assms c(1)]] by (simp add: client_ok_def dc cmd_map_ok_def)
    qed
  qed
qed

end
