(* ===== verification/Http_Check_Store.thy ===== *)
theory Http_Check_Store
  imports Users Keyed_Store
begin

text \<open>The store of http_check.go: checks by identifier, and the user that requests them.\<close>

record http_check =
  hc_Id :: string
  hc_Enabled :: bool
  hc_TemplateId :: string
  hc_SecureToken :: string
  hc_Timeout :: int
  hc_ClientIds :: "string list"

record http_check_store =
  hs_Checks :: "(string, http_check) gomap"
  hs_SystemUser :: user
  hs_file :: "(string, http_check) gomap stored"

definition HttpCheckStore_Get :: "http_check_store \<Rightarrow> string \<Rightarrow> http_check option" where
  "HttpCheckStore_Get s i = gm_get (hs_Checks s) i"

definition FindByTemplate :: "http_check_store \<Rightarrow> string \<Rightarrow> http_check list" where
  "FindByTemplate s i = filter (\<lambda>elm. hc_TemplateId elm = i) (map snd (hs_Checks s))"

definition HttpCheckStore_Add :: "http_check \<Rightarrow> http_check_store \<Rightarrow> http_check_store" where
  "HttpCheckStore_Add e s = s\<lparr>hs_Checks := gm_set (hc_Id e) e (hs_Checks s)\<rparr>"

text \<open>The loop copies every entry whose element does not have the identifier.\<close>

definition HttpCheckStore_Remove :: "string \<Rightarrow> http_check_store \<Rightarrow> http_check_store" where
  "HttpCheckStore_Remove i s =
     s\<lparr>hs_Checks := filter (\<lambda>(k, elm). hc_Id elm \<noteq> i) (hs_Checks s)\<rparr>"

definition http_checks_save :: "env \<Rightarrow> http_check_store \<Rightarrow> bool \<times> http_check_store" where
  "http_checks_save e s =
     (env_write e = WriteOk, s\<lparr>hs_file := write_file (env_write e) (hs_Checks s) (hs_file s)\<rparr>)"

definition http_checks_load :: "http_check_store \<Rightarrow> http_check_store" where
  "http_checks_load s = (case hs_file s of Json v \<Rightarrow> s\<lparr>hs_Checks := v\<rparr> | _ \<Rightarrow> s)"

definition newHttpCheckStore :: "string \<Rightarrow> (string, http_check) gomap stored \<Rightarrow> http_check_store" where
  "newHttpCheckStore uid f =
     (let systemUser = AddRole ''requester'' (newUser uid)
      in http_checks_load \<lparr>hs_Checks = [], hs_SystemUser = systemUser, hs_file = f\<rparr>)"

definition newHttpCheckConfiguration :: "env \<Rightarrow> http_check" where
  "newHttpCheckConfiguration e =
     \<lparr>hc_Id = env_uuid e 0, hc_Enabled = True, hc_TemplateId = [],
      hc_SecureToken = secureRandomString_ignoring 32 (env_rand e 0), hc_Timeout = 30,
      hc_ClientIds = []\<rparr>"

definition http_check_store_ok :: "http_check_store \<Rightarrow> bool" where
  "http_check_store_ok s \<longleftrightarrow>
     gm_ok (hs_Checks s) \<and> (\<forall>(k, c) \<in> set (hs_Checks s). hc_Id c = k)"

lemma http_check_store_ok_Add [wf_intros]:
  "http_check_store_ok s \<Longrightarrow> http_check_store_ok (HttpCheckStore_Add c s)"
  using set_gm_set [of "hc_Id c" c "hs_Checks s"]
  by (fastforce simp: http_check_store_ok_def HttpCheckStore_Add_def)

lemma http_check_store_ok_Remove [wf_intros]:
  "http_check_store_ok s \<Longrightarrow> http_check_store_ok (HttpCheckStore_Remove i s)"
  by (auto simp: http_check_store_ok_def HttpCheckStore_Remove_def)

lemma http_check_store_ok_save [wf_intros, simp]:
  "http_check_store_ok (snd (http_checks_save e s)) = http_check_store_ok s"
  by (simp add: http_check_store_ok_def http_checks_save_def)

text \<open>
  The removal by element is a removal by key exactly because every check is filed under its
  own identifier: the law below needs the invariant.
\<close>

lemma HttpCheckStore_Get_Remove:
  assumes "http_check_store_ok s"
  shows "HttpCheckStore_Get (HttpCheckStore_Remove i s) k = (if k = i then None else HttpCheckStore_Get s k)"
proof -
  have "hc_Id c = k" if "gm_get (hs_Checks s) k = Some c" for c
    using assms gm_get_in [OF that] by (auto simp: http_check_store_ok_def)
  then show ?thesis
    using assms
    by (auto simp: HttpCheckStore_Get_def HttpCheckStore_Remove_def http_check_store_ok_def
        gm_get_filter split: option.splits)
qed

interpretation http_checks: keyed_store HttpCheckStore_Get HttpCheckStore_Add HttpCheckStore_Remove
  hc_Id http_check_store_ok
proof unfold_locales
  fix s k v assume "http_check_store_ok s" "HttpCheckStore_Get s k = Some v"
  then show "hc_Id v = k"
    by (auto simp: http_check_store_ok_def HttpCheckStore_Get_def dest: gm_get_in)
qed (simp_all add: wf_intros HttpCheckStore_Get_Remove,
     simp add: HttpCheckStore_Get_def HttpCheckStore_Add_def)

lemma FindByTemplate_iff:
  assumes "http_check_store_ok s"
  shows "c \<in> set (FindByTemplate s i) \<longleftrightarrow> HttpCheckStore_Get s (hc_Id c) = Some c \<and> hc_TemplateId c = i"
proof -
  have "c \<in> snd ` set (hs_Checks s) \<longleftrightarrow> gm_get (hs_Checks s) (hc_Id c) = Some c"
  proof
    assume "c \<in> snd ` set (hs_Checks s)"
    then obtain k where "(k, c) \<in> set (hs_Checks s)" by force
    moreover from this have "hc_Id c = k" using assms by (auto simp: http_check_store_ok_def)
    ultimately show "gm_get (hs_Checks s) (hc_Id c) = Some c"
      using assms gm_ok_in_get by (fastforce simp: http_check_store_ok_def)
  qed (force dest: gm_get_in)
  then show ?thesis by (auto simp: FindByTemplate_def HttpCheckStore_Get_def)
qed

end
