(* ===== verification/Notifications.thy ===== *)
theory Notifications
  imports Go_Prelude
begin

text \<open>
  notifications.go: the manager with its outgoing channel, the dispatcher that passes every
  message to the listeners, and the listeners' own channels and consumers.
\<close>

section \<open>Messages and channels\<close>

type_synonym notification_type = string

definition NEW_CONSENSUS :: notification_type where "NEW_CONSENSUS = ''New Consensus Request''"
definition EXECUTION_DONE :: notification_type where "EXECUTION_DONE = ''Execution done''"

record message =
  msg_Content :: string
  msg_Type :: notification_type
  msg_Url :: string

definition newMessage :: "string \<Rightarrow> notification_type \<Rightarrow> message" where
  "newMessage content nType = \<lparr>msg_Content = content, msg_Type = nType, msg_Url = []\<rparr>"

text \<open>
  A receiver: the buffered channel with its capacity, and the messages its consumer has been
  called with, oldest first.
\<close>

record receiver =
  mr_channel :: "message list"
  mr_size :: nat
  mr_consumed :: "message list"

text \<open>
  The manager. \<open>nm_blocked\<close> holds the messages of goroutines blocked in \<open>sendOut <- msg\<close>
  because the buffer is full, in the order in which they arrived: Go serves them first in,
  first out.
\<close>

record notification_manager =
  nm_listeners :: "receiver list"
  nm_sendOut :: "message list"
  nm_blocked :: "message list"

definition sendOut_size :: nat where "sendOut_size = 100"

definition newNotificationManager :: notification_manager where
  "newNotificationManager = \<lparr>nm_listeners = [], nm_sendOut = [], nm_blocked = []\<rparr>"

definition registerWithChannelSize :: "nat \<Rightarrow> notification_manager \<Rightarrow> notification_manager" where
  "registerWithChannelSize channelSize m =
     m\<lparr>nm_listeners := nm_listeners m @ [\<lparr>mr_channel = [], mr_size = channelSize, mr_consumed = []\<rparr>]\<rparr>"

definition register :: "notification_manager \<Rightarrow> notification_manager" where
  "register m = registerWithChannelSize 1000 m"

definition Notify :: "message \<Rightarrow> notification_manager \<Rightarrow> notification_manager" where
  "Notify msg m =
     (if length (nm_sendOut m) < sendOut_size then m\<lparr>nm_sendOut := nm_sendOut m @ [msg]\<rparr>
      else m\<lparr>nm_blocked := nm_blocked m @ [msg]\<rparr>)"

text \<open>The non-blocking send of the dispatcher: a full channel drops the message.\<close>

definition offer :: "message \<Rightarrow> receiver \<Rightarrow> receiver" where
  "offer msg r =
     (if length (mr_channel r) < mr_size r then r\<lparr>mr_channel := mr_channel r @ [msg]\<rparr> else r)"

text \<open>One turn of the dispatcher's loop; taking a message lets a blocked sender finish.\<close>

definition dispatch :: "notification_manager \<Rightarrow> notification_manager" where
  "dispatch m =
     (case nm_sendOut m of
        [] \<Rightarrow> m
      | value # rest \<Rightarrow>
          m\<lparr>nm_listeners := map (offer value) (nm_listeners m),
            nm_sendOut := rest @ (case nm_blocked m of [] \<Rightarrow> [] | b # bs \<Rightarrow> [b]),
            nm_blocked := (case nm_blocked m of [] \<Rightarrow> [] | b # bs \<Rightarrow> bs)\<rparr>)"

text \<open>One turn of a receiver's loop.\<close>

definition receiver_run :: "receiver \<Rightarrow> receiver" where
  "receiver_run r =
     (case mr_channel r of
        [] \<Rightarrow> r
      | msg # rest \<Rightarrow> r\<lparr>mr_channel := rest, mr_consumed := mr_consumed r @ [msg]\<rparr>)"

end
