(* ===== verification/Conf.thy ===== *)
theory Conf
  imports Go_Strings
begin

text \<open>
  conf.go: the configuration and what is computed from its fields. Reading flags, environment
  and files is done by the packages pflag and viper.
\<close>

record conf =
  conf_Token :: string
  conf_Hostname :: string
  conf_TagsList :: "string list"
  conf_UseAutoTag :: bool
  conf_ServerEnabled :: bool
  conf_EndpointURI :: string
  conf_ServerPort :: int
  conf_SslCertFile :: string
  conf_SslPrivateKeyFile :: string
  conf_AutoGenerateCert :: bool
  conf_ClientPort :: int
  conf_Debug :: bool
  conf_Home :: string
  conf_LdapConfigFile :: string
  conf_EnableLdap :: bool

definition GetHome :: "conf \<Rightarrow> string" where
  "GetHome c = (if conf_Home c = ''/'' then conf_Home c else TrimRight (CHR ''/'') (conf_Home c))"

definition HomeFile :: "conf \<Rightarrow> string \<Rightarrow> string" where
  "HomeFile c fileName = GetHome c @ ''/'' @ fileName"

definition GetSslPrivateKeyFile :: "conf \<Rightarrow> string" where
  "GetSslPrivateKeyFile c = HomeFile c (conf_SslPrivateKeyFile c)"

definition GetSslCertFile :: "conf \<Rightarrow> string" where
  "GetSslCertFile c = HomeFile c (conf_SslCertFile c)"

definition ServerRequest :: "conf \<Rightarrow> string \<Rightarrow> string" where
  "ServerRequest c path =
     TrimRight (CHR ''/'') (conf_EndpointURI c) @ ''/'' @ TrimLeft (CHR ''/'') path"

text \<open>
  \<open>Validate\<close>: the error text, or \<open>None\<close>. \<open>exists\<close> tells which paths \<open>os.Stat\<close> finds.
\<close>

definition Conf_Validate :: "(string \<Rightarrow> bool) \<Rightarrow> conf \<Rightarrow> string option" where
  "Conf_Validate exists c =
     (let minLen = 32
      in if length (TrimSpace (conf_Token c)) < minLen
         then Some (''Must have secure token with minimum length of '' @ itoa (int minLen))
         else if \<not> exists (GetHome c)
         then Some (''Home directory doesn't exists: '' @ GetHome c)
         else None)"

definition isClientEnabled :: "conf \<Rightarrow> bool" where
  "isClientEnabled c \<longleftrightarrow> length (conf_EndpointURI c) > 0"

text \<open>A server path does not depend on slashes at the seam.\<close>

lemma TrimLeft_idem: "TrimLeft c (TrimLeft c s) = TrimLeft c s"
  by (simp add: TrimLeft_def)

lemma TrimLeft_Cons [simp]: "TrimLeft c (c # s) = TrimLeft c s"
  by (simp add: TrimLeft_def)

lemma TrimRight_snoc [simp]: "TrimRight c (s @ [c]) = TrimRight c s"
  by (simp add: TrimRight_def)

lemma ServerRequest_slashes:
  "ServerRequest c (CHR ''/'' # path) = ServerRequest c path"
  "ServerRequest (c\<lparr>conf_EndpointURI := conf_EndpointURI c @ ''/''\<rparr>) path = ServerRequest c path"
  by (simp_all add: ServerRequest_def)

section \<open>Tags\<close>

definition alnum :: "char \<Rightarrow> bool" where
  "alnum c = (let n = (of_char c :: nat) in 48 \<le> n \<and> n \<le> 57 \<or> 65 \<le> n \<and> n \<le> 90 \<or> 97 \<le> n \<and> n \<le> 122)"

definition digit :: "char \<Rightarrow> bool" where
  "digit c = (let n = (of_char c :: nat) in 48 \<le> n \<and> n \<le> 57)"

text \<open>\<open>cleanTag\<close>: the pattern is \<open>^[[:alnum:]-]+$\<close>.\<close>

definition cleanTag :: "string \<Rightarrow> string" where
  "cleanTag s =
     (let cleanTag = ToLower (TrimSpace s)
      in if \<not> (cleanTag \<noteq> [] \<and> list_all (\<lambda>c. alnum c \<or> c = CHR ''-'') cleanTag) then [] else cleanTag)"

text \<open>The loop body of \<open>hostTagDiscovery\<close>; the comparison of the two floats is exact.\<close>

definition auto_tag :: "string \<Rightarrow> bool" where
  "auto_tag tag \<longleftrightarrow>
     length tag \<ge> 2 \<and> \<not> list_all digit tag \<and> \<not> (2 * length (filter digit tag) \<ge> length tag)"

definition hostTagDiscovery :: "conf \<Rightarrow> string list" where
  "hostTagDiscovery c =
     filter auto_tag (map cleanTag (FieldsFunc (\<lambda>r. r = CHR ''.'' \<or> r = CHR ''-'' \<or> r = CHR ''_'') (conf_Hostname c)))"

text \<open>\<open>useautotag\<close> is what viper holds for the key of that name.\<close>

definition Conf_GetTags :: "bool \<Rightarrow> conf \<Rightarrow> string list" where
  "Conf_GetTags useautotag c =
     (let tagsList = conf_TagsList c in if useautotag then tagsList @ hostTagDiscovery c else tagsList)"

section \<open>Repair of the address of the server\<close>

text \<open>
  The pattern \<open>(http[s]{0,1})://([^/:]+):?([0-9]{0,}).*\<close> matches somewhere in a string, if the scheme
  is followed by a byte that is neither a slash nor a colon.
\<close>

definition host_char :: "char \<Rightarrow> bool" where
  "host_char c \<longleftrightarrow> c \<noteq> CHR '':'' \<and> c \<noteq> CHR ''/''"

definition full_uri_here :: "string \<Rightarrow> bool" where
  "full_uri_here s =
     list_ex (\<lambda>scheme. prefix scheme s \<and> (case drop (length scheme) s of [] \<Rightarrow> False | c # _ \<Rightarrow> host_char c))
       [''http://'', ''https://'']"

fun fullUriPattern :: "string \<Rightarrow> bool" where
  "fullUriPattern [] = False"
| "fullUriPattern (c # cs) = (full_uri_here (c # cs) \<or> fullUriPattern cs)"

text \<open>
  The first match of \<open>([^:/]+):?([0-9]{0,})\<close> and its two groups: the first run of other bytes than
  colon and slash, and the digits after it or after the colon that follows it.
\<close>

definition hostWithPort :: "string \<Rightarrow> (string \<times> string) option" where
  "hostWithPort s =
     (case dropWhile (\<lambda>c. \<not> host_char c) s of
        [] \<Rightarrow> None
      | t \<Rightarrow>
          let host = takeWhile host_char t; rest = dropWhile host_char t;
              rest = (case rest of [] \<Rightarrow> [] | c # r \<Rightarrow> if c = CHR '':'' then r else rest)
          in Some (host, takeWhile digit rest))"

definition AutoRepair :: "string \<Rightarrow> conf \<Rightarrow> conf" where
  "AutoRepair defaultHostName c =
     (if \<not> fullUriPattern (conf_EndpointURI c) then
        (case hostWithPort (conf_EndpointURI c) of
           None \<Rightarrow> c
         | Some (m1, m2) \<Rightarrow>
             let host = (if m1 \<noteq> [] then m1 else defaultHostName);
                 port = (if m2 \<noteq> [] then m2 else itoa (conf_ServerPort c))
             in c\<lparr>conf_EndpointURI := ''https://'' @ host @ '':'' @ port @ ''/''\<rparr>)
      else c)"

text \<open>The old names of options: the call of \<open>viper.Set\<close>, if any, given what viper holds.\<close>

definition UpdateLegacyString :: "(string \<Rightarrow> string) \<Rightarrow> string \<Rightarrow> string \<Rightarrow> (string \<times> string) option" where
  "UpdateLegacyString get from to =
     (let val = get from
      in if val = [] then None else if get to = [] then Some (to, get from) else None)"

definition UpdateLegacyBool ::
  "(string \<Rightarrow> bool) \<Rightarrow> string \<Rightarrow> string \<Rightarrow> bool \<Rightarrow> (string \<times> bool) option"
where
  "UpdateLegacyBool get from to defaultValue =
     (let val = get from
      in if val = defaultValue then None
         else if get to = defaultValue then Some (to, get from) else None)"

text \<open>What \<open>main\<close> does to the address of a server that is given none.\<close>

definition local_endpoint :: "conf \<Rightarrow> conf" where
  "local_endpoint c =
     (if conf_ServerEnabled c \<and> length (conf_EndpointURI c) < 1
      then c\<lparr>conf_EndpointURI := ''https://127.0.0.1:'' @ itoa (conf_ServerPort c) @ ''/''\<rparr> else c)"

text \<open>A repaired address is never repaired again.\<close>

lemma host_char_simps [simp]: "\<not> host_char (CHR '':'')" "\<not> host_char (CHR ''/'')"
  by (simp_all add: host_char_def)

lemma full_uri_https:
  assumes "h \<noteq> []" "host_char (hd h)"
  shows "fullUriPattern (''https://'' @ h @ rest)"
  using assms by (cases h) (simp_all add: full_uri_here_def)

lemma hostWithPort_host: "hostWithPort s = Some (m1, m2) \<Longrightarrow> m1 \<noteq> [] \<and> host_char (hd m1)"
proof -
  assume a: "hostWithPort s = Some (m1, m2)"
  then obtain c t where t: "dropWhile (\<lambda>c. \<not> host_char c) s = c # t" and "m1 = takeWhile host_char (c # t)"
    by (auto simp: hostWithPort_def Let_def split: list.splits)
  moreover have "host_char c" using hd_dropWhile [of "\<lambda>c. \<not> host_char c" s] t by simp
  ultimately show ?thesis by simp
qed

lemma full_uri_host_char: "fullUriPattern s \<Longrightarrow> list_ex host_char s"
proof (induction s)
  case (Cons c cs)
  have "list_ex host_char (c # cs)" if "full_uri_here (c # cs)"
    using that by (auto simp: full_uri_here_def prefix_def host_char_def)
  with Cons show ?case by auto
qed simp

lemma hostWithPort_None: "hostWithPort s = None \<longleftrightarrow> \<not> list_ex host_char s"
  by (induction s) (auto simp: hostWithPort_def Let_def)

lemma AutoRepair_pattern:
  "fullUriPattern (conf_EndpointURI (AutoRepair d c)) = list_ex host_char (conf_EndpointURI c)"
proof (cases "fullUriPattern (conf_EndpointURI c)")
  case True
  then show ?thesis by (simp add: AutoRepair_def full_uri_host_char)
next
  case False
  show ?thesis
  proof (cases "hostWithPort (conf_EndpointURI c)")
    case None
    then have "\<not> list_ex host_char (conf_EndpointURI c)" by (simp add: hostWithPort_None)
    with None False show ?thesis by (simp add: AutoRepair_def)
  next
    case (Some p)
    obtain m1 m2 where p: "p = (m1, m2)" by (cases p)
    have "fullUriPattern (conf_EndpointURI (AutoRepair d c))"
      using hostWithPort_host [of "conf_EndpointURI c" m1 m2] False Some p full_uri_https [of m1]
      by (simp add: AutoRepair_def Let_def)
    moreover have "list_ex host_char (conf_EndpointURI c)" using Some hostWithPort_None by (metis option.distinct(1))
    ultimately show ?thesis by simp
  qed
qed

text \<open>
  The repair of the server's address: a second repair changes nothing, and the result is an
  address with a scheme and a host exactly if the given one holds anything but colons and slashes.
\<close>

lemma AutoRepair_stable:
  "AutoRepair d (AutoRepair d c) = AutoRepair d c \<and>
   fullUriPattern (conf_EndpointURI (AutoRepair d c)) = list_ex host_char (conf_EndpointURI c)"
proof -
  have "AutoRepair d (AutoRepair d c) = AutoRepair d c"
  proof (cases "list_ex host_char (conf_EndpointURI c)")
    case True
    then have "fullUriPattern (conf_EndpointURI (AutoRepair d c))" by (simp add: AutoRepair_pattern)
    then show ?thesis by (simp add: AutoRepair_def [of d "AutoRepair d c"])
  next
    case False
    then have "AutoRepair d c = c" using hostWithPort_None [of "conf_EndpointURI c"] by (simp add: AutoRepair_def)
    then show ?thesis by simp
  qed
  then show ?thesis by (simp add: AutoRepair_pattern)
qed

end
