(* ===== verification/Server_State.thy ===== *)
theory Server_State
  imports Clients Http_Check_Store Notifications Conf
begin

text \<open>
  The state of the server process: the fields of \<open>Server\<close> (server.go), the consensus requests
  (consensus.go) and the coordinator entries (execution_coordinator.go) with the heaps their
  pointers lead to, and the goroutines that have been started and have not run yet.
\<close>

section \<open>Consensus requests\<close>

text \<open>
  The callbacks of a request: the notification that server.go registers, or the closure of an
  http check that sends on its channel \<open>done\<close>.
\<close>

datatype callback = FinishedNotification | HttpCheckDone ref

record consensus_request =
  cr_Id :: string
  cr_TemplateId :: string
  cr_ClientIds :: "string list"
  cr_RequestUserId :: string
  cr_Reason :: string
  cr_ApproveUserIds :: "(string, bool) gomap"
  cr_Executed :: bool
  cr_CreateTime :: int
  cr_StartTime :: int
  cr_CompleteTime :: int
  cr_Callbacks :: "callback list"

record consensus =
  con_Pending :: "(string, ref) gomap"
  con_heap :: "consensus_request heap"
  con_file :: "(string, consensus_request) gomap stored"

definition newConsensusRequest :: "string \<Rightarrow> time \<Rightarrow> consensus_request" where
  "newConsensusRequest uid now =
     \<lparr>cr_Id = uid, cr_TemplateId = [], cr_ClientIds = [], cr_RequestUserId = [], cr_Reason = [],
      cr_ApproveUserIds = [], cr_Executed = False, cr_CreateTime = unix now, cr_StartTime = 0,
      cr_CompleteTime = 0, cr_Callbacks = []\<rparr>"

section \<open>Coordinator entries\<close>

record pending_client_cmd =
  pc_Client :: ref
  pc_Cmd :: cmd

record coordinator_entry =
  ece_Id :: string
  ece_cmds :: "pending_client_cmd list"
  ece_strategy :: execution_strategy
  ece_iteration :: nat

record coordinator =
  ec_Active :: "(string, ref) gomap"
  ec_heap :: "coordinator_entry heap"

section \<open>The server\<close>

text \<open>
  Goroutines that the code starts with \<open>go\<close>: the submission of one command of a batch, a call
  of \<open>Next\<close>, and a callback of a consensus request.
\<close>

datatype task =
    TSubmit ref cmd ref
  | TNext ref
  | TCallback callback ref

text \<open>
  \<open>srv_done\<close>: the number of values in each \<open>done\<close> channel of an http check (capacity 1). \<open>srv_audit\<close>: the
  lines of the audit log since the start of the process, oldest first.
\<close>

record server =
  srv_clients :: client_store
  srv_userStore :: user_store
  srv_templateStore :: template_store
  srv_consensus :: consensus
  srv_executionCoordinator :: coordinator
  srv_httpCheckStore :: http_check_store
  srv_notifications :: notification_manager
  srv_InstanceId :: string
  srv_tasks :: "task list"
  srv_done :: "nat heap"
  srv_audit :: "string list"

abbreviation get_request :: "server \<Rightarrow> ref \<Rightarrow> consensus_request option" where
  "get_request s r \<equiv> h_get (con_heap (srv_consensus s)) r"

abbreviation get_entry :: "server \<Rightarrow> ref \<Rightarrow> coordinator_entry option" where
  "get_entry s r \<equiv> h_get (ec_heap (srv_executionCoordinator s)) r"

definition upd_request :: "ref \<Rightarrow> (consensus_request \<Rightarrow> consensus_request) \<Rightarrow> server \<Rightarrow> server" where
  "upd_request r f s =
     s\<lparr>srv_consensus := (srv_consensus s)\<lparr>con_heap := h_upd r f (con_heap (srv_consensus s))\<rparr>\<rparr>"

definition upd_entry :: "ref \<Rightarrow> (coordinator_entry \<Rightarrow> coordinator_entry) \<Rightarrow> server \<Rightarrow> server" where
  "upd_entry r f s =
     s\<lparr>srv_executionCoordinator := (srv_executionCoordinator s)
         \<lparr>ec_heap := h_upd r f (ec_heap (srv_executionCoordinator s))\<rparr>\<rparr>"

definition start_tasks :: "task list \<Rightarrow> server \<Rightarrow> server" where
  "start_tasks ts s = s\<lparr>srv_tasks := srv_tasks s @ ts\<rparr>"

definition on_clients :: "(client_store \<Rightarrow> client_store) \<Rightarrow> server \<Rightarrow> server" where
  "on_clients f s = s\<lparr>srv_clients := f (srv_clients s)\<rparr>"

definition on_users :: "(user_store \<Rightarrow> user_store) \<Rightarrow> server \<Rightarrow> server" where
  "on_users f s = s\<lparr>srv_userStore := f (srv_userStore s)\<rparr>"

definition on_templates :: "(template_store \<Rightarrow> template_store) \<Rightarrow> server \<Rightarrow> server" where
  "on_templates f s = s\<lparr>srv_templateStore := f (srv_templateStore s)\<rparr>"

definition notify :: "message \<Rightarrow> server \<Rightarrow> server" where
  "notify msg s = s\<lparr>srv_notifications := Notify msg (srv_notifications s)\<rparr>"

text \<open>\<open>Log\<close> of audit.go: one line, from the user's session if there is a user.\<close>

definition Audit_Log :: "user option \<Rightarrow> string \<Rightarrow> string \<Rightarrow> string" where
  "Audit_Log usr title msg =
     TrimSpace (Join ((case usr of None \<Rightarrow> [] | Some u \<Rightarrow> [user_SessionIpAddress u, user_Username u]) @ [title, msg]) '' '')"

definition audit :: "user option \<Rightarrow> string \<Rightarrow> string \<Rightarrow> server \<Rightarrow> server" where
  "audit usr title msg s = s\<lparr>srv_audit := srv_audit s @ [Audit_Log usr title msg]\<rparr>"

text \<open>
  A panic unwinds the goroutine: the state it leaves is part of the result. In a handler the
  http package recovers and the server goes on; in a goroutine of its own the process ends.
\<close>

type_synonym 'a outcome = "(panic + 'a) \<times> server"

section \<open>Frame rules\<close>

lemma upd_request_simps [simp, go_simps]:
  "srv_clients (upd_request r f s) = srv_clients s" "srv_userStore (upd_request r f s) = srv_userStore s"
  "srv_templateStore (upd_request r f s) = srv_templateStore s"
  "con_Pending (srv_consensus (upd_request r f s)) = con_Pending (srv_consensus s)"
  "con_file (srv_consensus (upd_request r f s)) = con_file (srv_consensus s)"
  "length (con_heap (srv_consensus (upd_request r f s))) = length (con_heap (srv_consensus s))"
  "srv_executionCoordinator (upd_request r f s) = srv_executionCoordinator s"
  "srv_httpCheckStore (upd_request r f s) = srv_httpCheckStore s"
  "srv_notifications (upd_request r f s) = srv_notifications s"
  "srv_tasks (upd_request r f s) = srv_tasks s" "srv_done (upd_request r f s) = srv_done s" "srv_audit (upd_request r f s) = srv_audit s"
  "get_request (upd_request r f s) r' = (if r' = r then map_option f (get_request s r) else get_request s r')"
  by (simp_all add: upd_request_def)

lemma upd_entry_simps [simp, go_simps]:
  "srv_clients (upd_entry r g s) = srv_clients s" "srv_userStore (upd_entry r g s) = srv_userStore s"
  "srv_templateStore (upd_entry r g s) = srv_templateStore s" "srv_consensus (upd_entry r g s) = srv_consensus s"
  "ec_Active (srv_executionCoordinator (upd_entry r g s)) = ec_Active (srv_executionCoordinator s)"
  "length (ec_heap (srv_executionCoordinator (upd_entry r g s))) = length (ec_heap (srv_executionCoordinator s))"
  "srv_httpCheckStore (upd_entry r g s) = srv_httpCheckStore s"
  "srv_notifications (upd_entry r g s) = srv_notifications s"
  "srv_tasks (upd_entry r g s) = srv_tasks s" "srv_done (upd_entry r g s) = srv_done s" "srv_audit (upd_entry r g s) = srv_audit s"
  "get_entry (upd_entry r g s) r' = (if r' = r then map_option g (get_entry s r) else get_entry s r')"
  by (simp_all add: upd_entry_def)

lemma start_tasks_simps [simp, go_simps]:
  "srv_clients (start_tasks ts s) = srv_clients s" "srv_userStore (start_tasks ts s) = srv_userStore s"
  "srv_templateStore (start_tasks ts s) = srv_templateStore s" "srv_consensus (start_tasks ts s) = srv_consensus s"
  "srv_executionCoordinator (start_tasks ts s) = srv_executionCoordinator s"
  "srv_httpCheckStore (start_tasks ts s) = srv_httpCheckStore s"
  "srv_notifications (start_tasks ts s) = srv_notifications s"
  "srv_tasks (start_tasks ts s) = srv_tasks s @ ts" "srv_done (start_tasks ts s) = srv_done s" "srv_audit (start_tasks ts s) = srv_audit s"
  by (simp_all add: start_tasks_def)

lemma on_clients_simps [simp, go_simps]:
  "srv_clients (on_clients h s) = h (srv_clients s)" "srv_userStore (on_clients h s) = srv_userStore s"
  "srv_templateStore (on_clients h s) = srv_templateStore s" "srv_consensus (on_clients h s) = srv_consensus s"
  "srv_executionCoordinator (on_clients h s) = srv_executionCoordinator s"
  "srv_httpCheckStore (on_clients h s) = srv_httpCheckStore s"
  "srv_notifications (on_clients h s) = srv_notifications s"
  "srv_tasks (on_clients h s) = srv_tasks s" "srv_done (on_clients h s) = srv_done s" "srv_audit (on_clients h s) = srv_audit s"
  by (simp_all add: on_clients_def)

lemma on_users_simps [simp, go_simps]:
  "srv_clients (on_users u s) = srv_clients s" "srv_userStore (on_users u s) = u (srv_userStore s)"
  "srv_templateStore (on_users u s) = srv_templateStore s" "srv_consensus (on_users u s) = srv_consensus s"
  "srv_executionCoordinator (on_users u s) = srv_executionCoordinator s"
  "srv_httpCheckStore (on_users u s) = srv_httpCheckStore s"
  "srv_notifications (on_users u s) = srv_notifications s"
  "srv_tasks (on_users u s) = srv_tasks s" "srv_done (on_users u s) = srv_done s" "srv_audit (on_users u s) = srv_audit s"
  by (simp_all add: on_users_def)

lemma on_templates_simps [simp, go_simps]:
  "srv_clients (on_templates v s) = srv_clients s" "srv_userStore (on_templates v s) = srv_userStore s"
  "srv_templateStore (on_templates v s) = v (srv_templateStore s)" "srv_consensus (on_templates v s) = srv_consensus s"
  "srv_executionCoordinator (on_templates v s) = srv_executionCoordinator s"
  "srv_httpCheckStore (on_templates v s) = srv_httpCheckStore s"
  "srv_notifications (on_templates v s) = srv_notifications s"
  "srv_tasks (on_templates v s) = srv_tasks s" "srv_done (on_templates v s) = srv_done s" "srv_audit (on_templates v s) = srv_audit s"
  by (simp_all add: on_templates_def)

lemma notify_simps [simp, go_simps]:
  "srv_clients (notify m s) = srv_clients s" "srv_userStore (notify m s) = srv_userStore s"
  "srv_templateStore (notify m s) = srv_templateStore s" "srv_consensus (notify m s) = srv_consensus s"
  "srv_executionCoordinator (notify m s) = srv_executionCoordinator s"
  "srv_httpCheckStore (notify m s) = srv_httpCheckStore s"
  "srv_notifications (notify m s) = Notify m (srv_notifications s)"
  "srv_tasks (notify m s) = srv_tasks s" "srv_done (notify m s) = srv_done s" "srv_audit (notify m s) = srv_audit s"
  by (simp_all add: notify_def)

lemma audit_simps [simp, go_simps]:
  "srv_clients (audit usr title m s) = srv_clients s" "srv_userStore (audit usr title m s) = srv_userStore s"
  "srv_templateStore (audit usr title m s) = srv_templateStore s" "srv_consensus (audit usr title m s) = srv_consensus s"
  "srv_executionCoordinator (audit usr title m s) = srv_executionCoordinator s"
  "srv_httpCheckStore (audit usr title m s) = srv_httpCheckStore s"
  "srv_notifications (audit usr title m s) = srv_notifications s" "srv_InstanceId (audit usr title m s) = srv_InstanceId s"
  "srv_tasks (audit usr title m s) = srv_tasks s" "srv_done (audit usr title m s) = srv_done s"
  "srv_audit (audit usr title m s) = srv_audit s @ [Audit_Log usr title m]"
  by (simp_all add: audit_def)

end
