(* ===== verification/Coordinator.thy ===== *)
theory Coordinator
  imports Server_State
begin

text \<open>
  execution_coordinator.go and the \<open>Execute\<close> method of execution_strategy.go: how the commands
  of an approved request are started batch by batch.
\<close>

section \<open>The coordinator's map\<close>

definition Coordinator_Get :: "server \<Rightarrow> string \<Rightarrow> ref option" where
  "Coordinator_Get s consensusRequestId =
     gm_get (ec_Active (srv_executionCoordinator s)) consensusRequestId"

definition Coordinator_Add ::
  "string \<Rightarrow> execution_strategy \<Rightarrow> pending_client_cmd list \<Rightarrow> server \<Rightarrow> server"
where
  "Coordinator_Add consensusRequestId strategy cmds s =
     (let e = srv_executionCoordinator s;
          entry = \<lparr>ece_Id = consensusRequestId, ece_cmds = cmds, ece_strategy = strategy,
                   ece_iteration = 0\<rparr>
      in s\<lparr>srv_executionCoordinator :=
             e\<lparr>ec_heap := ec_heap e @ [entry],
               ec_Active := gm_set consensusRequestId (length (ec_heap e)) (ec_Active e)\<rparr>\<rparr>)"

definition Consensus_Get :: "server \<Rightarrow> string \<Rightarrow> ref option" where
  "Consensus_Get s i = gm_get (con_Pending (srv_consensus s)) i"

section \<open>Next\<close>

definition ExecuteCallbacks :: "coordinator_entry \<Rightarrow> server \<Rightarrow> unit outcome" where
  "ExecuteCallbacks ece s =
     (case Consensus_Get s (ece_Id ece) of
        None \<Rightarrow> (Inl NilDeref, s)
      | Some r \<Rightarrow>
          (case get_request s r of
             None \<Rightarrow> (Inl NilDeref, s)
           | Some cr \<Rightarrow> (Inr (), start_tasks (map (\<lambda>cb. TCallback cb r) (cr_Callbacks cr)) s)))"

text \<open>A command that belongs to the batch that the entry started last.\<close>

definition in_batch :: "coordinator_entry \<Rightarrow> cmd \<Rightarrow> bool" where
  "in_batch ece cmd \<longleftrightarrow>
     cmd_ConsensusRequestId cmd = ece_Id ece \<and> cmd_ExecutionIterationId cmd = ece_iteration ece"

definition allFinished :: "coordinator_entry \<Rightarrow> client_store \<Rightarrow> bool" where
  "allFinished ece s =
     list_all (\<lambda>(_, r). case get_client s r of
        None \<Rightarrow> True
      | Some client \<Rightarrow>
          list_all (\<lambda>(_, c). case get_cmd s c of
             None \<Rightarrow> True
           | Some cmd \<Rightarrow> in_batch ece cmd \<longrightarrow> cmd_State cmd = ''finished'')
          (rc_DispatchedCmds client))
     (cs_clients s)"

text \<open>
  \<open>int(math.Pow(2, float64(i)))\<close> for a 64-bit int. Powers from \<open>2 ^ 63\<close> on do not fit; the
  conversion then yields the least integer on amd64.
\<close>

definition int_pow2 :: "nat \<Rightarrow> int" where
  "int_pow2 i = (if i < 63 then 2 ^ i else - (2 ^ 63))"

definition cmdsToStart :: "coordinator_entry \<Rightarrow> int option" where
  "cmdsToStart ece =
     (let strategy = es_Strategy (ece_strategy ece); n = int (length (ece_cmds ece))
      in if strategy = SimpleExecutionStrategy then Some n
         else if strategy = OneTestExecutionStrategy then
           (if ece_iteration ece = 0 then Some 1 else Some n)
         else if strategy = RollingExecutionStrategy then Some 1
         else if strategy = ExponentialRollingExecutionStrategy then
           (let c = int_pow2 (ece_iteration ece) in Some (if c > n then n else c))
         else None)"

text \<open>
  The loop that starts the batch: the last command of the slice is handed to a goroutine and
  cut off. The goroutine keeps the pointer to the entry.
\<close>

fun start_loop :: "nat \<Rightarrow> ref \<Rightarrow> server \<Rightarrow> unit outcome" where
  "start_loop 0 er s = (Inr (), s)"
| "start_loop (Suc n) er s =
     (case get_entry s er of
        None \<Rightarrow> (Inl NilDeref, s)
      | Some ece \<Rightarrow>
          if ece_cmds ece = [] then (Inl IndexOutOfRange, s)
          else
            let cmd = last (ece_cmds ece);
                s = start_tasks [TSubmit (pc_Client cmd) (pc_Cmd cmd) er] s;
                s = upd_entry er (\<lambda>e. e\<lparr>ece_cmds := butlast (ece_cmds e)\<rparr>) s
            in start_loop n er s)"

definition Next :: "ref \<Rightarrow> server \<Rightarrow> unit outcome" where
  "Next er s =
     (case get_entry s er of
        None \<Rightarrow> (Inl NilDeref, s)
      | Some ece \<Rightarrow>
          let finished = allFinished ece (srv_clients s)
          in if length (ece_cmds ece) = 0 then
               (if finished then ExecuteCallbacks ece s else (Inr (), s))
             else if finished = False then (Inr (), s)
             else (case cmdsToStart ece of
                None \<Rightarrow> (Inl NotYetSupported, s)
              | Some n \<Rightarrow>
                  (case start_loop (nat n) er s of
                     (Inl p, s) \<Rightarrow> (Inl p, s)
                   | (Inr _, s) \<Rightarrow>
                       (Inr (), upd_entry er (\<lambda>e. e\<lparr>ece_iteration := ece_iteration e + 1\<rparr>) s))))"

section \<open>Goroutines\<close>

text \<open>
  The goroutine of one command: it copies the command, stamps it with the entry's iteration as
  it is when the goroutine runs, and submits the copy.
\<close>

definition audit_submit :: "ref \<Rightarrow> cmd \<Rightarrow> server \<Rightarrow> server" where
  "audit_submit client cmd s =
     (case h_get (cs_heap (srv_clients s)) client of
        None \<Rightarrow> s
      | Some c \<Rightarrow> audit None ''Execute'' (''Command '' @ [CHR 0x27] @ cmd_Command cmd @ [CHR 0x27] @ '' on client '' @ rc_ClientId c @ '' with id '' @ cmd_Id cmd) s)"

lemma audit_submit_simps [simp, go_simps]:
  "srv_clients (audit_submit i c s) = srv_clients s" "srv_userStore (audit_submit i c s) = srv_userStore s"
  "srv_templateStore (audit_submit i c s) = srv_templateStore s" "srv_consensus (audit_submit i c s) = srv_consensus s"
  "srv_executionCoordinator (audit_submit i c s) = srv_executionCoordinator s"
  "srv_httpCheckStore (audit_submit i c s) = srv_httpCheckStore s"
  "srv_notifications (audit_submit i c s) = srv_notifications s" "srv_InstanceId (audit_submit i c s) = srv_InstanceId s"
  "srv_tasks (audit_submit i c s) = srv_tasks s" "srv_done (audit_submit i c s) = srv_done s"
  by (simp_all add: audit_submit_def split: option.split)

definition run_submit :: "ref \<Rightarrow> cmd \<Rightarrow> ref \<Rightarrow> server \<Rightarrow> unit outcome" where
  "run_submit client cmd er s =
     (case get_entry s er of
        None \<Rightarrow> (Inl NilDeref, s)
      | Some ece \<Rightarrow>
          let c = cmd\<lparr>cmd_ExecutionIterationId := ece_iteration ece\<rparr>
          in (Inr (), audit_submit client c (on_clients (Submit client c) s)))"

section \<open>Execute\<close>

definition request_template :: "server \<Rightarrow> consensus_request \<Rightarrow> template option" where
  "request_template s c = gm_get (ts_Templates (srv_templateStore s)) (cr_TemplateId c)"

text \<open>The command for one client; \<open>k\<close> counts the identifiers drawn so far.\<close>

definition assemble_cmd ::
  "env \<Rightarrow> nat \<Rightarrow> template \<Rightarrow> consensus_request \<Rightarrow> registered_client \<Rightarrow> cmd"
where
  "assemble_cmd e k template c client =
     (let cmd = newCmd (env_uuid e k) (env_now e) (tmpl_Command template) (tmpl_Timeout template);
          cmd = cmd\<lparr>cmd_ConsensusRequestId := cr_Id c, cmd_TemplateId := tmpl_Id template,
                    cmd_ClientId := rc_ClientId client, cmd_RequestUserId := cr_RequestUserId c\<rparr>
      in Sign (rc_AuthToken client) cmd)"

fun assemble_cmds ::
  "env \<Rightarrow> nat \<Rightarrow> template option \<Rightarrow> consensus_request \<Rightarrow> client_store \<Rightarrow> string list \<Rightarrow>
   panic + pending_client_cmd list"
where
  "assemble_cmds e k template c s [] = Inr []"
| "assemble_cmds e k template c s (clientId # clientIds) =
     (case GetClient s clientId of
        None \<Rightarrow> assemble_cmds e k template c s clientIds
      | Some r \<Rightarrow>
          (case (get_client s r, template) of
             (Some client, Some t) \<Rightarrow>
               (case assemble_cmds e (Suc k) template c s clientIds of
                  Inl p \<Rightarrow> Inl p
                | Inr ps \<Rightarrow> Inr (\<lparr>pc_Client = r, pc_Cmd = assemble_cmd e k t c client\<rparr> # ps))
           | _ \<Rightarrow> Inl NilDeref))"

definition Execute :: "env \<Rightarrow> execution_strategy \<Rightarrow> ref \<Rightarrow> server \<Rightarrow> bool outcome" where
  "Execute e strategy crr s =
     (case get_request s crr of
        None \<Rightarrow> (Inl NilDeref, s)
      | Some c \<Rightarrow>
          (case assemble_cmds e 1 (request_template s c) c (srv_clients s) (cr_ClientIds c) of
             Inl p \<Rightarrow> (Inl p, s)
           | Inr clientCmds \<Rightarrow>
               let s = Coordinator_Add (cr_Id c) strategy clientCmds s
               in (case Coordinator_Get s (cr_Id c) of
                     None \<Rightarrow> (Inl NilDeref, s)
                   | Some er \<Rightarrow>
                       (case Next er s of
                          (Inl p, s) \<Rightarrow> (Inl p, s)
                        | (Inr _, s) \<Rightarrow> (Inr True, s)))))"

end
