(* ===== verification/Consensus_Requests.thy ===== *)
theory Consensus_Requests
  imports Coordinator
begin

text \<open>
  consensus.go: voting on a request, its single execution, its cancellation, and the store of
  pending requests with its file.
\<close>

section \<open>One request\<close>

text \<open>The loop of \<open>Delete\<close> over the registered clients; the command objects stay.\<close>

definition cmd_of_request :: "client_store \<Rightarrow> string \<Rightarrow> ref \<Rightarrow> bool" where
  "cmd_of_request s i r = (case get_cmd s r of None \<Rightarrow> False | Some cmd \<Rightarrow> cmd_ConsensusRequestId cmd = i)"

definition delete_child_cmds :: "string \<Rightarrow> client_store \<Rightarrow> client_store" where
  "delete_child_cmds i s =
     foldl (\<lambda>s (_, r). upd_client r (\<lambda>c. c\<lparr>rc_DispatchedCmds :=
        filter (\<lambda>(_, d). \<not> cmd_of_request s i d) (rc_DispatchedCmds c)\<rparr>) s) s (cs_clients s)"

definition Request_Delete :: "ref \<Rightarrow> server \<Rightarrow> bool outcome" where
  "Request_Delete crr s =
     (case get_request s crr of
        None \<Rightarrow> (Inl NilDeref, s)
      | Some c \<Rightarrow>
          let s = on_clients (delete_child_cmds (cr_Id c)) s
          in (Inr True,
              s\<lparr>srv_consensus := (srv_consensus s)
                  \<lparr>con_Pending := gm_del (cr_Id c) (con_Pending (srv_consensus s))\<rparr>\<rparr>))"

text \<open>A line of the audit log on a request.\<close>

definition audit_request :: "string \<Rightarrow> user \<Rightarrow> ref \<Rightarrow> server \<Rightarrow> server" where
  "audit_request verb user crr s =
     (case get_request s crr of None \<Rightarrow> s | Some c \<Rightarrow> audit (Some user) ''Consensus'' (verb @ cr_Id c) s)"

lemma audit_request_simps [simp, go_simps]:
  "srv_clients (audit_request v u r s) = srv_clients s" "srv_userStore (audit_request v u r s) = srv_userStore s"
  "srv_templateStore (audit_request v u r s) = srv_templateStore s" "srv_consensus (audit_request v u r s) = srv_consensus s"
  "srv_executionCoordinator (audit_request v u r s) = srv_executionCoordinator s"
  "srv_httpCheckStore (audit_request v u r s) = srv_httpCheckStore s"
  "srv_notifications (audit_request v u r s) = srv_notifications s" "srv_InstanceId (audit_request v u r s) = srv_InstanceId s"
  "srv_tasks (audit_request v u r s) = srv_tasks s" "srv_done (audit_request v u r s) = srv_done s"
  by (simp_all add: audit_request_def split: option.split)

definition Request_Cancel :: "user \<Rightarrow> ref \<Rightarrow> server \<Rightarrow> bool outcome" where
  "Request_Cancel user crr s = Request_Delete crr (audit_request ''Cancel '' user crr s)"

definition Request_AddCallback :: "callback \<Rightarrow> ref \<Rightarrow> server \<Rightarrow> server" where
  "Request_AddCallback cb crr s = upd_request crr (\<lambda>c. c\<lparr>cr_Callbacks := cr_Callbacks c @ [cb]\<rparr>) s"

definition Request_start :: "env \<Rightarrow> ref \<Rightarrow> server \<Rightarrow> bool outcome" where
  "Request_start e crr s =
     (case get_request s crr of
        None \<Rightarrow> (Inl NilDeref, s)
      | Some c \<Rightarrow>
          (case request_template s c of
             None \<Rightarrow> (Inr False, s)
           | Some template \<Rightarrow>
               if cr_Executed c then (Inr False, s)
               else
                 let s = upd_request crr (\<lambda>c. c\<lparr>cr_Executed := True\<rparr>) s
                 in (case GetExecutionStrategy template of
                       None \<Rightarrow> (Inr False, s)
                     | Some strategy \<Rightarrow>
                         let s = upd_request crr (\<lambda>c. c\<lparr>cr_StartTime := unix (env_now e)\<rparr>) s
                         in (case Execute e strategy crr s of
                               (Inl p, s) \<Rightarrow> (Inl p, s)
                             | (Inr _, s) \<Rightarrow>
                                 (Inr True,
                                  upd_request crr (\<lambda>c. c\<lparr>cr_CompleteTime := unix (env_now e)\<rparr>) s)))))"

text \<open>The vote count of a request: the requester and everyone who approved.\<close>

definition voteCount :: "consensus_request \<Rightarrow> nat" where
  "voteCount c = 1 + length (cr_ApproveUserIds c)"

definition Request_check :: "env \<Rightarrow> ref \<Rightarrow> server \<Rightarrow> bool outcome" where
  "Request_check e crr s =
     (case get_request s crr of
        None \<Rightarrow> (Inl NilDeref, s)
      | Some c \<Rightarrow>
          (case request_template s c of
             None \<Rightarrow> (Inr False, s)
           | Some template \<Rightarrow>
               if (of_nat (voteCount c) :: 64 word) < acl_MinAuth (tmpl_Acl template)
               then (Inr False, s)
               else Request_start e crr s))"

definition Request_Approve :: "env \<Rightarrow> user \<Rightarrow> ref \<Rightarrow> server \<Rightarrow> bool outcome" where
  "Request_Approve e user crr s =
     (case get_request s crr of
        None \<Rightarrow> (Inl NilDeref, s)
      | Some c \<Rightarrow>
          if cr_RequestUserId c = user_Id user then (Inr False, s)
          else if gm_true (cr_ApproveUserIds c) (user_Id user) then (Inr False, s)
          else
            let s = upd_request crr
                 (\<lambda>c. c\<lparr>cr_ApproveUserIds := gm_set (user_Id user) True (cr_ApproveUserIds c)\<rparr>) s;
                s = audit_request ''Approve '' user crr s
            in (case Request_check e crr s of
                  (Inl p, s) \<Rightarrow> (Inl p, s)
                | (Inr _, s) \<Rightarrow> (Inr True, s)))"

section \<open>The store of pending requests\<close>

text \<open>Requests older than fourteen days are dropped; callbacks are not part of the file.\<close>

definition recent_request :: "env \<Rightarrow> server \<Rightarrow> ref \<Rightarrow> bool" where
  "recent_request e s r =
     (case get_request s r of None \<Rightarrow> False | Some c \<Rightarrow> \<not> cr_CreateTime c < max_age (env_now e))"

definition request_on_disk :: "server \<Rightarrow> string \<times> ref \<Rightarrow> (string \<times> consensus_request) option" where
  "request_on_disk s kr =
     map_option (\<lambda>c. (fst kr, c\<lparr>cr_Callbacks := []\<rparr>)) (get_request s (snd kr))"

definition consensus_save :: "env \<Rightarrow> server \<Rightarrow> server" where
  "consensus_save e s =
     (let c = srv_consensus s;
          newPending = filter (\<lambda>(_, r). recent_request e s r) (con_Pending c)
      in s\<lparr>srv_consensus := c\<lparr>con_Pending := newPending,
             con_file := write_file (env_write e) (List.map_filter (request_on_disk s) newPending)
               (con_file c)\<rparr>\<rparr>)"

definition consensus_load :: "consensus \<Rightarrow> consensus" where
  "consensus_load c =
     (case con_file c of
        Json v \<Rightarrow> c\<lparr>con_Pending := zip (map fst v) [length (con_heap c) ..< length (con_heap c) + length v],
                   con_heap := con_heap c @ map snd v\<rparr>
      | _ \<Rightarrow> c)"

definition newConsensus :: "(string, consensus_request) gomap stored \<Rightarrow> consensus" where
  "newConsensus f = consensus_load \<lparr>con_Pending = [], con_heap = [], con_file = f\<rparr>"

definition request_message :: "consensus_request \<Rightarrow> string" where
  "request_message cr = ''Request '' @ cr_Id cr @ '', reason: '' @ cr_Reason cr"

definition AddRequest ::
  "conf \<Rightarrow> env \<Rightarrow> string \<Rightarrow> string list \<Rightarrow> user \<Rightarrow> string \<Rightarrow> server \<Rightarrow> ref option \<times> server"
where
  "AddRequest cf e templateId clientIds user reason s =
     (if \<not> HasRole user ''requester'' then (None, s)
      else
        let cr = (newConsensusRequest (env_uuid e 0) (env_now e))
              \<lparr>cr_TemplateId := templateId, cr_ClientIds := clientIds,
               cr_RequestUserId := user_Id user, cr_Reason := reason\<rparr>;
            s = audit (Some user) ''Consensus'' (request_message cr) s;
            c = srv_consensus s;
            r = length (con_heap c);
            s = s\<lparr>srv_consensus := c\<lparr>con_heap := con_heap c @ [cr],
                                    con_Pending := gm_set (cr_Id cr) r (con_Pending c)\<rparr>\<rparr>;
            s = notify \<lparr>msg_Content = request_message cr, msg_Type = NEW_CONSENSUS,
                        msg_Url = ServerRequest cf ''/console/#!pending''\<rparr> s
        in (Some r, s))"

section \<open>Callbacks\<close>

definition finished_message :: "conf \<Rightarrow> consensus_request \<Rightarrow> message" where
  "finished_message cf cr =
     \<lparr>msg_Content = ''Consesnsus request(id: '' @ cr_Id cr @ '') finished within ''
        @ itoa (cr_CompleteTime cr - cr_StartTime cr) @ '' s'',
      msg_Type = EXECUTION_DONE, msg_Url = ServerRequest cf ''/console/#!history''\<rparr>"

text \<open>
  Running a callback. \<open>None\<close>: the send on a full \<open>done\<close> channel blocks, the goroutine stays.
\<close>

definition run_callback :: "conf \<Rightarrow> callback \<Rightarrow> ref \<Rightarrow> server \<Rightarrow> unit outcome option" where
  "run_callback cf cb crr s =
     (case cb of
        FinishedNotification \<Rightarrow>
          (case get_request s crr of
             None \<Rightarrow> Some (Inl NilDeref, s)
           | Some cr \<Rightarrow> Some (Inr (), notify (finished_message cf cr) s))
      | HttpCheckDone ch \<Rightarrow>
          (case h_get (srv_done s) ch of
             None \<Rightarrow> Some (Inl NilDeref, s)
           | Some n \<Rightarrow>
               if n < 1 then Some (Inr (), s\<lparr>srv_done := h_upd ch Suc (srv_done s)\<rparr>) else None))"

text \<open>Running a goroutine that the server has started.\<close>

definition run_task :: "conf \<Rightarrow> task \<Rightarrow> server \<Rightarrow> unit outcome option" where
  "run_task cf t s =
     (case t of
        TSubmit client cmd er \<Rightarrow> Some (run_submit client cmd er s)
      | TNext er \<Rightarrow> Some (Next er s)
      | TCallback cb crr \<Rightarrow> run_callback cf cb crr s)"

end
