(* ===== verification/Command_State.thy ===== *)
theory Command_State
  imports Consensus_Requests
begin

text \<open>
  \<open>SetState\<close> and \<open>_validate\<close> of cmd.go on the server: the state machine of a dispatched
  command, driven by the reports of its client.
\<close>

definition set_cmd_state :: "ref \<Rightarrow> string \<Rightarrow> server \<Rightarrow> server" where
  "set_cmd_state r state s = on_clients (upd_cmd r (\<lambda>c. c\<lparr>cmd_State := state\<rparr>)) s"

function SetState :: "conf \<Rightarrow> ref \<Rightarrow> string \<Rightarrow> server \<Rightarrow> server"
  and validate_cmd :: "conf \<Rightarrow> ref \<Rightarrow> server \<Rightarrow> server"
where
  "SetState cf r state s =
     (case get_cmd (srv_clients s) r of
        None \<Rightarrow> s
      | Some c \<Rightarrow>
          let oldState = cmd_State c;
              s = set_cmd_state r state s
          in if oldState = ''finished_execution'' \<and> state = ''flushed_logs'' then validate_cmd cf r s
             else if oldState = ''failed_execution'' \<and> state = ''flushed_logs''
             then set_cmd_state r ''failed'' s
             else s)"
| "validate_cmd cf r s =
     (if \<not> conf_ServerEnabled cf then s
      else case get_cmd (srv_clients s) r of
        None \<Rightarrow> s
      | Some c \<Rightarrow>
          (case TemplateStore_Get (srv_templateStore s) (cmd_TemplateId c) of
             None \<Rightarrow> s
           | Some template \<Rightarrow>
               if failed_validation (tmpl_ValidationRules template) c
               then SetState cf r ''failed_validation'' s
               else
                 let s = SetState cf r ''finished'' s
                 in (case Coordinator_Get s (cmd_ConsensusRequestId c) of
                       None \<Rightarrow> s
                     | Some ece \<Rightarrow> start_tasks [TNext ece] s)))"
  by pat_completeness auto
termination
  by (relation "measure (\<lambda>x. case x of
        Inl (cf, r, state, s) \<Rightarrow> if state = ''flushed_logs'' then 2 else 0
      | Inr (cf, r, s) \<Rightarrow> 1)") (auto split: sum.splits prod.splits)

declare SetState.simps [simp del] validate_cmd.simps [simp del]

section \<open>The states a report leads to\<close>

abbreviation cmd_state :: "server \<Rightarrow> ref \<Rightarrow> string option" where
  "cmd_state s r \<equiv> map_option cmd_State (get_cmd (srv_clients s) r)"

lemma set_cmd_state_simps [simp, go_simps]:
  "srv_userStore (set_cmd_state r st s) = srv_userStore s"
  "srv_templateStore (set_cmd_state r st s) = srv_templateStore s"
  "srv_consensus (set_cmd_state r st s) = srv_consensus s"
  "srv_executionCoordinator (set_cmd_state r st s) = srv_executionCoordinator s"
  "srv_httpCheckStore (set_cmd_state r st s) = srv_httpCheckStore s"
  "srv_notifications (set_cmd_state r st s) = srv_notifications s"
  "srv_tasks (set_cmd_state r st s) = srv_tasks s" "srv_done (set_cmd_state r st s) = srv_done s" "srv_audit (set_cmd_state r st s) = srv_audit s"
  "cs_clients (srv_clients (set_cmd_state r st s)) = cs_clients (srv_clients s)"
  "cs_heap (srv_clients (set_cmd_state r st s)) = cs_heap (srv_clients s)"
  "get_cmd (srv_clients (set_cmd_state r st s)) r' =
     (if r' = r then map_option (\<lambda>c. c\<lparr>cmd_State := st\<rparr>) (get_cmd (srv_clients s) r) else get_cmd (srv_clients s) r')"
  by (simp_all add: set_cmd_state_def)

text \<open>
  Reports other than \<open>flushed_logs\<close> are stored as they come. The report \<open>flushed_logs\<close> closes a
  command that was executed: a failed execution is final, a finished one is judged.
\<close>

lemma SetState_other:
  assumes "state \<noteq> ''flushed_logs''" "get_cmd (srv_clients s) r = Some c"
  shows "SetState cf r state s = set_cmd_state r state s"
  using assms by (simp add: SetState.simps Let_def)

lemma SetState_failed:
  assumes "get_cmd (srv_clients s) r = Some c" "cmd_State c = ''failed_execution''"
  shows "SetState cf r ''flushed_logs'' s = set_cmd_state r ''failed'' (set_cmd_state r ''flushed_logs'' s)"
  using assms by (simp add: SetState.simps Let_def)

lemma SetState_open:
  assumes "get_cmd (srv_clients s) r = Some c" "cmd_State c \<noteq> ''failed_execution''"
    "cmd_State c \<noteq> ''finished_execution''"
  shows "SetState cf r state s = set_cmd_state r state s"
  using assms by (simp add: SetState.simps Let_def)

lemma SetState_judged:
  assumes "get_cmd (srv_clients s) r = Some c" "cmd_State c = ''finished_execution''"
  shows "SetState cf r ''flushed_logs'' s = validate_cmd cf r (set_cmd_state r ''flushed_logs'' s)"
  using assms by (simp add: SetState.simps Let_def)

lemma failed_validation_state [simp]:
  "failed_validation vs (c\<lparr>cmd_State := st\<rparr>) = failed_validation vs c"
  by (induction vs) (simp_all add: rule_stream_def Let_def)

text \<open>The verdict on a command of a template that exists, on a server.\<close>

lemma validate_eq:
  assumes "conf_ServerEnabled cf" "get_cmd (srv_clients s) r = Some c"
    "TemplateStore_Get (srv_templateStore s) (cmd_TemplateId c) = Some t"
  shows "validate_cmd cf r s =
    (if failed_validation (tmpl_ValidationRules t) c then set_cmd_state r ''failed_validation'' s
     else
       let u = set_cmd_state r ''finished'' s
       in case Coordinator_Get s (cmd_ConsensusRequestId c) of
            None \<Rightarrow> u | Some er \<Rightarrow> start_tasks [TNext er] u)"
  using assms
  by (simp add: validate_cmd.simps SetState_other [OF _ assms(2)] Let_def Coordinator_Get_def
      split: option.split)

lemma validate_noop:
  assumes "\<nexists>c t. conf_ServerEnabled cf \<and> get_cmd (srv_clients s) r = Some c \<and>
    TemplateStore_Get (srv_templateStore s) (cmd_TemplateId c) = Some t"
  shows "validate_cmd cf r s = s"
  using assms by (auto simp: validate_cmd.simps split: option.split)

text \<open>A report touches no store but the command's state, and starts at most a call of \<open>Next\<close>.\<close>

definition report_frame :: "ref \<Rightarrow> server \<Rightarrow> server \<Rightarrow> bool" where
  "report_frame r s s' \<longleftrightarrow>
     (\<exists>st ts. s' = start_tasks ts (set_cmd_state r st s) \<and>
        (\<forall>t \<in> set ts. \<exists>er i. t = TNext er \<and> Coordinator_Get s i = Some er)) \<or> s' = s"

lemma set_cmd_state_twice: "set_cmd_state r a (set_cmd_state r b s) = set_cmd_state r a s"
  by (simp add: set_cmd_state_def on_clients_def upd_cmd_def h_upd_def)

lemma start_no_tasks [simp]: "start_tasks [] s = s"
  by (simp add: start_tasks_def)

lemma report_frame_set [simp]: "report_frame r s (set_cmd_state r st s)"
  unfolding report_frame_def by (rule disjI1, rule exI [of _ st], rule exI [of _ "[]"]) simp

lemma validate_frame: "report_frame r s (validate_cmd cf r (set_cmd_state r st s))"
proof -
  let ?s = "set_cmd_state r st s"
  consider "validate_cmd cf r ?s = ?s"
    | c t where "conf_ServerEnabled cf" "get_cmd (srv_clients ?s) r = Some c"
        "TemplateStore_Get (srv_templateStore ?s) (cmd_TemplateId c) = Some t"
    using validate_noop [of cf ?s r] by blast
  then show ?thesis
  proof cases
    case (2 c t)
    have "report_frame r s (start_tasks [TNext er] (set_cmd_state r ''finished'' s))"
      if "Coordinator_Get s i = Some er" for er i
      unfolding report_frame_def using that
      by (intro disjI1 exI [of _ "''finished''"] exI [of _ "[TNext er]"]) auto
    then show ?thesis
      by (simp add: validate_eq [OF 2] Let_def set_cmd_state_twice Coordinator_Get_def split: option.split)
  qed simp
qed

lemma SetState_frame: "report_frame r s (SetState cf r state s)"
proof (cases "get_cmd (srv_clients s) r")
  case None
  then show ?thesis by (simp add: SetState.simps report_frame_def)
next
  case (Some c)
  consider "state \<noteq> ''flushed_logs''"
    | "state = ''flushed_logs''" "cmd_State c = ''failed_execution''"
    | "state = ''flushed_logs''" "cmd_State c = ''finished_execution''"
    | "cmd_State c \<noteq> ''failed_execution''" "cmd_State c \<noteq> ''finished_execution''"
    by blast
  then show ?thesis
    by cases (simp_all add: SetState_other [OF _ Some] SetState_failed [OF Some] SetState_judged [OF Some]
        SetState_open [OF Some] set_cmd_state_twice validate_frame)
qed

end
