(* ===== verification/Samples.thy ===== *)
theory Samples
  imports Server_State Authentication
begin

text \<open>
  Concrete inputs on which the properties are instantiated: external functions that satisfy
  their contracts, one environment, one configuration, and a server with one client, one
  template, one user and one http check.
\<close>

definition sample_ext :: ext where
  "sample_ext =
     \<lparr>bcrypt_generate = (\<lambda>salt pwd. Some pwd), bcrypt_compare = (\<lambda>hash pwd. hash = pwd),
      totp_authenticate = (\<lambda>secret window token now. (token = secret, None)),
      otp_png = (\<lambda>secret account. Inr secret), cast_ToBool = (\<lambda>str. str = ''true'')\<rparr>"

definition sample_env :: env where
  "sample_env =
     \<lparr>env_now = 0, env_uuid = (\<lambda>k. ''id'' @ replicate k (CHR ''x'')),
      env_rand = (\<lambda>k. Some (replicate 32 (CHR ''r''))), env_salt = [], env_dice = (\<lambda>k. k),
      env_write = WriteOk\<rparr>"

definition sample_conf :: conf where
  "sample_conf =
     \<lparr>conf_Token = ''token'', conf_Hostname = ''host'', conf_TagsList = [], conf_UseAutoTag = False,
      conf_ServerEnabled = True, conf_EndpointURI = ''https://host'', conf_ServerPort = 897,
      conf_SslCertFile = ''cert.pem'', conf_SslPrivateKeyFile = ''key.pem'', conf_AutoGenerateCert = True,
      conf_ClientPort = 898, conf_Debug = False, conf_Home = ''/etc'', conf_LdapConfigFile = ''ldap.conf'',
      conf_EnableLdap = False\<rparr>"

text \<open>A request with the session of the sample user, for the sample http check.\<close>

definition sample_request :: http_request where
  "sample_request =
     \<lparr>rq_Url = ''/'', rq_XAuth = [], rq_XAuthUser = ''ann'', rq_XAuthSession = ''session'',
      rq_RemoteAddr = ''::1'', rq_PostForm = [], rq_Query = [(''token'', ''secret'')],
      rq_Params = [(''id'', ''check'')], rq_Body = Unparsable\<rparr>"

definition sample_user :: user where
  "sample_user =
     \<lparr>user_Id = ''u1'', user_Username = ''ann'', user_EmailAddress = [], user_PasswordHash = b64_encode ''pass'',
      user_AuthType = AUTH_TYPE_LOCAL, user_Enabled = True, user_SessionToken = ''session'',
      user_TotpSecret = ''totp'', user_TotpSecretValidated = True, user_SessionIpAddress = [],
      user_SessionLastTimestamp = 0, user_Roles = [(''admin'', True), (''requester'', True), (''approver'', True)]\<rparr>"

definition sample_template :: template where
  "sample_template =
     \<lparr>tmpl_Id = ''t1'', tmpl_Title = ''uptime'', tmpl_Description = ''d'', tmpl_Command = ''uptime'',
      tmpl_Enabled = True, tmpl_Timeout = 10,
      tmpl_Acl = \<lparr>acl_MinAuth = 1, acl_IncludedTags = [], acl_ExcludedTags = []\<rparr>,
      tmpl_ExecutionStrategy = Some \<lparr>es_Strategy = RollingExecutionStrategy\<rparr>, tmpl_ValidationRules = []\<rparr>"

definition sample_check :: http_check where
  "sample_check =
     \<lparr>hc_Id = ''check'', hc_Enabled = True, hc_TemplateId = ''t1'', hc_SecureToken = ''secret'',
      hc_Timeout = 30, hc_ClientIds = [''c1'']\<rparr>"

definition sample_client :: registered_client where
  "sample_client = (newRegisteredClient ''c1'')\<lparr>rc_AuthToken := b64_encode ''key''\<rparr>"

definition sample_server :: server where
  "sample_server =
     \<lparr>srv_clients = \<lparr>cs_clients = [(''c1'', 0)], cs_Tags = [], cs_heap = [sample_client], cs_cmds = []\<rparr>,
      srv_userStore = \<lparr>us_Users = [sample_user], us_file = NoFile\<rparr>,
      srv_templateStore = \<lparr>ts_Templates = [(''t1'', sample_template)], ts_file = NoFile\<rparr>,
      srv_consensus = \<lparr>con_Pending = [], con_heap = [], con_file = NoFile\<rparr>,
      srv_executionCoordinator = \<lparr>ec_Active = [], ec_heap = []\<rparr>,
      srv_httpCheckStore = \<lparr>hs_Checks = [(''check'', sample_check)],
        hs_SystemUser = AddRole ''requester'' (newUser ''sys''), hs_file = NoFile\<rparr>,
      srv_notifications = newNotificationManager, srv_InstanceId = ''srv'', srv_tasks = [], srv_done = [],
      srv_audit = []\<rparr>"

lemma sample_simps [simp]:
  "srv_clients sample_server = \<lparr>cs_clients = [(''c1'', 0)], cs_Tags = [], cs_heap = [sample_client], cs_cmds = []\<rparr>"
  "srv_userStore sample_server = \<lparr>us_Users = [sample_user], us_file = NoFile\<rparr>"
  "srv_templateStore sample_server = \<lparr>ts_Templates = [(''t1'', sample_template)], ts_file = NoFile\<rparr>"
  "srv_consensus sample_server = \<lparr>con_Pending = [], con_heap = [], con_file = NoFile\<rparr>"
  "srv_executionCoordinator sample_server = \<lparr>ec_Active = [], ec_heap = []\<rparr>"
  "srv_httpCheckStore sample_server = \<lparr>hs_Checks = [(''check'', sample_check)],
     hs_SystemUser = AddRole ''requester'' (newUser ''sys''), hs_file = NoFile\<rparr>"
  "srv_tasks sample_server = []" "srv_done sample_server = []"
  by (simp_all add: sample_server_def)

end
