(* ===== verification/Rollout.thy ===== *)
theory Rollout
  imports Coordinator Samples
begin

text \<open>
  What the execution strategies promise, as a schedule of batches without the server around it,
  and the proof that \<open>Next\<close> carries out that schedule one batch per call.
\<close>

section \<open>The schedule\<close>

text \<open>
  The size of the next batch for a strategy, the number of batches started before and the number
  of commands left.
\<close>

definition batch_size :: "strategy_type \<Rightarrow> nat \<Rightarrow> nat \<Rightarrow> nat option" where
  "batch_size st i n =
     (if st = SimpleExecutionStrategy then Some n
      else if st = OneTestExecutionStrategy then Some (if i = 0 then 1 else n)
      else if st = RollingExecutionStrategy then Some 1
      else if st = ExponentialRollingExecutionStrategy then Some (min (2 ^ i) n)
      else None)"

function rollout :: "strategy_type \<Rightarrow> nat \<Rightarrow> 'a list \<Rightarrow> 'a list list" where
  "rollout st i xs =
     (if xs = [] then []
      else case batch_size st i (length xs) of
        None \<Rightarrow> []
      | Some n \<Rightarrow> if n = 0 then [] else take n xs # rollout st (Suc i) (drop n xs))"
  by pat_completeness auto
termination
  by (relation "measure (\<lambda>(st, i, xs). length xs)") auto

declare rollout.simps [simp del]

definition known_strategy :: "strategy_type \<Rightarrow> bool" where
  "known_strategy st \<longleftrightarrow> st \<in> {0, 1, 2, 3}"

lemma batch_size_Some:
  assumes "known_strategy st" "0 < n"
  shows "\<exists>k. batch_size st i n = Some k \<and> 0 < k \<and> k \<le> n"
  using assms by (auto simp: batch_size_def known_strategy_def strategy_defs)

lemma rollout_Nil [simp]: "rollout st i [] = []"
  by (simp add: rollout.simps)

lemma rollout_step:
  assumes "known_strategy st" "xs \<noteq> []"
  shows "\<exists>k. batch_size st i (length xs) = Some k \<and> 0 < k \<and> k \<le> length xs \<and>
    rollout st i xs = take k xs # rollout st (Suc i) (drop k xs)"
proof -
  from assms(2) have "0 < length xs" by simp
  from batch_size_Some [OF assms(1) this] obtain k where
    "batch_size st i (length xs) = Some k" "0 < k" "k \<le> length xs" by blast
  with assms show ?thesis by (auto simp: rollout.simps [of st i xs])
qed

text \<open>Every command is started exactly once, in order, and no batch is empty.\<close>

lemma rollout_complete: "known_strategy st \<Longrightarrow> concat (rollout st i xs) = xs"
proof (induction xs arbitrary: i rule: length_induct)
  case (1 xs)
  show ?case
  proof (cases "xs = []")
    case False
    with rollout_step [OF "1.prems"] obtain k where "0 < k" "k \<le> length xs"
      "rollout st i xs = take k xs # rollout st (Suc i) (drop k xs)" by blast
    moreover have "concat (rollout st (Suc i) (drop k xs)) = drop k xs"
      using "1.IH" "1.prems" \<open>0 < k\<close> False by simp
    ultimately show ?thesis by simp
  qed simp
qed

lemma rollout_nonempty: "known_strategy st \<Longrightarrow> b \<in> set (rollout st i xs) \<Longrightarrow> b \<noteq> []"
proof (induction xs arbitrary: i rule: length_induct)
  case (1 xs)
  show ?case
  proof (cases "xs = []")
    case False
    with rollout_step [OF "1.prems"(1)] obtain k where k: "0 < k" "k \<le> length xs"
      "rollout st i xs = take k xs # rollout st (Suc i) (drop k xs)" by blast
    with "1.prems" consider "b = take k xs" | "b \<in> set (rollout st (Suc i) (drop k xs))" by auto
    then show ?thesis
    proof cases
      case 1
      with k False show ?thesis by simp
    next
      case 2
      have "length (drop k xs) < length xs" using k(1) False by simp
      then show ?thesis using "1.IH" [rule_format, OF _ "1.prems"(1)] 2 by blast
    qed
  qed (use "1.prems" in simp)
qed

text \<open>The shapes of the four schedules.\<close>

lemma rollout_simple: "xs \<noteq> [] \<Longrightarrow> rollout SimpleExecutionStrategy i xs = [xs]"
  by (simp add: rollout.simps [of _ i xs] batch_size_def)

lemma rollout_one_test:
  "rollout OneTestExecutionStrategy 0 (x # xs) = [x] # (if xs = [] then [] else [xs])"
  by (simp add: rollout.simps [of _ 0 "x # xs"] rollout.simps [of _ "Suc 0" xs] batch_size_def strategy_defs)

lemma rollout_rolling: "rollout RollingExecutionStrategy i xs = map (\<lambda>x. [x]) xs"
  by (induction xs arbitrary: i) (simp_all add: rollout.simps [of _ _ "_ # _"] batch_size_def strategy_defs)

lemma rollout_exponential_step:
  "xs \<noteq> [] \<Longrightarrow> rollout ExponentialRollingExecutionStrategy i xs =
     take (2 ^ i) xs # rollout ExponentialRollingExecutionStrategy (Suc i) (drop (2 ^ i) xs)"
  by (cases "2 ^ i \<le> length xs")
    (simp_all add: rollout.simps [of _ i xs] batch_size_def strategy_defs)

text \<open>Doubling batches: the \<open>k\<close>-th has \<open>2 ^ k\<close> commands, so \<open>k\<close> batches reach \<open>2 ^ k - 1\<close>.\<close>

lemma rollout_exponential_length:
  "length xs + 2 ^ i < 2 ^ (i + k) + 1 \<Longrightarrow> length (rollout ExponentialRollingExecutionStrategy i xs) \<le> k"
proof (induction k arbitrary: i xs)
  case 0
  then show ?case by simp
next
  case (Suc k)
  show ?case
  proof (cases "xs = []")
    case False
    have "length (drop (2 ^ i) xs) + 2 ^ Suc i < 2 ^ (Suc i + k) + 1 \<or> drop (2 ^ i) xs = []"
      using Suc.prems by auto
    then have "length (rollout ExponentialRollingExecutionStrategy (Suc i) (drop (2 ^ i) xs)) \<le> k"
      using Suc.IH by auto
    with False show ?thesis by (simp add: rollout_exponential_step)
  qed simp
qed

section \<open>The loop that starts a batch\<close>

definition submit_tasks :: "ref \<Rightarrow> pending_client_cmd list \<Rightarrow> task list" where
  "submit_tasks er ps = map (\<lambda>p. TSubmit (pc_Client p) (pc_Cmd p) er) ps"

lemma upd_entry_upd_entry: "upd_entry r f (upd_entry r g s) = upd_entry r (\<lambda>e. f (g e)) s"
  by (simp add: upd_entry_def h_upd_def h_get_def)

lemma start_tasks_upd_entry: "upd_entry r f (start_tasks ts s) = start_tasks ts (upd_entry r f s)"
  by (simp add: upd_entry_def start_tasks_def)

lemma start_tasks_start_tasks: "start_tasks ts (start_tasks us s) = start_tasks (us @ ts) s"
  by (simp add: start_tasks_def)

lemma start_loop_eq:
  assumes "get_entry s er = Some ece" "n \<le> length (ece_cmds ece)"
  shows "start_loop n er s =
    (Inr (), start_tasks (submit_tasks er (take n (rev (ece_cmds ece))))
       (upd_entry er (\<lambda>e. e\<lparr>ece_cmds := take (length (ece_cmds ece) - n) (ece_cmds ece)\<rparr>) s))"
  using assms
proof (induction n arbitrary: s ece)
  case 0
  have "h_upd er (\<lambda>e. e\<lparr>ece_cmds := ece_cmds ece\<rparr>) (ec_heap (srv_executionCoordinator s)) =
      ec_heap (srv_executionCoordinator s)"
    using 0 by (intro h_upd_ident) simp
  then have "upd_entry er (\<lambda>e. e\<lparr>ece_cmds := ece_cmds ece\<rparr>) s = s"
    by (simp add: upd_entry_def)
  then show ?case by (simp add: submit_tasks_def start_tasks_def)
next
  case (Suc n)
  then have ne: "ece_cmds ece \<noteq> []" by auto
  let ?t = "start_tasks [TSubmit (pc_Client (last (ece_cmds ece))) (pc_Cmd (last (ece_cmds ece))) er] s"
  let ?u = "upd_entry er (\<lambda>e. e\<lparr>ece_cmds := butlast (ece_cmds e)\<rparr>) ?t"
  let ?e = "ece\<lparr>ece_cmds := butlast (ece_cmds ece)\<rparr>"
  have "get_entry ?u er = Some ?e" "n \<le> length (ece_cmds ?e)" using Suc.prems by simp_all
  note IH = Suc.IH [OF this]
  obtain cs c where cs: "ece_cmds ece = cs @ [c]" using ne by (cases "ece_cmds ece" rule: rev_cases) auto
  have step: "start_loop (Suc n) er s = start_loop n er ?u"
    using Suc.prems ne by (simp add: Let_def)
  have tk: "take (Suc n) (rev (ece_cmds ece)) = c # take n (rev cs)" "length (ece_cmds ece) - Suc n = length cs - n"
    by (simp_all add: cs)
  have "upd_entry er (\<lambda>e. e\<lparr>ece_cmds := take (length cs - n) cs\<rparr>)
      (upd_entry er (\<lambda>e. e\<lparr>ece_cmds := butlast (ece_cmds e)\<rparr>) ?t) =
    upd_entry er (\<lambda>e. e\<lparr>ece_cmds := take (length cs - n) cs\<rparr>) ?t"
    by (simp add: upd_entry_upd_entry o_def)
  with cs Suc.prems(2) show ?case unfolding step IH
    by (simp add: tk submit_tasks_def start_tasks_upd_entry start_tasks_start_tasks)
qed

section \<open>Next, case by case\<close>

lemma Next_blocked:
  assumes "get_entry s er = Some ece" "\<not> allFinished ece (srv_clients s)"
  shows "Next er s = (Inr (), s)"
  using assms by (simp add: Next_def)

lemma Next_done:
  assumes "get_entry s er = Some ece" "ece_cmds ece = []" "allFinished ece (srv_clients s)"
  shows "Next er s = ExecuteCallbacks ece s"
  using assms by (simp add: Next_def)

lemma Next_started:
  assumes "get_entry s er = Some ece" "ece_cmds ece \<noteq> []" "allFinished ece (srv_clients s)"
    "cmdsToStart ece = Some n" "nat n \<le> length (ece_cmds ece)"
  shows "Next er s =
    (Inr (), start_tasks (submit_tasks er (take (nat n) (rev (ece_cmds ece))))
       (upd_entry er (\<lambda>e. e\<lparr>ece_cmds := take (length (ece_cmds ece) - nat n) (ece_cmds ece),
                           ece_iteration := ece_iteration ece + 1\<rparr>) s))"
  using assms start_loop_eq [OF assms(1,5)]
  by (simp add: Next_def upd_entry_def start_tasks_def h_upd_def h_get_def split: if_splits)

lemma cmdsToStart_bound:
  assumes "cmdsToStart ece = Some n" "ece_cmds ece \<noteq> []"
  shows "nat n \<le> length (ece_cmds ece)"
  using assms by (cases "ece_cmds ece") (auto simp: cmdsToStart_def Let_def split: if_splits)

text \<open>\<open>Next\<close> never reads past the end of the slice: the only panics are the documented ones.\<close>

lemma Next_cases:
  assumes "get_entry s er = Some ece"
  obtains
    (idle) "Next er s = (Inr (), s)"
  | (callbacks) "ece_cmds ece = []" "allFinished ece (srv_clients s)" "Next er s = ExecuteCallbacks ece s"
  | (unsupported) "ece_cmds ece \<noteq> []" "cmdsToStart ece = None" "Next er s = (Inl NotYetSupported, s)"
  | (started) n where "ece_cmds ece \<noteq> []" "allFinished ece (srv_clients s)" "cmdsToStart ece = Some n"
      "nat n \<le> length (ece_cmds ece)"
      "Next er s = (Inr (), start_tasks (submit_tasks er (take (nat n) (rev (ece_cmds ece))))
        (upd_entry er (\<lambda>e. e\<lparr>ece_cmds := take (length (ece_cmds ece) - nat n) (ece_cmds ece),
                            ece_iteration := ece_iteration ece + 1\<rparr>) s))"
proof (cases "allFinished ece (srv_clients s)")
  case False
  then show ?thesis using Next_blocked [OF assms] idle by blast
next
  case fin: True
  show ?thesis
  proof (cases "ece_cmds ece = []")
    case True
    then show ?thesis using Next_done [OF assms] fin callbacks by blast
  next
    case ne: False
    show ?thesis
    proof (cases "cmdsToStart ece")
      case None
      then have "Next er s = (Inl NotYetSupported, s)" using assms fin ne by (simp add: Next_def)
      then show ?thesis using None ne unsupported by blast
    next
      case (Some n)
      from cmdsToStart_bound [OF Some ne] show ?thesis
        using Next_started [OF assms ne fin Some] started Some ne fin by blast
    qed
  qed
qed

section \<open>Refinement\<close>

text \<open>The batches an entry still has to start.\<close>

definition entry_batches :: "coordinator_entry \<Rightarrow> pending_client_cmd list list" where
  "entry_batches ece = rollout (es_Strategy (ece_strategy ece)) (ece_iteration ece) (rev (ece_cmds ece))"

text \<open>The exponent stays in the range of an int: a bound that every batch keeps.\<close>

definition iteration_ok :: "coordinator_entry \<Rightarrow> bool" where
  "iteration_ok ece \<longleftrightarrow>
     es_Strategy (ece_strategy ece) = ExponentialRollingExecutionStrategy \<and> ece_cmds ece \<noteq> [] \<longrightarrow>
       length (ece_cmds ece) + 2 ^ ece_iteration ece \<le> 2 ^ 63"

lemma cmdsToStart_batch_size:
  assumes "ece_cmds ece \<noteq> []" "iteration_ok ece" "known_strategy (es_Strategy (ece_strategy ece))"
  shows "cmdsToStart ece =
    map_option int (batch_size (es_Strategy (ece_strategy ece)) (ece_iteration ece) (length (ece_cmds ece)))"
proof (cases "es_Strategy (ece_strategy ece) = ExponentialRollingExecutionStrategy")
  case True
  have "0 < length (ece_cmds ece)" using assms(1) by simp
  moreover from assms(1,2) True have "length (ece_cmds ece) + 2 ^ ece_iteration ece \<le> 2 ^ 63"
    unfolding iteration_ok_def by blast
  ultimately have "(2 :: nat) ^ ece_iteration ece < 2 ^ 63" by linarith
  then have "ece_iteration ece < 63" by (rule power_less_imp_less_exp [rotated]) simp
  with True show ?thesis
    by (auto simp: cmdsToStart_def batch_size_def int_pow2_def Let_def strategy_defs min_def)
next
  case False
  then show ?thesis
    using assms(3) by (auto simp: cmdsToStart_def batch_size_def Let_def known_strategy_def strategy_defs)
qed

lemma entry_batches_step:
  assumes "ece_cmds ece \<noteq> []" "iteration_ok ece" "known_strategy (es_Strategy (ece_strategy ece))"
    "cmdsToStart ece = Some n"
    "ece' = ece\<lparr>ece_cmds := take (length (ece_cmds ece) - nat n) (ece_cmds ece),
                 ece_iteration := ece_iteration ece + 1\<rparr>"
  shows "take (nat n) (rev (ece_cmds ece)) \<noteq> []"
    and "entry_batches ece = take (nat n) (rev (ece_cmds ece)) # entry_batches ece'"
    and "iteration_ok ece'"
proof -
  let ?st = "es_Strategy (ece_strategy ece)" and ?i = "ece_iteration ece" and ?xs = "rev (ece_cmds ece)"
  from rollout_step [of ?st ?xs ?i] assms(1,3) obtain k where
    k: "batch_size ?st ?i (length ?xs) = Some k" "0 < k" "k \<le> length ?xs"
      "rollout ?st ?i ?xs = take k ?xs # rollout ?st (Suc ?i) (drop k ?xs)" by auto
  have n: "nat n = k" using cmdsToStart_batch_size [OF assms(1-3)] assms(4) k(1) by simp
  show "take (nat n) ?xs \<noteq> []" using k assms(1) n by simp
  have "rev (take (length (ece_cmds ece) - k) (ece_cmds ece)) = drop k ?xs"
    by (simp add: drop_rev)
  then show "entry_batches ece = take (nat n) ?xs # entry_batches ece'"
    using k(4) by (simp add: entry_batches_def assms(5) n)
  show "iteration_ok ece'"
  proof (cases "?st = ExponentialRollingExecutionStrategy \<and> k < length (ece_cmds ece)")
    case True
    with k(1) have "k = 2 ^ ?i" by (auto simp: batch_size_def strategy_defs min_def split: if_splits)
    with True assms(1,2) show ?thesis by (auto simp: iteration_ok_def assms(5) n)
  next
    case False
    with k(3) show ?thesis by (auto simp: iteration_ok_def assms(5) n)
  qed
qed

section \<open>Properties\<close>

text \<open>
  C7: When nothing of the batch before is outstanding, one call of \<open>Next\<close> performs one step of
  the schedule: it starts exactly the commands of the next batch, in order, and leaves the rest
  of the schedule to later calls.
\<close>

theorem Next_refines_rollout:
  assumes "get_entry s er = Some ece" "ece_cmds ece \<noteq> []" "iteration_ok ece"
    "known_strategy (es_Strategy (ece_strategy ece))" "allFinished ece (srv_clients s)"
  shows "\<exists>b bs s' ece'. entry_batches ece = b # bs \<and> b \<noteq> [] \<and> Next er s = (Inr (), s') \<and>
    srv_tasks s' = srv_tasks s @ submit_tasks er b \<and> get_entry s' er = Some ece' \<and>
    entry_batches ece' = bs \<and> iteration_ok ece'"
proof -
  have "cmdsToStart ece \<noteq> None"
    using assms(4) by (auto simp: cmdsToStart_def known_strategy_def strategy_defs Let_def)
  then obtain n where n: "cmdsToStart ece = Some n" by blast
  let ?b = "take (nat n) (rev (ece_cmds ece))"
  let ?ece' = "ece\<lparr>ece_cmds := take (length (ece_cmds ece) - nat n) (ece_cmds ece),
      ece_iteration := ece_iteration ece + 1\<rparr>"
  note step = entry_batches_step [OF assms(2,3,4) n refl]
  from Next_started [OF assms(1,2,5) n cmdsToStart_bound [OF n assms(2)]] obtain s' where
    "Next er s = (Inr (), s')" "srv_tasks s' = srv_tasks s @ submit_tasks er ?b" "get_entry s' er = Some ?ece'"
    by (simp add: assms(1))
  with step show ?thesis by blast
qed

definition sample_entry :: coordinator_entry where
  "sample_entry =
     \<lparr>ece_Id = ''r1'', ece_cmds = map (\<lambda>i. \<lparr>pc_Client = 0, pc_Cmd = newCmd i 0 ''uptime'' 10\<rparr>) [''a'', ''b'', ''c''],
      ece_strategy = \<lparr>es_Strategy = ExponentialRollingExecutionStrategy\<rparr>, ece_iteration = 1\<rparr>"

definition rollout_server :: server where
  "rollout_server = sample_server\<lparr>srv_executionCoordinator := \<lparr>ec_Active = [(''r1'', 0)], ec_heap = [sample_entry]\<rparr>\<rparr>"

lemma rollout_server_simps [simp]:
  "get_entry rollout_server 0 = Some sample_entry" "srv_clients rollout_server = srv_clients sample_server"
  "srv_tasks rollout_server = []"
  by (simp_all add: rollout_server_def h_get_def)

lemma sample_entry_facts:
  "ece_cmds sample_entry \<noteq> []" "iteration_ok sample_entry" "known_strategy (es_Strategy (ece_strategy sample_entry))"
  "allFinished (sample_entry\<lparr>ece_iteration := n\<rparr>) (srv_clients sample_server)"
  by (simp_all add: sample_entry_def iteration_ok_def known_strategy_def strategy_defs allFinished_def
      h_get_def sample_client_def newRegisteredClient_def)

lemma sample_entry_iteration: "sample_entry\<lparr>ece_iteration := ece_iteration sample_entry\<rparr> = sample_entry"
  by simp

theorem Next_refines_rollout_witness:
  "\<exists>b bs s' ece'. entry_batches sample_entry = b # bs \<and> b \<noteq> [] \<and> Next 0 rollout_server = (Inr (), s') \<and>
    srv_tasks s' = srv_tasks rollout_server @ submit_tasks 0 b \<and> get_entry s' 0 = Some ece' \<and>
    entry_batches ece' = bs \<and> iteration_ok ece'"
  by (rule Next_refines_rollout)
    (use sample_entry_facts(1-3) sample_entry_facts(4) [of "ece_iteration sample_entry"] in simp_all)

lemma allFinished_iff:
  "allFinished ece cs \<longleftrightarrow>
     (\<forall>(k, r) \<in> set (cs_clients cs). \<forall>client. get_client cs r = Some client \<longrightarrow>
        (\<forall>(i, c) \<in> set (rc_DispatchedCmds client). \<forall>cmd. get_cmd cs c = Some cmd \<longrightarrow>
           in_batch ece cmd \<longrightarrow> cmd_State cmd = ''finished''))"
  unfolding allFinished_def list_all_iff
  by (intro ball_cong) (auto simp: list_all_iff split: option.splits)


text \<open>A server whose client has reported one command of the running batch.\<close>

definition batch_cmd :: "string \<Rightarrow> cmd" where
  "batch_cmd st = (newCmd ''z'' 0 ''uptime'' 10)\<lparr>cmd_ConsensusRequestId := ''r1'', cmd_ExecutionIterationId := 1, cmd_State := st\<rparr>"

definition batch_server :: "string \<Rightarrow> server" where
  "batch_server st = rollout_server\<lparr>srv_clients :=
     \<lparr>cs_clients = [(''c1'', 0)], cs_Tags = [], cs_heap = [sample_client\<lparr>rc_DispatchedCmds := [(''z'', 0)]\<rparr>],
      cs_cmds = [batch_cmd st]\<rparr>\<rparr>"


text \<open>
  Calls of \<open>Next\<close> for an entry, one for each state in which the clients are found; in between
  the clients run their commands and report.
\<close>

fun drive :: "client_store list \<Rightarrow> ref \<Rightarrow> server \<Rightarrow> server" where
  "drive [] er s = s"
| "drive (cs # css) er s = drive css er (snd (Next er (s\<lparr>srv_clients := cs\<rparr>)))"

lemma allFinished_cong:
  "ece_Id ece' = ece_Id ece \<Longrightarrow> ece_iteration ece' = ece_iteration ece \<Longrightarrow> allFinished ece' = allFinished ece"
proof -
  assume "ece_Id ece' = ece_Id ece" "ece_iteration ece' = ece_iteration ece"
  then have "in_batch ece' = in_batch ece" by (simp add: in_batch_def fun_eq_iff)
  then show "allFinished ece' = allFinished ece" by (intro ext) (simp only: allFinished_def)
qed

lemma entry_batches_Nil: "known_strategy (es_Strategy (ece_strategy ece)) \<Longrightarrow>
  entry_batches ece = [] \<longleftrightarrow> ece_cmds ece = []"
  using rollout_complete [of "es_Strategy (ece_strategy ece)" "ece_iteration ece" "rev (ece_cmds ece)"]
  by (auto simp: entry_batches_def)

lemma submit_tasks_append: "submit_tasks er (a @ b) = submit_tasks er a @ submit_tasks er b"
  by (simp add: submit_tasks_def)

lemma entry_batches_bound:
  assumes "es_Strategy (ece_strategy ece) = ExponentialRollingExecutionStrategy" "ece_iteration ece = 0"
    "length (ece_cmds ece) < 2 ^ k"
  shows "length (entry_batches ece) \<le> k"
  using rollout_exponential_length [of "rev (ece_cmds ece)" 0 k] assms by (simp add: entry_batches_def)

lemma drive_tasks:
  assumes "get_entry s er = Some ece" "iteration_ok ece" "known_strategy (es_Strategy (ece_strategy ece))"
    "\<forall>cs \<in> set css. \<forall>i. allFinished (ece\<lparr>ece_iteration := i\<rparr>) cs" "length css = length (entry_batches ece)"
  shows "srv_tasks (drive css er s) = srv_tasks s @ submit_tasks er (concat (entry_batches ece))"
  using assms
proof (induction css arbitrary: s ece)
  case Nil
  then show ?case by (simp add: submit_tasks_def)
next
  case (Cons cs css)
  let ?s = "s\<lparr>srv_clients := cs\<rparr>"
  from Cons.prems(3,5) have ne: "ece_cmds ece \<noteq> []" by (simp add: entry_batches_Nil [symmetric]) force
  have "allFinished ece cs"
  proof -
    have "allFinished (ece\<lparr>ece_iteration := ece_iteration ece\<rparr>) cs" using Cons.prems(4) by (meson list.set_intros(1))
    then show ?thesis by simp
  qed
  then have fin: "allFinished ece (srv_clients ?s)" by simp
  have e: "get_entry ?s er = Some ece" using Cons.prems(1) by simp
  have "cmdsToStart ece \<noteq> None"
    using Cons.prems(3) by (auto simp: cmdsToStart_def known_strategy_def strategy_defs Let_def)
  then obtain n where n: "cmdsToStart ece = Some n" by blast
  let ?b = "take (nat n) (rev (ece_cmds ece))"
  let ?e = "ece\<lparr>ece_cmds := take (length (ece_cmds ece) - nat n) (ece_cmds ece),
      ece_iteration := ece_iteration ece + 1\<rparr>"
  note step = entry_batches_step [OF ne Cons.prems(2,3) n refl]
  note nx = Next_started [OF e ne fin n cmdsToStart_bound [OF n ne]]
  have "srv_tasks (drive css er (snd (Next er ?s))) = srv_tasks (snd (Next er ?s)) @ submit_tasks er (concat (entry_batches ?e))"
  proof (rule Cons.IH)
    show "get_entry (snd (Next er ?s)) er = Some ?e" using Cons.prems(1) by (simp add: nx)
    show "\<forall>cs \<in> set css. \<forall>i. allFinished (?e\<lparr>ece_iteration := i\<rparr>) cs"
    proof (intro ballI allI)
      fix c i assume "c \<in> set css"
      then have "allFinished (ece\<lparr>ece_iteration := i\<rparr>) c" using Cons.prems(4) by simp
      then show "allFinished (?e\<lparr>ece_iteration := i\<rparr>) c"
        using allFinished_cong [of "?e\<lparr>ece_iteration := i\<rparr>" "ece\<lparr>ece_iteration := i\<rparr>"] by simp
    qed
    show "length css = length (entry_batches ?e)" using Cons.prems(5) step(2) by simp
  qed (use step(3) Cons.prems(3) in simp_all)
  then show ?case by (simp add: nx step(2) submit_tasks_append)
qed

text \<open>
  C10: Driven until its schedule is done, an entry starts every one of its commands exactly once,
  from the last of the slice to the first; and the exponential strategy needs at most \<open>k\<close> calls
  for fewer than \<open>2 ^ k\<close> commands.
\<close>

theorem Next_starts_every_command_once:
  assumes "get_entry s er = Some ece" "iteration_ok ece" "known_strategy (es_Strategy (ece_strategy ece))"
    "\<forall>cs \<in> set css. \<forall>i. allFinished (ece\<lparr>ece_iteration := i\<rparr>) cs" "length css = length (entry_batches ece)"
  shows "srv_tasks (drive css er s) = srv_tasks s @ submit_tasks er (rev (ece_cmds ece)) \<and>
    (es_Strategy (ece_strategy ece) = ExponentialRollingExecutionStrategy \<longrightarrow> ece_iteration ece = 0 \<longrightarrow>
     length (ece_cmds ece) < 2 ^ k \<longrightarrow> length css \<le> k)"
proof -
  have all: "concat (entry_batches ece) = rev (ece_cmds ece)"
    unfolding entry_batches_def by (rule rollout_complete [OF assms(3)])
  show ?thesis
    using drive_tasks [OF assms] entry_batches_bound [of ece k] assms(5) by (simp add: all)
qed

theorem Next_starts_every_command_once_witness:
  "srv_tasks (drive [srv_clients sample_server, srv_clients sample_server] 0 rollout_server) =
     submit_tasks 0 (rev (ece_cmds sample_entry))"
proof -
  have two: "length (entry_batches sample_entry) = 2"
    by (simp add: entry_batches_def sample_entry_def rollout_exponential_step)
  show ?thesis
    using Next_starts_every_command_once [of rollout_server 0 sample_entry
        "[srv_clients sample_server, srv_clients sample_server]" 2] sample_entry_facts
    by (simp add: two del: sample_simps)
qed

end
