(* ===== verification/Voting.thy ===== *)
theory Voting
  imports Consensus_Requests Rollout
begin

text \<open>
  What the consensus protocol promises: an abstract ballot that knows who asked and who agreed,
  the proof that the operations of consensus.go implement it, and the frame of every operation.
\<close>

section \<open>Frames of the coordinator\<close>

lemma start_loop_frame [simp]:
  "srv_clients (snd (start_loop n er s)) = srv_clients s"
  "srv_userStore (snd (start_loop n er s)) = srv_userStore s"
  "srv_templateStore (snd (start_loop n er s)) = srv_templateStore s"
  "srv_consensus (snd (start_loop n er s)) = srv_consensus s"
  "srv_httpCheckStore (snd (start_loop n er s)) = srv_httpCheckStore s"
  "srv_notifications (snd (start_loop n er s)) = srv_notifications s"
  "srv_done (snd (start_loop n er s)) = srv_done s" "srv_audit (snd (start_loop n er s)) = srv_audit s"
  by (induction n er s rule: start_loop.induct) (simp_all add: Let_def split: option.split)

lemma ExecuteCallbacks_frame [simp]:
  "srv_clients (snd (ExecuteCallbacks ece s)) = srv_clients s"
  "srv_userStore (snd (ExecuteCallbacks ece s)) = srv_userStore s"
  "srv_templateStore (snd (ExecuteCallbacks ece s)) = srv_templateStore s"
  "srv_consensus (snd (ExecuteCallbacks ece s)) = srv_consensus s"
  "srv_executionCoordinator (snd (ExecuteCallbacks ece s)) = srv_executionCoordinator s"
  "srv_httpCheckStore (snd (ExecuteCallbacks ece s)) = srv_httpCheckStore s"
  "srv_notifications (snd (ExecuteCallbacks ece s)) = srv_notifications s"
  "srv_done (snd (ExecuteCallbacks ece s)) = srv_done s" "srv_audit (snd (ExecuteCallbacks ece s)) = srv_audit s"
  by (simp_all add: ExecuteCallbacks_def split: option.split)

text \<open>A projection that the loop and the callbacks keep is one that \<open>Next\<close> keeps.\<close>

lemma Next_keeps:
  assumes "\<And>n. g (snd (start_loop n er s)) = g s"
    "\<And>f t. g (upd_entry er f t) = g t" "\<And>ts t. g (start_tasks ts t) = g t"
  shows "g (snd (Next er s)) = g s"
proof -
  have cb: "g (snd (ExecuteCallbacks ece s)) = g s" for ece
    by (simp add: ExecuteCallbacks_def assms(3) split: option.split)
  have loop: "g t = g s" if "start_loop n er s = (r, t)" for n r t
    using assms(1) [of n] that by simp
  show ?thesis
    unfolding Next_def Let_def
    by (auto simp: cb assms(2) loop split: option.split prod.split sum.split)
qed

lemma Next_frame [simp]:
  "srv_clients (snd (Next er s)) = srv_clients s"
  "srv_userStore (snd (Next er s)) = srv_userStore s"
  "srv_templateStore (snd (Next er s)) = srv_templateStore s"
  "srv_consensus (snd (Next er s)) = srv_consensus s"
  "srv_httpCheckStore (snd (Next er s)) = srv_httpCheckStore s"
  "srv_notifications (snd (Next er s)) = srv_notifications s"
  "srv_done (snd (Next er s)) = srv_done s" "srv_audit (snd (Next er s)) = srv_audit s"
  by (rule Next_keeps; simp)+

lemma Coordinator_Add_frame [simp]:
  "srv_clients (Coordinator_Add i st ps s) = srv_clients s"
  "srv_userStore (Coordinator_Add i st ps s) = srv_userStore s"
  "srv_templateStore (Coordinator_Add i st ps s) = srv_templateStore s"
  "srv_consensus (Coordinator_Add i st ps s) = srv_consensus s"
  "srv_httpCheckStore (Coordinator_Add i st ps s) = srv_httpCheckStore s"
  "srv_notifications (Coordinator_Add i st ps s) = srv_notifications s"
  "srv_tasks (Coordinator_Add i st ps s) = srv_tasks s"
  "srv_done (Coordinator_Add i st ps s) = srv_done s" "srv_audit (Coordinator_Add i st ps s) = srv_audit s"
  by (simp_all add: Coordinator_Add_def Let_def)

lemma Coordinator_Get_Add:
  "Coordinator_Get (Coordinator_Add i st ps s) i = Some (length (ec_heap (srv_executionCoordinator s)))"
  by (simp add: Coordinator_Get_def Coordinator_Add_def Let_def)

text \<open>\<open>Execute\<close> either fails while it assembles the commands, or files an entry and starts it.\<close>

lemma Execute_cases:
  assumes "get_request s crr = Some c"
  obtains
    (panics) p where "Execute e strategy crr s = (Inl p, s)"
  | (runs) ps where
      "assemble_cmds e 1 (request_template s c) c (srv_clients s) (cr_ClientIds c) = Inr ps"
      "snd (Execute e strategy crr s) =
         snd (Next (length (ec_heap (srv_executionCoordinator s))) (Coordinator_Add (cr_Id c) strategy ps s))"
  using assms
  by (cases "assemble_cmds e 1 (request_template s c) c (srv_clients s) (cr_ClientIds c)")
    (auto simp: Execute_def Coordinator_Get_Add Let_def split: prod.splits sum.splits)

lemma Execute_keeps:
  assumes "\<And>i st ps. g (Coordinator_Add i st ps s) = g s" "\<And>er t. g (snd (Next er t)) = g t"
  shows "g (snd (Execute e strategy crr s)) = g s"
proof (cases "get_request s crr")
  case (Some c)
  then show ?thesis
    by (cases rule: Execute_cases [where e = e and strategy = strategy]) (simp_all add: assms)
qed (simp add: Execute_def)

lemma Execute_frame [simp]:
  "srv_clients (snd (Execute e strategy crr s)) = srv_clients s"
  "srv_userStore (snd (Execute e strategy crr s)) = srv_userStore s"
  "srv_templateStore (snd (Execute e strategy crr s)) = srv_templateStore s"
  "srv_consensus (snd (Execute e strategy crr s)) = srv_consensus s"
  "srv_httpCheckStore (snd (Execute e strategy crr s)) = srv_httpCheckStore s"
  "srv_notifications (snd (Execute e strategy crr s)) = srv_notifications s"
  "srv_done (snd (Execute e strategy crr s)) = srv_done s" "srv_audit (snd (Execute e strategy crr s)) = srv_audit s"
  by (rule Execute_keeps; simp)+

section \<open>The ballot\<close>

text \<open>
  The abstract view of a request: who asked, who approved, whether it was started. A vote is
  counted once per person, and the requester's own vote comes with the request.
\<close>

record ballot =
  bal_requester :: string
  bal_approvers :: "string set"
  bal_started :: bool

definition bal_votes :: "ballot \<Rightarrow> nat" where
  "bal_votes b = card (insert (bal_requester b) (bal_approvers b))"

definition bal_check :: "nat \<Rightarrow> ballot \<Rightarrow> ballot" where
  "bal_check needed b = (if needed \<le> bal_votes b then b\<lparr>bal_started := True\<rparr> else b)"

definition bal_approve :: "nat option \<Rightarrow> string \<Rightarrow> ballot \<Rightarrow> ballot" where
  "bal_approve needed uid b =
     (if uid = bal_requester b \<or> uid \<in> bal_approvers b then b
      else
        let b = b\<lparr>bal_approvers := insert uid (bal_approvers b)\<rparr>
        in case needed of None \<Rightarrow> b | Some n \<Rightarrow> bal_check n b)"

definition ballot_of :: "consensus_request \<Rightarrow> ballot" where
  "ballot_of c = \<lparr>bal_requester = cr_RequestUserId c, bal_approvers = fst ` set (cr_ApproveUserIds c),
                  bal_started = cr_Executed c\<rparr>"

text \<open>
  The invariant of the vote map: no approver twice, no false entry, never the requester, and
  few enough entries for the machine count.
\<close>

definition request_ok :: "consensus_request \<Rightarrow> bool" where
  "request_ok c \<longleftrightarrow>
     gm_ok (cr_ApproveUserIds c) \<and> (\<forall>(k, b) \<in> set (cr_ApproveUserIds c). b) \<and>
     cr_RequestUserId c \<notin> fst ` set (cr_ApproveUserIds c)"

definition votes_fit :: "consensus_request \<Rightarrow> bool" where
  "votes_fit c \<longleftrightarrow> voteCount c < 2 ^ 64"

lemma gm_ok_card: "gm_ok m \<Longrightarrow> card (fst ` set m) = length m"
  unfolding gm_ok_def image_set by (metis distinct_card length_map)

lemma voteCount_ballot: "request_ok c \<Longrightarrow> voteCount c = bal_votes (ballot_of c)"
  by (simp add: voteCount_def bal_votes_def ballot_of_def request_ok_def gm_ok_card)

lemma voted_iff:
  assumes "request_ok c"
  shows "gm_true (cr_ApproveUserIds c) uid \<longleftrightarrow> uid \<in> bal_approvers (ballot_of c)"
proof (cases "gm_get (cr_ApproveUserIds c) uid")
  case None
  then have "uid \<notin> fst ` set (cr_ApproveUserIds c)" by (simp add: gm_get_None_iff)
  with None show ?thesis by (simp add: gm_true_def ballot_of_def)
next
  case (Some b)
  then have "b" "uid \<in> fst ` set (cr_ApproveUserIds c)"
    using assms gm_get_in [OF Some] by (auto simp: request_ok_def image_iff intro: bexI [of _ "(uid, b)"])
  with Some show ?thesis by (simp add: gm_true_def ballot_of_def)
qed

lemma enough_votes_iff:
  "votes_fit c \<Longrightarrow> (of_nat (voteCount c) :: 64 word) < m \<longleftrightarrow> voteCount c < unat m"
  by (simp add: votes_fit_def word_less_nat_alt unat_of_nat take_bit_nat_eq_self)

lemma request_ok_new: "request_ok (newConsensusRequest uid now)"
  by (simp add: request_ok_def newConsensusRequest_def)

lemma request_ok_frame:
  assumes "cr_ApproveUserIds d = cr_ApproveUserIds c" "cr_RequestUserId d = cr_RequestUserId c"
  shows "request_ok d = request_ok c"
  by (simp add: request_ok_def assms)

lemma request_ok_vote:
  assumes "request_ok c" "uid \<noteq> cr_RequestUserId c"
  shows "request_ok (c\<lparr>cr_ApproveUserIds := gm_set uid True (cr_ApproveUserIds c)\<rparr>)"
proof -
  have "(\<forall>(k, b) \<in> set (gm_set uid True (cr_ApproveUserIds c)). b)"
    using assms(1) set_gm_set [of uid True "cr_ApproveUserIds c"] by (fastforce simp: request_ok_def)
  with assms show ?thesis by (simp add: request_ok_def fst_set_gm_set)
qed

section \<open>The operations on a request\<close>

text \<open>
  A started request: the one field that the vote depends on is set, the times are stamped.
\<close>

definition started_from :: "consensus_request \<Rightarrow> consensus_request \<Rightarrow> bool" where
  "started_from c d \<longleftrightarrow>
     \<not> cr_Executed c \<and> cr_Executed d \<and>
     d = c\<lparr>cr_Executed := True, cr_StartTime := cr_StartTime d, cr_CompleteTime := cr_CompleteTime d\<rparr>"

text \<open>What \<open>start\<close> needs in order to run at all.\<close>

definition can_start :: "server \<Rightarrow> consensus_request \<Rightarrow> bool" where
  "can_start s c \<longleftrightarrow> request_template s c \<noteq> None \<and> \<not> cr_Executed c"

lemma start_refused:
  assumes "get_request s crr = Some c" "\<not> can_start s c"
  shows "Request_start e crr s = (Inr False, s)"
  using assms by (auto simp: Request_start_def can_start_def split: option.split)

text \<open>The state in which \<open>start\<close> calls \<open>Execute\<close>.\<close>

definition starting :: "env \<Rightarrow> ref \<Rightarrow> server \<Rightarrow> server" where
  "starting e crr s = upd_request crr (\<lambda>c. c\<lparr>cr_Executed := True, cr_StartTime := unix (env_now e)\<rparr>) s"

lemma upd_request_upd_request: "upd_request r f (upd_request r g s) = upd_request r (\<lambda>c. f (g c)) s"
  by (simp add: upd_request_def h_upd_def)

lemma start_runs:
  assumes "get_request s crr = Some c" "can_start s c"
  obtains strategy t r where
    "request_template s c = Some t" "GetExecutionStrategy t = Some strategy"
    "Execute e strategy crr (starting e crr s) = r"
    "Request_start e crr s =
      (case r of (Inl p, u) \<Rightarrow> (Inl p, u)
       | (Inr _, u) \<Rightarrow> (Inr True, upd_request crr (\<lambda>c. c\<lparr>cr_CompleteTime := unix (env_now e)\<rparr>) u))"
proof -
  from assms obtain t where t: "request_template s c = Some t" "\<not> cr_Executed c"
    by (auto simp: can_start_def)
  obtain strategy where st: "GetExecutionStrategy t = Some strategy"
    using GetExecutionStrategy_Some by blast
  show ?thesis
    using that [OF t(1) st refl] assms(1) t st
    by (simp add: Request_start_def starting_def upd_request_upd_request)
qed

text \<open>Starting keeps everything but the request, the coordinator and the tasks.\<close>

lemma start_keeps:
  assumes "\<And>f t. g (upd_request crr f t) = g t" "\<And>st t. g (snd (Execute e st crr t)) = g t"
  shows "g (snd (Request_start e crr s)) = g s"
proof -
  have ex: "g u = g t" if "Execute e st crr t = (r, u)" for st t r u
    using assms(2) [of st t] that by simp
  show ?thesis
    unfolding Request_start_def Let_def
    by (auto simp: assms(1) split: option.split prod.split sum.split dest!: ex)
qed

lemma start_frame [simp]:
  "srv_clients (snd (Request_start e crr s)) = srv_clients s"
  "srv_userStore (snd (Request_start e crr s)) = srv_userStore s"
  "srv_templateStore (snd (Request_start e crr s)) = srv_templateStore s"
  "con_Pending (srv_consensus (snd (Request_start e crr s))) = con_Pending (srv_consensus s)"
  "con_file (srv_consensus (snd (Request_start e crr s))) = con_file (srv_consensus s)"
  "length (con_heap (srv_consensus (snd (Request_start e crr s)))) = length (con_heap (srv_consensus s))"
  "srv_httpCheckStore (snd (Request_start e crr s)) = srv_httpCheckStore s"
  "srv_notifications (snd (Request_start e crr s)) = srv_notifications s"
  "srv_done (snd (Request_start e crr s)) = srv_done s" "srv_audit (snd (Request_start e crr s)) = srv_audit s"
  by (rule start_keeps; simp)+

lemma start_other: "r \<noteq> crr \<Longrightarrow> get_request (snd (Request_start e crr s)) r = get_request s r"
  by (rule start_keeps; simp)

lemma start_request:
  assumes "get_request s crr = Some c" "can_start s c"
  shows "\<exists>d. get_request (snd (Request_start e crr s)) crr = Some d \<and> started_from c d"
proof -
  from assms obtain strategy r where r: "Execute e strategy crr (starting e crr s) = r"
    "Request_start e crr s =
      (case r of (Inl p, u) \<Rightarrow> (Inl p, u)
       | (Inr _, u) \<Rightarrow> (Inr True, upd_request crr (\<lambda>c. c\<lparr>cr_CompleteTime := unix (env_now e)\<rparr>) u))"
    by (rule start_runs)
  have "srv_consensus (snd r) = srv_consensus (starting e crr s)"
    using r(1) Execute_frame(4) [of e strategy crr "starting e crr s"] by simp
  then have "get_request (snd r) crr = Some (c\<lparr>cr_Executed := True, cr_StartTime := unix (env_now e)\<rparr>)"
    using assms(1) by (simp add: starting_def)
  then show ?thesis
    using assms(2) r(2) by (cases r; cases "fst r") (simp_all add: started_from_def can_start_def)
qed

text \<open>The outcome of a check in one place: enough votes for the template, or nothing happens.\<close>

definition check_passes :: "server \<Rightarrow> consensus_request \<Rightarrow> bool" where
  "check_passes s c \<longleftrightarrow>
     (case request_template s c of
        None \<Rightarrow> False
      | Some t \<Rightarrow> \<not> (of_nat (voteCount c) :: 64 word) < acl_MinAuth (tmpl_Acl t) \<and> \<not> cr_Executed c)"

lemma check_fails:
  assumes "get_request s crr = Some c" "\<not> check_passes s c"
  shows "Request_check e crr s = (Inr False, s)"
  using assms start_refused [OF assms(1)]
  by (auto simp: Request_check_def check_passes_def can_start_def split: option.splits)

lemma check_starts:
  assumes "get_request s crr = Some c" "check_passes s c"
  shows "Request_check e crr s = Request_start e crr s" "can_start s c"
  using assms by (auto simp: Request_check_def check_passes_def can_start_def split: option.splits)

lemma check_keeps:
  assumes "\<And>t. g (snd (Request_start e crr t)) = g t"
  shows "g (snd (Request_check e crr s)) = g s"
  using assms by (simp add: Request_check_def split: option.split)

lemma check_frame [simp]:
  "srv_clients (snd (Request_check e crr s)) = srv_clients s"
  "srv_userStore (snd (Request_check e crr s)) = srv_userStore s"
  "srv_templateStore (snd (Request_check e crr s)) = srv_templateStore s"
  "con_Pending (srv_consensus (snd (Request_check e crr s))) = con_Pending (srv_consensus s)"
  "con_file (srv_consensus (snd (Request_check e crr s))) = con_file (srv_consensus s)"
  "length (con_heap (srv_consensus (snd (Request_check e crr s)))) = length (con_heap (srv_consensus s))"
  "srv_httpCheckStore (snd (Request_check e crr s)) = srv_httpCheckStore s"
  "srv_notifications (snd (Request_check e crr s)) = srv_notifications s"
  "srv_done (snd (Request_check e crr s)) = srv_done s" "srv_audit (snd (Request_check e crr s)) = srv_audit s"
  by (rule check_keeps; simp)+

lemma check_other: "r \<noteq> crr \<Longrightarrow> get_request (snd (Request_check e crr s)) r = get_request s r"
  by (rule check_keeps) (rule start_other)

lemma check_request:
  assumes "get_request s crr = Some c"
  obtains (same) "\<not> check_passes s c" "snd (Request_check e crr s) = s"
  | (started) d where "check_passes s c" "get_request (snd (Request_check e crr s)) crr = Some d" "started_from c d"
proof (cases "check_passes s c")
  case True
  then show ?thesis
    using check_starts [OF assms True] start_request [OF assms, of e] started by metis
qed (use check_fails [OF assms] same in simp)

text \<open>\<open>Approve\<close>: nothing for the requester or a repeated vote, else a vote and a check.\<close>

definition vote :: "user \<Rightarrow> ref \<Rightarrow> server \<Rightarrow> server" where
  "vote user crr s = audit_request ''Approve '' user crr
     (upd_request crr (\<lambda>c. c\<lparr>cr_ApproveUserIds := gm_set (user_Id user) True (cr_ApproveUserIds c)\<rparr>) s)"

definition may_vote :: "user \<Rightarrow> consensus_request \<Rightarrow> bool" where
  "may_vote user c \<longleftrightarrow> cr_RequestUserId c \<noteq> user_Id user \<and> \<not> gm_true (cr_ApproveUserIds c) (user_Id user)"

lemma Approve_eq:
  assumes "get_request s crr = Some c"
  shows "Request_Approve e user crr s =
    (if may_vote user c then
       (case Request_check e crr (vote user crr s) of (Inl p, u) \<Rightarrow> (Inl p, u) | (Inr _, u) \<Rightarrow> (Inr True, u))
     else (Inr False, s))"
  using assms by (simp add: Request_Approve_def may_vote_def vote_def)

lemma Approve_snd:
  assumes "get_request s crr = Some c"
  shows "snd (Request_Approve e user crr s) =
    (if may_vote user c then snd (Request_check e crr (vote user crr s)) else s)"
  by (simp add: Approve_eq [OF assms] split: prod.split sum.split)

lemma Approve_keeps:
  assumes "\<And>f t. g (upd_request crr f t) = g t" "\<And>v u t. g (audit_request v u crr t) = g t"
    "\<And>t. g (snd (Request_check e crr t)) = g t"
  shows "g (snd (Request_Approve e user crr s)) = g s"
proof (cases "get_request s crr")
  case (Some c)
  then show ?thesis by (simp add: Approve_snd assms vote_def)
qed (simp add: Request_Approve_def)

lemma Approve_frame [simp]:
  "srv_clients (snd (Request_Approve e u crr s)) = srv_clients s"
  "srv_userStore (snd (Request_Approve e u crr s)) = srv_userStore s"
  "srv_templateStore (snd (Request_Approve e u crr s)) = srv_templateStore s"
  "con_Pending (srv_consensus (snd (Request_Approve e u crr s))) = con_Pending (srv_consensus s)"
  "con_file (srv_consensus (snd (Request_Approve e u crr s))) = con_file (srv_consensus s)"
  "length (con_heap (srv_consensus (snd (Request_Approve e u crr s)))) = length (con_heap (srv_consensus s))"
  "srv_httpCheckStore (snd (Request_Approve e u crr s)) = srv_httpCheckStore s"
  "srv_notifications (snd (Request_Approve e u crr s)) = srv_notifications s"
  "srv_done (snd (Request_Approve e u crr s)) = srv_done s"
  by (rule Approve_keeps; simp)+

lemma Approve_other: "r \<noteq> crr \<Longrightarrow> get_request (snd (Request_Approve e u crr s)) r = get_request s r"
  by (rule Approve_keeps) (simp_all add: check_other)

section \<open>Refinement of the ballot\<close>

text \<open>The number of votes that a request's template asks for; \<open>None\<close> when it is gone.\<close>

definition votes_needed :: "server \<Rightarrow> consensus_request \<Rightarrow> nat option" where
  "votes_needed s c = map_option (\<lambda>t. unat (acl_MinAuth (tmpl_Acl t))) (request_template s c)"

lemma request_template_cong [simp]:
  "request_template (upd_request r f s) = request_template s"
  by (simp add: request_template_def fun_eq_iff)

lemma started_from_fields:
  assumes "started_from c d"
  shows "cr_Id d = cr_Id c" "cr_TemplateId d = cr_TemplateId c" "cr_ClientIds d = cr_ClientIds c"
    "cr_RequestUserId d = cr_RequestUserId c" "cr_ApproveUserIds d = cr_ApproveUserIds c"
    "cr_CreateTime d = cr_CreateTime c" "cr_Callbacks d = cr_Callbacks c" "cr_Reason d = cr_Reason c"
    "cr_Executed d" "\<not> cr_Executed c"
proof -
  obtain st ct where "d = c\<lparr>cr_Executed := True, cr_StartTime := st, cr_CompleteTime := ct\<rparr>" "\<not> cr_Executed c"
    using assms unfolding started_from_def by blast
  then show "cr_Id d = cr_Id c" "cr_TemplateId d = cr_TemplateId c" "cr_ClientIds d = cr_ClientIds c"
    "cr_RequestUserId d = cr_RequestUserId c" "cr_ApproveUserIds d = cr_ApproveUserIds c"
    "cr_CreateTime d = cr_CreateTime c" "cr_Callbacks d = cr_Callbacks c" "cr_Reason d = cr_Reason c"
    "cr_Executed d" "\<not> cr_Executed c"
    by simp_all
qed

lemma started_ballot: "started_from c d \<Longrightarrow> ballot_of d = (ballot_of c)\<lparr>bal_started := True\<rparr>"
  by (simp add: ballot_of_def started_from_fields)

lemma check_passes_iff:
  assumes "request_ok c" "votes_fit c"
  shows "check_passes s c \<longleftrightarrow>
    (\<exists>n. votes_needed s c = Some n \<and> n \<le> bal_votes (ballot_of c)) \<and> \<not> cr_Executed c"
  unfolding check_passes_def votes_needed_def enough_votes_iff [OF assms(2)]
  unfolding voteCount_ballot [OF assms(1)]
  by (auto split: option.split)

lemma bal_check_started: "bal_started b \<Longrightarrow> bal_check n b = b"
  by (simp add: bal_check_def)

lemma check_refines:
  assumes "get_request s crr = Some c" "request_ok c" "votes_fit c"
  shows "\<exists>d. get_request (snd (Request_check e crr s)) crr = Some d \<and>
    ballot_of d = (case votes_needed s c of None \<Rightarrow> ballot_of c | Some n \<Rightarrow> bal_check n (ballot_of c))"
  using assms(1)
proof (cases rule: check_request [where e = e])
  case same
  have "bal_check n (ballot_of c) = ballot_of c" if "votes_needed s c = Some n" for n
  proof (cases "cr_Executed c")
    case True
    then show ?thesis by (intro bal_check_started) (simp add: ballot_of_def)
  next
    case False
    with same(1) that show ?thesis by (simp add: check_passes_iff [OF assms(2,3)] bal_check_def)
  qed
  then show ?thesis using same assms(1) by (simp split: option.split)
next
  case (started d)
  then obtain n where "votes_needed s c = Some n" "n \<le> bal_votes (ballot_of c)"
    by (auto simp: check_passes_iff [OF assms(2,3)])
  then show ?thesis using started started_ballot by (simp add: bal_check_def)
qed

lemma Approve_refines:
  assumes "get_request s crr = Some c" "request_ok c" "voteCount c + 1 < 2 ^ 64"
  shows "\<exists>d. get_request (snd (Request_Approve e user crr s)) crr = Some d \<and>
    ballot_of d = bal_approve (votes_needed s c) (user_Id user) (ballot_of c)"
proof (cases "may_vote user c")
  case False
  then have "bal_approve (votes_needed s c) (user_Id user) (ballot_of c) = ballot_of c"
    using voted_iff [OF assms(2)] by (auto simp: may_vote_def bal_approve_def ballot_of_def)
  with False show ?thesis by (simp add: Approve_snd [OF assms(1)] assms(1))
next
  case True
  let ?c = "c\<lparr>cr_ApproveUserIds := gm_set (user_Id user) True (cr_ApproveUserIds c)\<rparr>"
  have new: "user_Id user \<notin> fst ` set (cr_ApproveUserIds c)"
    using True voted_iff [OF assms(2)] by (simp add: may_vote_def ballot_of_def)
  then have "votes_fit ?c"
    using assms(3) by (simp add: votes_fit_def voteCount_def length_gm_set_new gm_get_None_iff)
  moreover have "request_ok ?c" using True by (intro request_ok_vote [OF assms(2)]) (auto simp: may_vote_def)
  moreover have "get_request (vote user crr s) crr = Some ?c" by (simp add: vote_def assms(1))
  ultimately obtain d where
    "get_request (snd (Request_check e crr (vote user crr s))) crr = Some d"
    "ballot_of d = (case votes_needed (vote user crr s) ?c of None \<Rightarrow> ballot_of ?c | Some n \<Rightarrow> bal_check n (ballot_of ?c))"
    using check_refines by blast
  moreover have "votes_needed (vote user crr s) ?c = votes_needed s c"
    by (simp add: votes_needed_def request_template_def vote_def)
  moreover have "ballot_of ?c = (ballot_of c)\<lparr>bal_approvers := insert (user_Id user) (bal_approvers (ballot_of c))\<rparr>"
    by (simp add: ballot_of_def fst_set_gm_set)
  moreover have "user_Id user \<noteq> bal_requester (ballot_of c)" "user_Id user \<notin> bal_approvers (ballot_of c)"
    using True new by (auto simp: may_vote_def ballot_of_def)
  ultimately show ?thesis
    using True by (simp add: Approve_snd [OF assms(1)] bal_approve_def Let_def split: option.split)
qed

section \<open>Approving implements the ballot\<close>

text \<open>
  C6: \<open>Approve\<close> implements the ballot: the requester's approval and a second approval of the same
  person change nothing; any other approval adds one vote, and the request is started as soon
  as the votes, counted per person, reach the number its template asks for.
\<close>

theorem Approve_implements_ballot:
  assumes "get_request s crr = Some c" "request_ok c" "voteCount c + 1 < 2 ^ 64"
  shows "\<exists>d. get_request (snd (Request_Approve e user crr s)) crr = Some d \<and>
    ballot_of d = bal_approve (votes_needed s c) (user_Id user) (ballot_of c)"
  by (rule Approve_refines [OF assms])

definition sample_request_object :: consensus_request where
  "sample_request_object =
     (newConsensusRequest ''r1'' 0)\<lparr>cr_TemplateId := ''t1'', cr_ClientIds := [''c1''], cr_RequestUserId := ''u2''\<rparr>"

definition voting_server :: server where
  "voting_server = sample_server\<lparr>srv_consensus :=
     \<lparr>con_Pending = [(''r1'', 0)], con_heap = [sample_request_object], con_file = NoFile\<rparr>\<rparr>"

theorem Approve_implements_ballot_witness:
  "\<exists>d. get_request (snd (Request_Approve sample_env sample_user 0 voting_server)) 0 = Some d \<and>
    ballot_of d = \<lparr>bal_requester = ''u2'', bal_approvers = {''u1''}, bal_started = True\<rparr>"
proof -
  have c: "get_request voting_server 0 = Some sample_request_object" by (simp add: voting_server_def h_get_def)
  have ok: "request_ok sample_request_object" "voteCount sample_request_object + 1 < 2 ^ 64"
    by (simp_all add: sample_request_object_def request_ok_def newConsensusRequest_def voteCount_def)
  have "votes_needed voting_server sample_request_object = Some 1"
    by (simp add: votes_needed_def request_template_def voting_server_def sample_request_object_def sample_template_def)
  then have "bal_approve (votes_needed voting_server sample_request_object) (user_Id sample_user) (ballot_of sample_request_object)
      = \<lparr>bal_requester = ''u2'', bal_approvers = {''u1''}, bal_started = True\<rparr>"
    by (simp add: bal_approve_def ballot_of_def sample_request_object_def newConsensusRequest_def sample_user_def
        bal_check_def bal_votes_def)
  with Approve_implements_ballot [OF c ok, of sample_env sample_user] show ?thesis by simp
qed

end
