(* ===== verification/Http_Handlers.thy ===== *)
theory Http_Handlers
  imports Authentication Command_State Voting
begin

text \<open>
  What all handlers of server.go share: the reply, the check of a user's session and of a
  client's request signature at their head.
\<close>

section \<open>Replies\<close>

text \<open>The values of a reply's fields; pointers are followed, as the JSON encoder does.\<close>

datatype reply_value =
    VBool bool
  | VString string
  | VStrings "string list"
  | VNumbers "(string \<times> int) list"
  | VCmds "cmd list"
  | VRequests "consensus_request list"
  | VTemplate template
  | VTemplates "(string \<times> template) list"
  | VUsers "user list"
  | VNames "(string \<times> string) list"
  | VClients "registered_client list"
  | VChecks "(string \<times> http_check) list"

text \<open>\<open>jr.Error(msg)\<close>, \<open>jr.OK()\<close> with the fields set before, and a handler that writes nothing.\<close>

datatype reply = RError string | ROk "(string \<times> reply_value) list" | RNothing

definition reply_error :: "string \<Rightarrow> server \<Rightarrow> reply outcome" where
  "reply_error msg s = (Inr (RError msg), s)"

definition reply_ok :: "(string \<times> reply_value) list \<Rightarrow> server \<Rightarrow> reply outcome" where
  "reply_ok fs s = (Inr (ROk fs), s)"

lemma reply_simps [simp, go_simps]:
  "reply_error msg s = (Inr (RError msg), s)" "reply_ok fs s = (Inr (ROk fs), s)"
  by (simp_all add: reply_error_def reply_ok_def)

section \<open>The head of a handler\<close>

text \<open>
  \<open>if !authUser(r) { jr.Error(msg); return }\<close>, followed by the rest of the handler.
\<close>

definition if_authUser ::
  "env \<Rightarrow> http_request \<Rightarrow> string \<Rightarrow> (server \<Rightarrow> reply outcome) \<Rightarrow> server \<Rightarrow> reply outcome"
where
  "if_authUser e r msg body s =
     (case authUser r (env_now e) (srv_userStore s) of
        (False, us) \<Rightarrow> reply_error msg (on_users (\<lambda>_. us) s)
      | (True, us) \<Rightarrow> body (on_users (\<lambda>_. us) s))"

text \<open>
  The same followed by \<open>user := getUser(r)\<close>; the rest of the handler gets the pointer and the
  user it leads to. A nil pointer is followed by the first method call on it.
\<close>

definition as_user ::
  "env \<Rightarrow> http_request \<Rightarrow> string \<Rightarrow> (nat \<Rightarrow> user \<Rightarrow> server \<Rightarrow> reply outcome) \<Rightarrow> server \<Rightarrow> reply outcome"
where
  "as_user e r msg body =
     if_authUser e r msg (\<lambda>s.
       case getUser r (env_now e) (srv_userStore s) of
         None \<Rightarrow> (Inl NilDeref, s)
       | Some i \<Rightarrow>
           (case get_user (srv_userStore s) i of
              None \<Rightarrow> (Inl NilDeref, s)
            | Some user \<Rightarrow> body i user s))"

text \<open>\<open>auth\<close>: the signature of a client's request, over the address and the shared token.\<close>

definition signedToken :: "conf \<Rightarrow> string \<Rightarrow> string" where
  "signedToken cf uri = b64_encode (sha256 (uri @ conf_Token cf))"

definition auth :: "conf \<Rightarrow> http_request \<Rightarrow> bool" where
  "auth cf r = (if rq_XAuth r \<noteq> signedToken cf (rq_Url r) then False else True)"

section \<open>What the head guarantees\<close>

text \<open>The user that a request acts for.\<close>

definition session_user :: "env \<Rightarrow> http_request \<Rightarrow> server \<Rightarrow> user option" where
  "session_user e r s =
     (case getUser r (env_now e) (srv_userStore s) of
        None \<Rightarrow> None
      | Some i \<Rightarrow> get_user (srv_userStore s) i)"

definition touch :: "env \<Rightarrow> http_request \<Rightarrow> nat \<Rightarrow> server \<Rightarrow> server" where
  "touch e r i = on_users (upd_user i (TouchSession (env_now e) (rq_RemoteAddr r)))"

lemma touch_simps [simp, go_simps]:
  "srv_clients (touch e r i s) = srv_clients s"
  "srv_userStore (touch e r i s) = upd_user i (TouchSession (env_now e) (rq_RemoteAddr r)) (srv_userStore s)"
  "srv_templateStore (touch e r i s) = srv_templateStore s"
  "srv_consensus (touch e r i s) = srv_consensus s"
  "srv_executionCoordinator (touch e r i s) = srv_executionCoordinator s"
  "srv_httpCheckStore (touch e r i s) = srv_httpCheckStore s"
  "srv_notifications (touch e r i s) = srv_notifications s"
  "srv_tasks (touch e r i s) = srv_tasks s" "srv_done (touch e r i s) = srv_done s" "srv_audit (touch e r i s) = srv_audit s"
  by (simp_all add: touch_def)

lemma on_users_same [simp]: "on_users (\<lambda>_. srv_userStore s) s = s"
  by (simp add: on_users_def)

lemma on_users_const: "on_users (\<lambda>_. f (srv_userStore s)) s = on_users f s"
  by (simp add: on_users_def)

lemma if_authUser_refused:
  assumes "getUser r (env_now e) (srv_userStore s) = None"
  shows "if_authUser e r msg body s = (Inr (RError msg), s)"
  using assms by (simp add: if_authUser_def authUser_def)

lemma if_authUser_admitted:
  assumes "getUser r (env_now e) (srv_userStore s) = Some i"
  shows "if_authUser e r msg body s = body (touch e r i s)"
  using assms by (simp add: if_authUser_def authUser_def touch_def on_users_const)

lemma session_user_None: "session_user e r s = None \<longleftrightarrow> getUser r (env_now e) (srv_userStore s) = None"
proof (cases "getUser r (env_now e) (srv_userStore s)")
  case (Some i)
  then have "\<exists>u. get_user (srv_userStore s) i = Some u" unfolding getUser_Some_iff by blast
  with Some show ?thesis by (auto simp: session_user_def)
qed (simp add: session_user_def)

lemma session_user_Some:
  "session_user e r s = Some u \<longleftrightarrow>
     (\<exists>i. getUser r (env_now e) (srv_userStore s) = Some i \<and> get_user (srv_userStore s) i = Some u)"
  by (simp add: session_user_def split: option.split)

lemma as_user_refused:
  assumes "session_user e r s = None"
  shows "as_user e r msg body s = (Inr (RError msg), s)"
  using assms by (simp add: as_user_def if_authUser_refused session_user_None)

text \<open>The nil branch is dead: the user that passed the check is found again, only touched.\<close>

lemma as_user_admitted:
  assumes "getUser r (env_now e) (srv_userStore s) = Some i" "get_user (srv_userStore s) i = Some u"
  shows "as_user e r msg body s =
    body i (TouchSession (env_now e) (rq_RemoteAddr r) u) (touch e r i s)"
  using assms getUser_touched [OF assms(1)] by (simp add: as_user_def if_authUser_admitted)

lemma as_user_cases:
  obtains
    (refused) "session_user e r s = None" "\<And>msg body. as_user e r msg body s = (Inr (RError msg), s)"
  | (admitted) i u where "session_user e r s = Some u"
      "getUser r (env_now e) (srv_userStore s) = Some i" "get_user (srv_userStore s) i = Some u"
      "\<And>msg body. as_user e r msg body s =
         body i (TouchSession (env_now e) (rq_RemoteAddr r) u) (touch e r i s)"
proof (cases "session_user e r s")
  case None
  then show ?thesis using refused as_user_refused by blast
next
  case (Some u)
  then show ?thesis using admitted as_user_admitted by (metis session_user_Some)
qed

end
