(* ===== verification/Consensus_Handlers.thy ===== *)
theory Consensus_Handlers
  imports Http_Handlers
begin

text \<open>
  The handlers of server.go for consensus requests (create, approve, cancel, list), and the
  external http check of http_check.go, which makes a request of its own and waits for it.
\<close>

section \<open>Requests of users\<close>

definition PostConsensusRequest ::
  "ext \<Rightarrow> conf \<Rightarrow> env \<Rightarrow> http_request \<Rightarrow> server \<Rightarrow> reply outcome"
where
  "PostConsensusRequest x cf e r =
     as_user e r ''User not authorized for PostConsensusRequest'' (\<lambda>i user s.
       if \<not> HasRole user ''requester'' then reply_error ''User not allowed to PostConsensusRequest'' s
       else if fst (ValidateTotp x (env_now e) user (PostFormValue r ''totp'')) = False
       then reply_error ''Invalid two factor token'' s
       else
         let reason = TrimSpace (PostFormValue r ''reason'')
         in if length reason < 4 then reply_error ''Please provide a valid reason'' s
            else
              let templateId = TrimSpace (PostFormValue r ''template'');
                  clientIds = Split (CHR '','') (TrimSpace (PostFormValue r ''clients''))
              in (case AddRequest cf e templateId clientIds user reason s of
                    (None, s) \<Rightarrow> (Inl NilDeref, s)
                  | (Some cr, s) \<Rightarrow>
                      let s = Request_AddCallback FinishedNotification cr s
                      in (case Request_check e cr s of
                            (Inl p, s) \<Rightarrow> (Inl p, s)
                          | (Inr _, s) \<Rightarrow> reply_ok [] (consensus_save e s))))"

definition PostConsensusApprove :: "env \<Rightarrow> http_request \<Rightarrow> server \<Rightarrow> reply outcome" where
  "PostConsensusApprove e r =
     as_user e r ''User not authorized for PostConsensusApprove'' (\<lambda>i user s.
       if \<not> HasRole user ''approver'' then reply_error ''User not allowed for PostConsensusApprove'' s
       else
         let uid = TrimSpace (PostFormValue r ''id'')
         in (case Consensus_Get s uid of
               None \<Rightarrow> reply_error ''Request not found'' s
             | Some req \<Rightarrow>
                 (case Request_Approve e user req s of
                    (Inl p, s) \<Rightarrow> (Inl p, s)
                  | (Inr res, s) \<Rightarrow> reply_ok [(''approved'', VBool res)] (consensus_save e s))))"

definition DeleteConsensusRequest :: "env \<Rightarrow> http_request \<Rightarrow> server \<Rightarrow> reply outcome" where
  "DeleteConsensusRequest e r =
     as_user e r ''User not authorized for  DeleteConsensusRequest'' (\<lambda>i user s.
       if \<not> HasRole user ''requester'' then reply_error ''User not allowed to DeleteConsensusRequest'' s
       else
         let uid = TrimSpace (QueryGet r ''id'')
         in (case Consensus_Get s uid of
               None \<Rightarrow> reply_error ''Request not found'' s
             | Some req \<Rightarrow>
                 (case get_request s req of
                    None \<Rightarrow> (Inl NilDeref, s)
                  | Some c \<Rightarrow>
                      let isAdmin = HasRole user ''admin''; isCreator = (cr_RequestUserId c = user_Id user)
                      in if \<not> isAdmin \<and> \<not> isCreator
                         then reply_error ''Only the creator or admins can cancel a request'' s
                         else (case Request_Cancel user req s of
                                 (Inl p, s) \<Rightarrow> (Inl p, s)
                               | (Inr res, s) \<Rightarrow> reply_ok [(''cancelled'', VBool res)] (consensus_save e s)))))"

text \<open>The loop of \<open>GetConsensusPending\<close>: the requests to wait for, and those to vote on.\<close>

fun sort_pending ::
  "user \<Rightarrow> server \<Rightarrow> (string \<times> ref) list \<Rightarrow> consensus_request list \<times> consensus_request list"
where
  "sort_pending user s [] = ([], [])"
| "sort_pending user s ((k, r) # m) =
     (let (pending, work) = sort_pending user s m
      in case get_request s r of
           None \<Rightarrow> (pending, work)
         | Some req \<Rightarrow>
             if cr_Executed req then (pending, work)
             else if cr_RequestUserId req = user_Id user then (req # pending, work)
             else if gm_true (cr_ApproveUserIds req) (user_Id user) = True then (req # pending, work)
             else (pending, req # work))"

definition GetConsensusPending :: "env \<Rightarrow> http_request \<Rightarrow> server \<Rightarrow> reply outcome" where
  "GetConsensusPending e r =
     as_user e r ''User not authorized for GetConsensusPending'' (\<lambda>i user s.
       let (pending, work) = sort_pending user s (con_Pending (srv_consensus s))
       in reply_ok [(''requests'', VRequests pending), (''server_instance_id'', VString (srv_InstanceId s)),
                    (''work'', VRequests work)] s)"

section \<open>The external http check\<close>

text \<open>
  Up to the \<open>select\<close>: the reply if the handler has returned, otherwise the request it waits for
  and its channel. Then the two branches of the \<open>select\<close>: the channel is taken from, or the
  timer fired (\<open>None\<close>: neither, the handler still waits).
\<close>

definition GetHttpCheck_start ::
  "conf \<Rightarrow> env \<Rightarrow> http_request \<Rightarrow> server \<Rightarrow> (reply + ref \<times> ref) outcome"
where
  "GetHttpCheck_start cf e r s =
     (case HttpCheckStore_Get (srv_httpCheckStore s) (ParamByName r ''id'') of
        None \<Rightarrow> (Inr (Inl (RError ''Check not found'')), s)
      | Some c \<Rightarrow>
          if hc_Enabled c = False then (Inr (Inl (RError ''Check not found'')), s)
          else
            let token = QueryGet r ''token''
            in if length token < 1 \<or> token \<noteq> hc_SecureToken c
               then (Inr (Inl (RError ''Secure token invalid'')), s)
               else (case AddRequest cf e (hc_TemplateId c) (hc_ClientIds c)
                            (hs_SystemUser (srv_httpCheckStore s)) [] s of
                       (None, s) \<Rightarrow> (Inr (Inl (RError ''Unable to start check'')), s)
                     | (Some cr, s) \<Rightarrow>
                         let done_ch = length (srv_done s);
                             s = s\<lparr>srv_done := srv_done s @ [0]\<rparr>;
                             s = Request_AddCallback (HttpCheckDone done_ch) cr s
                         in (case Request_check e cr s of
                               (Inl p, s) \<Rightarrow> (Inl p, s)
                             | (Inr _, s) \<Rightarrow> (Inr (Inr (cr, done_ch)), s))))"

definition GetHttpCheck_select :: "bool \<Rightarrow> ref \<Rightarrow> ref \<Rightarrow> server \<Rightarrow> reply outcome option" where
  "GetHttpCheck_select timed_out cr done_ch s =
     (if timed_out then Some (reply_error ''Timeout'' s)
      else case h_get (srv_done s) done_ch of
        None \<Rightarrow> None
      | Some n \<Rightarrow>
          if n = 0 then None
          else
            let s = s\<lparr>srv_done := h_upd done_ch (\<lambda>k. k - 1) (srv_done s)\<rparr>
            in (case Request_Delete cr s of
                  (Inl p, s) \<Rightarrow> Some (Inl p, s)
                | (Inr _, s) \<Rightarrow> Some (reply_ok [] s)))"

end
