(* ===== verification/Client_Handlers.thy ===== *)
theory Client_Handlers
  imports Http_Handlers
begin

text \<open>
  The handlers of server.go for the machines: ping, key exchange, the long poll for commands,
  and the reports on a command's state and output. And the lists of clients for users.
\<close>

definition ClientPing :: "conf \<Rightarrow> env \<Rightarrow> http_request \<Rightarrow> server \<Rightarrow> reply outcome" where
  "ClientPing cf e r s =
     (if \<not> auth cf r then reply_error ''Client not authorized for ClientPing'' s
      else
        let tags = Split (CHR '','') (QueryGet r ''tags'');
            s = on_clients (RegisterClient (env_now e) (ParamByName r ''clientId'') tags) s
        in reply_ok [(''ack'', VBool True), (''server_instance_id'', VString (srv_InstanceId s))] s)"

text \<open>The client that the address of a request names.\<close>

definition request_client :: "http_request \<Rightarrow> server \<Rightarrow> (ref \<times> registered_client) option" where
  "request_client r s =
     (case GetClient (srv_clients s) (ParamByName r ''clientId'') of
        None \<Rightarrow> None
      | Some c \<Rightarrow> map_option (Pair c) (get_client (srv_clients s) c))"

definition PostClientAuth :: "conf \<Rightarrow> env \<Rightarrow> http_request \<Rightarrow> server \<Rightarrow> reply outcome" where
  "PostClientAuth cf e r s =
     (if \<not> auth cf r then reply_error ''User not authorized for PostClientAuth'' s
      else case request_client r s of
        None \<Rightarrow> reply_error ''Client not registered'' s
      | Some (c, registeredClient) \<Rightarrow>
          (case secureRandomString 32 (env_rand e 0) of
             None \<Rightarrow> reply_error ''Failed to generate token'' s
           | Some token \<Rightarrow>
               let s = on_clients (upd_client c (\<lambda>d. d\<lparr>rc_AuthToken := token\<rparr>)) s;
                   tokenSignature = b64_encode (sha256 (token @ conf_Token cf))
               in reply_ok [(''token'', VString token), (''token_signature'', VString tokenSignature)] s))"

text \<open>
  The long poll. \<open>timed_out\<close> says that the timer fires before a signal is taken: a blocked
  handler is scheduled when one of the two has happened.
\<close>

definition ClientCmds :: "bool \<Rightarrow> conf \<Rightarrow> http_request \<Rightarrow> server \<Rightarrow> reply outcome" where
  "ClientCmds timed_out cf r s =
     (if \<not> auth cf r then reply_error ''Client not authorized for ClientCmds'' s
      else case request_client r s of
        None \<Rightarrow> reply_error (''Client '' @ ParamByName r ''clientId'' @ '' not registered'') s
      | Some (c, registeredClient) \<Rightarrow>
          if length (rc_AuthToken registeredClient) < 1
          then reply_error (''Client '' @ rc_ClientId registeredClient @ '' auth token not available'') s
          else (case poll_cmds timed_out c (srv_clients s) of
                  (None, cs) \<Rightarrow> reply_ok [(''cmds'', VCmds [])] (on_clients (\<lambda>_. cs) s)
                | (Some rs, cs) \<Rightarrow>
                    reply_ok [(''cmds'', VCmds (List.map_filter (get_cmd cs) rs))] (on_clients (\<lambda>_. cs) s)))"

text \<open>\<open>DispatchedCmds[cmdId]\<close> of the client, for a command that the request names.\<close>

definition dispatched_cmd :: "http_request \<Rightarrow> registered_client \<Rightarrow> ref option" where
  "dispatched_cmd r registeredClient = gm_get (rc_DispatchedCmds registeredClient) (ParamByName r ''cmd'')"

definition PutClientCmdState :: "conf \<Rightarrow> http_request \<Rightarrow> server \<Rightarrow> reply outcome" where
  "PutClientCmdState cf r s =
     (if \<not> auth cf r then reply_error ''Client not authorized for PutClientCmdState'' s
      else case request_client r s of
        None \<Rightarrow> reply_error ''Client not registered'' s
      | Some (c, registeredClient) \<Rightarrow>
          (case dispatched_cmd r registeredClient of
             None \<Rightarrow> reply_error ''Command not found'' s
           | Some cmd \<Rightarrow> reply_ok [] (SetState cf cmd (QueryGet r ''state'') s)))"

definition append_logs :: "log_struct \<Rightarrow> cmd \<Rightarrow> cmd" where
  "append_logs m c = c\<lparr>cmd_BufOutput := cmd_BufOutput c @ ls_Output m,
                       cmd_BufOutputErr := cmd_BufOutputErr c @ ls_Error m\<rparr>"

definition PutClientCmdLogs :: "conf \<Rightarrow> http_request \<Rightarrow> server \<Rightarrow> reply outcome" where
  "PutClientCmdLogs cf r s =
     (if \<not> auth cf r then reply_error ''Client not authorized for PutClientCmdLogs'' s
      else case request_client r s of
        None \<Rightarrow> reply_error ''Client not registered'' s
      | Some (c, registeredClient) \<Rightarrow>
          (case dispatched_cmd r registeredClient of
             None \<Rightarrow> reply_error ''Command not found'' s
           | Some cmd \<Rightarrow>
               (case rq_Body r of
                  Unreadable \<Rightarrow> reply_error ''Failed to read body'' s
                | Unparsable \<Rightarrow> reply_error ''Failed to parse json'' s
                | Decoded None \<Rightarrow> (Inl NilDeref, s)
                | Decoded (Some m) \<Rightarrow> reply_ok [] (on_clients (upd_cmd cmd (append_logs m)) s))))"

definition GetClientCmdLogs :: "env \<Rightarrow> http_request \<Rightarrow> server \<Rightarrow> reply outcome" where
  "GetClientCmdLogs e r =
     if_authUser e r ''User not authorized for GetClientCmdLogs '' (\<lambda>s.
       case request_client r s of
         None \<Rightarrow> reply_error ''Client not registered'' s
       | Some (c, registeredClient) \<Rightarrow>
           (case dispatched_cmd r registeredClient of
              None \<Rightarrow> reply_error ''Command not found'' s
            | Some cmd \<Rightarrow>
                (case get_cmd (srv_clients s) cmd of
                   None \<Rightarrow> reply_error ''Command not found'' s
                 | Some d \<Rightarrow> reply_ok [(''log_output'', VStrings (cmd_BufOutput d)),
                                       (''log_error'', VStrings (cmd_BufOutputErr d))] s)))"

definition GetTags :: "env \<Rightarrow> http_request \<Rightarrow> server \<Rightarrow> reply outcome" where
  "GetTags e r =
     if_authUser e r ''User not authorized for GetTags'' (\<lambda>s.
       reply_ok [(''tags'', VStrings (map fst (cs_Tags (srv_clients s))))] s)"

text \<open>\<open>Split\<close> of an empty filter yields one empty tag, which the handler takes for no filter.\<close>

definition filter_tags :: "string \<Rightarrow> string list" where
  "filter_tags q =
     (let tags = Split (CHR '','') q in if length tags = 1 \<and> tags ! 0 = [] then [] else tags)"

definition client_listed :: "string list \<Rightarrow> string list \<Rightarrow> registered_client \<Rightarrow> bool" where
  "client_listed tagsInclude tagsExclude client =
     (if length tagsExclude > 0 \<and> list_ex (HasTag client) tagsExclude then False
      else
        let match = list_all (HasTag client) tagsInclude
        in if length tagsInclude > 0 \<and> match = False then False else True)"

definition GetClients :: "env \<Rightarrow> http_request \<Rightarrow> server \<Rightarrow> reply outcome" where
  "GetClients e r =
     if_authUser e r ''User not authorized for GetClients'' (\<lambda>s.
       let tagsInclude = filter_tags (QueryGet r ''filter_tags_include'');
           tagsExclude = filter_tags (QueryGet r ''filter_tags_exclude'');
           clients = filter (client_listed tagsInclude tagsExclude)
             (List.map_filter (\<lambda>(k, c). get_client (srv_clients s) c) (cs_clients (srv_clients s)))
       in reply_ok [(''clients'',
            VClients (map (\<lambda>client. client\<lparr>rc_DispatchedCmds := [], rc_Cmds := []\<rparr>) clients))] s)"

definition Ping :: "server \<Rightarrow> reply outcome" where
  "Ping s = reply_ok [(''ping'', VString ''pong'')] s"

end
