(* ===== verification/Admin_Handlers.thy ===== *)
theory Admin_Handlers
  imports Http_Handlers
begin

text \<open>
  The handlers of server.go for logins, users and templates, and those of http_check.go for the
  configuration of http checks.
\<close>

section \<open>Login, password, second factor\<close>

definition auth_request_of :: "http_request \<Rightarrow> auth_request" where
  "auth_request_of r =
     \<lparr>ar_login = TrimSpace (PostFormValue r ''username''),
      ar_credential = TrimSpace (PostFormValue r ''password''),
      ar_token = TrimSpace (PostFormValue r ''2fa'')\<rparr>"

text \<open>
  The service is the one that \<open>createAuthService\<close> builds when the server starts; \<open>ldap\<close> is its LDAP
  authenticator, if enabled.
\<close>

definition PostAuth ::
  "ext \<Rightarrow> authenticator option \<Rightarrow> env \<Rightarrow> http_request \<Rightarrow> server \<Rightarrow> reply outcome"
where
  "PostAuth x ldap e r s =
     (case service_authUser (createAuthService x (env_now e) ldap) (auth_request_of r) (srv_userStore s) of
        ((_, Some err), us) \<Rightarrow>
          reply_error ''Username / password / two-factor combination invalid'' (on_users (\<lambda>_. us) s)
      | ((None, None), us) \<Rightarrow> (Inl NilDeref, on_users (\<lambda>_. us) s)
      | ((Some i, None), us) \<Rightarrow>
          let s = on_users (\<lambda>_. us) s
          in (case get_user us i of
                None \<Rightarrow> (Inl NilDeref, s)
              | Some user \<Rightarrow>
                  let (user, token) = StartSession e user;
                      s = audit (Some user) ''Login'' [] s;
                      user = TouchSession (env_now e) (rq_RemoteAddr r) user;
                      s = on_users (upd_user i (\<lambda>_. user)) s;
                      s = on_users (users_save e) s
                  in reply_ok [(''session_token'', VString token),
                               (''user_roles'', VStrings (map fst (user_Roles user))),
                               (''user_id'', VString (user_Id user)),
                               (''two_factor_enabled'', VBool (HasTwoFactor user))] s))"

definition PutUserPassword :: "ext \<Rightarrow> env \<Rightarrow> http_request \<Rightarrow> server \<Rightarrow> reply outcome" where
  "PutUserPassword x e r =
     if_authUser e r ''User not authorized for PutUserPassword'' (\<lambda>s.
       let newPwd = PostFormValue r ''password''
       in if length newPwd < 16
          then reply_error ''Password must be at least 16 characters, please pick a strong one!'' s
          else
            let newPwd2 = PostFormValue r ''password2''
            in if newPwd \<noteq> newPwd2 then reply_error ''Please confirm your password'' s
               else (case getUser r (env_now e) (srv_userStore s) of
                       None \<Rightarrow> (Inr RNothing, s)
                     | Some i \<Rightarrow>
                         let s = on_users (upd_user i (\<lambda>user. user\<lparr>user_PasswordHash := fst (HashPassword x e newPwd)\<rparr>)) s;
                             s = on_users (users_save e) s
                         in reply_ok [(''saved'', VBool True)] s))"

definition enable_two_factor :: "user \<Rightarrow> user" where
  "enable_two_factor user =
     user\<lparr>user_TotpSecretValidated := True, user_AuthType := user_AuthType user OR AUTH_TYPE_TWO_FACTOR\<rparr>"

definition PutUser2fa :: "ext \<Rightarrow> env \<Rightarrow> http_request \<Rightarrow> server \<Rightarrow> reply outcome" where
  "PutUser2fa x e r =
     as_user e r ''User not authorized for PutUser2fa'' (\<lambda>i user s.
       if length (user_TotpSecret user) < 1 then reply_error ''Two factor authentication not setup'' s
       else if HasTwoFactor user then reply_error ''Two factor authentication already setup'' s
       else
         let value1 = PostFormValue r ''token_1''; value2 = PostFormValue r ''token_2''
         in if value1 = value2 \<or> TrimSpace value1 = TrimSpace value2
            then reply_error ''The two values should not be the same. Wait for the next token (in a few seconds) to show up and provide that.'' s
            else
              let valid1 = fst (ValidateTotp x (env_now e) user value1);
                  valid2 = fst (ValidateTotp x (env_now e) user value2);
                  res = (valid1 \<and> valid2)
              in if res = False
                 then reply_error ''The two tokens do not match. Make sure that the clock is set correctly on your mobile device and the Indispenso server.'' s
                 else
                   let s = on_users (upd_user i enable_two_factor) s;
                       s = on_users (users_save e) s
                   in reply_ok [(''enabled'', VBool res)] s)"

definition GetUser2fa :: "ext \<Rightarrow> env \<Rightarrow> http_request \<Rightarrow> server \<Rightarrow> reply outcome" where
  "GetUser2fa x e r =
     as_user e r ''User not authorized for GetUser2fa'' (\<lambda>i user s.
       if HasTwoFactor user then reply_error ''Two factor authentication already setup'' s
       else
         let user = GenerateOTPSecret e user;
             s = on_users (upd_user i (\<lambda>_. user)) s;
             s = on_users (users_save e) s
         in (case TotpQrImage x user of
               Inl err \<Rightarrow> reply_error err s
             | Inr png \<Rightarrow> reply_ok [(''Secret'', VString (user_TotpSecret user)), (''Png'', VString png)] s))"

section \<open>Users\<close>

definition DeleteUser :: "ext \<Rightarrow> env \<Rightarrow> http_request \<Rightarrow> server \<Rightarrow> reply outcome" where
  "DeleteUser x e r =
     as_user e r ''User not authorized for DeleteUser'' (\<lambda>i usr s.
       if \<not> HasRole usr ''admin'' then reply_error ''User not allowed to DeleteUser'' s
       else if fst (ValidateTotp x (env_now e) usr (QueryGet r ''admin_totp'')) = False
       then reply_error ''Invalid two factor token'' s
       else
         let username = TrimSpace (QueryGet r ''username'')
         in if user_Username usr = username
            then reply_error ''You can not remove yourself. If you want to achieve this, make a new admin account. Login as that new account and then remove the old account.'' s
            else
              let s = on_users (RemoveByName username) s;
                  s = on_users (users_save e) s
              in reply_ok [(''saved'', VBool True)] s)"

definition PostUser :: "ext \<Rightarrow> env \<Rightarrow> http_request \<Rightarrow> server \<Rightarrow> reply outcome" where
  "PostUser x e r =
     as_user e r ''User not authorized for PostUser'' (\<lambda>i usr s.
       if \<not> HasRole usr ''admin'' then reply_error ''User not allowed to PostUser'' s
       else if fst (ValidateTotp x (env_now e) usr (PostFormValue r ''admin_totp'')) = False
       then reply_error ''Invalid two factor token'' s
       else
         let username = PostFormValue r ''username''; email = PostFormValue r ''email'';
             newPwd = PostFormValue r ''password''
         in if length newPwd < 16
            then reply_error ''Password must be at least 16 characters, please pick a strong one!'' s
            else if newPwd \<noteq> PostFormValue r ''password2''
            then reply_error ''Please confirm your password'' s
            else
              let roles = Split (CHR '','') (PostFormValue r ''roles'')
              in (case CreateUser x e username newPwd email roles (srv_userStore s) of
                    None \<Rightarrow> (Inl LogFatal, s)
                  | Some (res, us) \<Rightarrow>
                      reply_ok [(''saved'', VBool res)] (on_users (\<lambda>_. users_save e us) s)))"

text \<open>
  The loop of \<open>PutUser\<close> over the keys of the form: \<open>enable\<close> is applied when it comes up, an
  unknown key ends the handler with what has been applied so far. The result says whether the
  loop got to its end.
\<close>

fun change_user :: "ext \<Rightarrow> http_request \<Rightarrow> string list \<Rightarrow> user \<Rightarrow> bool \<times> user" where
  "change_user x r [] user = (True, user)"
| "change_user x r (key # keys) user =
     (if key = ''enable'' then
        change_user x r keys (user\<lparr>user_Enabled := cast_ToBool x (PostFormValue r key)\<rparr>)
      else if key = ''username'' \<or> key = ''token'' then change_user x r keys user
      else (False, user))"

definition PutUser :: "ext \<Rightarrow> env \<Rightarrow> http_request \<Rightarrow> server \<Rightarrow> reply outcome" where
  "PutUser x e r =
     as_user e r ''User not authorized for Change User'' (\<lambda>i admin s.
       if \<not> HasRole admin ''admin'' then reply_error ''User not allowed to Change User'' s
       else if fst (ValidateTotp x (env_now e) admin (PostFormValue r ''token'')) = False
       then reply_error ''Invalid two factor token'' s
       else
         let username = PostFormValue r ''username''
         in (case ByName (srv_userStore s) username of
               None \<Rightarrow> reply_error ''Cannot find user to modify'' s
             | Some j \<Rightarrow>
                 (case get_user (srv_userStore s) j of
                    None \<Rightarrow> (Inl NilDeref, s)
                  | Some user \<Rightarrow>
                      let (complete, user) = change_user x r (map fst (rq_PostForm r)) user;
                          s = on_users (upd_user j (\<lambda>_. user)) s
                      in if complete
                         then reply_ok [(''changed'', VBool True)] (on_users (users_save e) s)
                         else reply_error ''Invalid change request'' s)))"

definition GetUsersNames :: "env \<Rightarrow> http_request \<Rightarrow> server \<Rightarrow> reply outcome" where
  "GetUsersNames e r =
     if_authUser e r ''User not authorized for GetUsersNames'' (\<lambda>s.
       reply_ok [(''users'', VNames (map (\<lambda>u. (user_Id u, user_Username u)) (us_Users (srv_userStore s))))] s)"

text \<open>The copy with the sensitive fields hidden.\<close>

definition public_user :: "user \<Rightarrow> user" where
  "public_user user = user\<lparr>user_PasswordHash := [], user_SessionToken := [], user_TotpSecret := []\<rparr>"

definition GetUsers :: "env \<Rightarrow> http_request \<Rightarrow> server \<Rightarrow> reply outcome" where
  "GetUsers e r =
     as_user e r ''User not authorized for GetUsers'' (\<lambda>i usr s.
       if \<not> HasRole usr ''admin'' then reply_error ''User not allowed to GetUsers'' s
       else reply_ok [(''users'', VUsers (map public_user (us_Users (srv_userStore s)))),
                      (''authTypes'', VNumbers AuthTypes)] s)"

section \<open>Templates\<close>

definition GetTemplate :: "env \<Rightarrow> http_request \<Rightarrow> server \<Rightarrow> reply outcome" where
  "GetTemplate e r =
     if_authUser e r ''User not authorized for GetTemplate'' (\<lambda>s.
       reply_ok [(''templates'', VTemplates (ts_Templates (srv_templateStore s)))] s)"

definition strategy_of :: "string \<Rightarrow> execution_strategy option" where
  "strategy_of str =
     (if str = ''simple'' then Some (newExecutionStrategy SimpleExecutionStrategy)
      else if str = ''one-test'' then Some (newExecutionStrategy OneTestExecutionStrategy)
      else if str = ''rolling'' then Some (newExecutionStrategy RollingExecutionStrategy)
      else if str = ''exponential-rolling''
      then Some (newExecutionStrategy ExponentialRollingExecutionStrategy)
      else None)"

text \<open>
  The checks of a number field, in the order of the code: the error text, or the number.
\<close>

definition number_text :: "num_error \<Rightarrow> string \<Rightarrow> string" where
  "number_text err str =
     ''strconv.ParseInt: parsing '' @ Quote str @ '': ''
       @ (case err of ErrSyntax \<Rightarrow> ''invalid syntax'' | ErrRange \<Rightarrow> ''value out of range'')"

definition number_field :: "string \<Rightarrow> string \<Rightarrow> string \<Rightarrow> string + int" where
  "number_field str missing too_small =
     (if length str < 1 then Inl missing
      else case ParseInt str of
        Inl err \<Rightarrow> Inl (number_text err str)
      | Inr n \<Rightarrow> if n < 1 then Inl too_small else Inr n)"

definition PostTemplate :: "env \<Rightarrow> http_request \<Rightarrow> server \<Rightarrow> reply outcome" where
  "PostTemplate e r =
     as_user e r ''User not authorized for PostTemplate'' (\<lambda>i user s.
       if \<not> HasRole user ''admin'' then reply_error ''User not allowed to PostTemplate'' s
       else
         let title = TrimSpace (PostFormValue r ''title'');
             description = TrimSpace (PostFormValue r ''description'');
             command = PostFormValue r ''command'';
             includedTags = PostFormValue r ''includedTags'';
             excludedTags = PostFormValue r ''excludedTags''
         in (case strategy_of (PostFormValue r ''executionStrategy'') of
               None \<Rightarrow> reply_error ''Strategy not found'' s
             | Some executionStrategy \<Rightarrow>
                 (case number_field (TrimSpace (PostFormValue r ''minAuth''))
                         ''Fill in min auth'' ''Min auth must be at least 1'' of
                    Inl err \<Rightarrow> reply_error err s
                  | Inr minAuth \<Rightarrow>
                      (case number_field (TrimSpace (PostFormValue r ''timeout''))
                              ''Fill in timeout'' ''Timeout must be at least 1 second'' of
                         Inl err \<Rightarrow> reply_error err s
                       | Inr timeout \<Rightarrow>
                           let template = newTemplate (env_uuid e 0) title description command True
                                 (Split (CHR '','') includedTags) (Split (CHR '','') excludedTags)
                                 (word_of_int minAuth) timeout (Some executionStrategy)
                           in (case Template_IsValid (srv_templateStore s) template of
                                 Some err \<Rightarrow> reply_error err s
                               | None \<Rightarrow>
                                   let s = on_templates (TemplateStore_Add template) s;
                                       s = on_templates (snd \<circ> templates_save e) s
                                   in reply_ok [(''template'', VTemplate template), (''saved'', VBool True)] s)))))"

definition DeleteTemplate :: "env \<Rightarrow> http_request \<Rightarrow> server \<Rightarrow> reply outcome" where
  "DeleteTemplate e r =
     as_user e r ''User not authorized for DeleteTemplate'' (\<lambda>i usr s.
       if \<not> HasRole usr ''admin'' then reply_error ''User not allowed to DeleteTemplate'' s
       else
         let tid = TrimSpace (QueryGet r ''id'')
         in if length (FindByTemplate (srv_httpCheckStore s) tid) > 0
            then reply_error ''This template is used by one or multiple http checks. You need to remove those first before deleting the template.'' s
            else
              let s = on_templates (TemplateStore_Remove tid) s;
                  s = on_templates (snd \<circ> templates_save e) s
              in reply_ok [(''saved'', VBool True)] s)"

text \<open>A rule that \<open>newExecutionValidation\<close> refuses is a nil pointer in the list: the handler's checks exclude it.\<close>

definition PostTemplateValidation :: "env \<Rightarrow> http_request \<Rightarrow> server \<Rightarrow> reply outcome" where
  "PostTemplateValidation e r =
     if_authUser e r ''User not authorized for PostTemplateValidation'' (\<lambda>s.
       let tid = ParamByName r ''templateid''
       in (case TemplateStore_Get (srv_templateStore s) tid of
             None \<Rightarrow> reply_error ''Template not found'' s
           | Some template \<Rightarrow>
               let txt = PostFormValue r ''text'';
                   isFatal = (PostFormValue r ''fatal'' = ''1'');
                   mustContain = (PostFormValue r ''must_contain'' = ''1'');
                   streamId = 1
               in if length (TrimSpace txt) < 1 then reply_error ''Text can not be empty'' s
                  else (case newExecutionValidation (env_uuid e 0) txt isFatal mustContain streamId of
                          None \<Rightarrow> (Inl NilDeref, s)
                        | Some rule \<Rightarrow>
                            let s = on_templates (upd_template tid (AddValidationRule rule)) s;
                                (res, ts) = templates_save e (srv_templateStore s)
                            in reply_ok [(''saved'', VBool res)] (on_templates (\<lambda>_. ts) s))))"

definition DeleteTemplateValidation :: "env \<Rightarrow> http_request \<Rightarrow> server \<Rightarrow> reply outcome" where
  "DeleteTemplateValidation e r =
     if_authUser e r ''User not authorized for DeleteTemplateValidation'' (\<lambda>s.
       let templateId = ParamByName r ''templateid''
       in (case TemplateStore_Get (srv_templateStore s) templateId of
             None \<Rightarrow> reply_error ''Template not found'' s
           | Some template \<Rightarrow>
               let rid = ParamByName r ''id'';
                   s = on_templates (upd_template templateId (DeleteValidationRule rid)) s;
                   (res, ts) = templates_save e (srv_templateStore s)
               in reply_ok [(''saved'', VBool res)] (on_templates (\<lambda>_. ts) s)))"

section \<open>Http checks\<close>

definition on_checks :: "(http_check_store \<Rightarrow> http_check_store) \<Rightarrow> server \<Rightarrow> server" where
  "on_checks f s = s\<lparr>srv_httpCheckStore := f (srv_httpCheckStore s)\<rparr>"

definition GetHttpChecks :: "env \<Rightarrow> http_request \<Rightarrow> server \<Rightarrow> reply outcome" where
  "GetHttpChecks e r =
     as_user e r ''Not authorized'' (\<lambda>i user s.
       if \<not> HasRole user ''admin'' then reply_error ''Not authorized'' s
       else reply_ok [(''checks'', VChecks (hs_Checks (srv_httpCheckStore s)))] s)"

definition DeleteHttpCheck :: "env \<Rightarrow> http_request \<Rightarrow> server \<Rightarrow> reply outcome" where
  "DeleteHttpCheck e r =
     as_user e r ''Not authorized'' (\<lambda>i user s.
       if \<not> HasRole user ''admin'' then reply_error ''Not authorized'' s
       else
         let cid = TrimSpace (QueryGet r ''id'');
             s = audit (Some user) ''HTTP check'' (''Deleted '' @ cid) s;
             s = on_checks (HttpCheckStore_Remove cid) s;
             (res, hs) = http_checks_save e (srv_httpCheckStore s)
         in reply_ok [(''saved'', VBool res)] (on_checks (\<lambda>_. hs) s))"

definition PostHttpCheck :: "ext \<Rightarrow> env \<Rightarrow> http_request \<Rightarrow> server \<Rightarrow> reply outcome" where
  "PostHttpCheck x e r =
     as_user e r ''Not authorized'' (\<lambda>i user s.
       if \<not> HasRole user ''admin'' then reply_error ''Not authorized'' s
       else if fst (ValidateTotp x (env_now e) user (PostFormValue r ''totp'')) = False
       then reply_error ''Invalid two factor token'' s
       else
         let templateId = TrimSpace (PostFormValue r ''template'')
         in (case TemplateStore_Get (srv_templateStore s) templateId of
               None \<Rightarrow> reply_error ''Template not found'' s
             | Some template \<Rightarrow>
                 let clientIds = Split (CHR '','') (TrimSpace (PostFormValue r ''clients''));
                     hc = (newHttpCheckConfiguration e)
                       \<lparr>hc_ClientIds := clientIds, hc_TemplateId := templateId, hc_Enabled := True, hc_Timeout := 30\<rparr>;
                     s = on_checks (HttpCheckStore_Add hc) s;
                     s = on_checks (snd \<circ> http_checks_save e) s
                 in reply_ok [] s))"

end
