(* ===== verification/Server_Steps.thy ===== *)
theory Server_Steps
  imports Consensus_Handlers Client_Handlers Admin_Handlers
begin

text \<open>
  The running server: the table of routes that \<open>Start\<close> (server.go) registers, and the step
  relation in which requests, goroutines and the periodic cleanup interleave.
\<close>

section \<open>Routes\<close>

datatype route =
    GET_ping | GET_tags
  | GET_client_ping | GET_client_cmds "bool" | PUT_client_cmd_state | PUT_client_cmd_logs
  | GET_client_cmd_logs | POST_client_auth
  | POST_auth
  | GET_templates | POST_template_validation | DELETE_template_validation | POST_template | DELETE_template
  | PUT_user_password | GET_clients | GET_users | GET_users_names | POST_user | DELETE_user | PUT_user
  | POST_consensus_request | DELETE_consensus_request | POST_consensus_approve | GET_consensus_pending
  | GET_http_checks | POST_http_check | DELETE_http_check
  | GET_user_2fa | PUT_user_2fa

text \<open>
  The handler of each route, but for \<open>GET /http-check/:id\<close>, whose two halves are steps of their
  own, and for the routes that serve files, the backup archive and the history table.
\<close>

fun serve ::
  "ext \<Rightarrow> conf \<Rightarrow> authenticator option \<Rightarrow> env \<Rightarrow> route \<Rightarrow> http_request \<Rightarrow> server \<Rightarrow> reply outcome"
where
  "serve x cf ldap e GET_ping r s = Ping s"
| "serve x cf ldap e GET_tags r s = GetTags e r s"
| "serve x cf ldap e GET_client_ping r s = ClientPing cf e r s"
| "serve x cf ldap e (GET_client_cmds timed_out) r s = ClientCmds timed_out cf r s"
| "serve x cf ldap e PUT_client_cmd_state r s = PutClientCmdState cf r s"
| "serve x cf ldap e PUT_client_cmd_logs r s = PutClientCmdLogs cf r s"
| "serve x cf ldap e GET_client_cmd_logs r s = GetClientCmdLogs e r s"
| "serve x cf ldap e POST_client_auth r s = PostClientAuth cf e r s"
| "serve x cf ldap e POST_auth r s = PostAuth x ldap e r s"
| "serve x cf ldap e GET_templates r s = GetTemplate e r s"
| "serve x cf ldap e POST_template_validation r s = PostTemplateValidation e r s"
| "serve x cf ldap e DELETE_template_validation r s = DeleteTemplateValidation e r s"
| "serve x cf ldap e POST_template r s = PostTemplate e r s"
| "serve x cf ldap e DELETE_template r s = DeleteTemplate e r s"
| "serve x cf ldap e PUT_user_password r s = PutUserPassword x e r s"
| "serve x cf ldap e GET_clients r s = GetClients e r s"
| "serve x cf ldap e GET_users r s = GetUsers e r s"
| "serve x cf ldap e GET_users_names r s = GetUsersNames e r s"
| "serve x cf ldap e POST_user r s = PostUser x e r s"
| "serve x cf ldap e DELETE_user r s = DeleteUser x e r s"
| "serve x cf ldap e PUT_user r s = PutUser x e r s"
| "serve x cf ldap e POST_consensus_request r s = PostConsensusRequest x cf e r s"
| "serve x cf ldap e DELETE_consensus_request r s = DeleteConsensusRequest e r s"
| "serve x cf ldap e POST_consensus_approve r s = PostConsensusApprove e r s"
| "serve x cf ldap e GET_consensus_pending r s = GetConsensusPending e r s"
| "serve x cf ldap e GET_http_checks r s = GetHttpChecks e r s"
| "serve x cf ldap e POST_http_check r s = PostHttpCheck x e r s"
| "serve x cf ldap e DELETE_http_check r s = DeleteHttpCheck e r s"
| "serve x cf ldap e GET_user_2fa r s = GetUser2fa x e r s"
| "serve x cf ldap e PUT_user_2fa r s = PutUser2fa x e r s"

section \<open>Steps\<close>

text \<open>
  A handler runs to its end (a panic in it is recovered by the http package, so the server
  goes on from the state it left; \<open>log.Fatal\<close> ends the process). A goroutine that has been
  started runs when the scheduler picks it, in any order; a panic in it ends the process. The
  ticker drops clients, the history table drops old commands, the notification loops turn.
\<close>

inductive server_step :: "ext \<Rightarrow> conf \<Rightarrow> authenticator option \<Rightarrow> server \<Rightarrow> server \<Rightarrow> bool"
  for x cf ldap where
  request: "serve x cf ldap e route r s = (res, s') \<Longrightarrow> res \<noteq> Inl LogFatal \<Longrightarrow> server_step x cf ldap s s'"
| check_start: "GetHttpCheck_start cf e r s = (res, s') \<Longrightarrow> server_step x cf ldap s s'"
| check_select: "GetHttpCheck_select timed_out cr ch s = Some (res, s') \<Longrightarrow> server_step x cf ldap s s'"
| goroutine: "srv_tasks s = ts @ t # us \<Longrightarrow> run_task cf t (s\<lparr>srv_tasks := ts @ us\<rparr>) = Some (Inr (), s') \<Longrightarrow>
    server_step x cf ldap s s'"
| cleanup: "server_step x cf ldap s (on_clients (CleanupClients now) s)"
| history: "server_step x cf ldap s (on_clients (snd \<circ> GetDispatchedCmds now c) s)"
| notifications: "server_step x cf ldap s (s\<lparr>srv_notifications := dispatch (srv_notifications s)\<rparr>)"

inductive_cases server_stepE: "server_step x cf ldap s s'"

abbreviation server_steps :: "ext \<Rightarrow> conf \<Rightarrow> authenticator option \<Rightarrow> server \<Rightarrow> server \<Rightarrow> bool" where
  "server_steps x cf ldap \<equiv> (server_step x cf ldap)\<^sup>*\<^sup>*"

text \<open>The state after \<open>newServer\<close> and the stores' part of \<open>Start\<close>, from what the files hold.\<close>

abbreviation newServer_clients :: client_store where
  "newServer_clients \<equiv> \<lparr>cs_clients = [], cs_Tags = [], cs_heap = [], cs_cmds = []\<rparr>"

abbreviation newExecutionCoordinator :: coordinator where
  "newExecutionCoordinator \<equiv> \<lparr>ec_Active = [], ec_heap = []\<rparr>"

definition start_server ::
  "ext \<Rightarrow> env \<Rightarrow> user list stored \<Rightarrow> (string, template) gomap stored \<Rightarrow>
   (string, consensus_request) gomap stored \<Rightarrow> (string, http_check) gomap stored \<Rightarrow> server option"
where
  "start_server x e users_file templates_file consensus_file checks_file =
     (case newUserStore x e users_file of
        None \<Rightarrow> None
      | Some us \<Rightarrow>
          Some \<lparr>srv_clients = newServer_clients,
                srv_userStore = us, srv_templateStore = newTemplateStore templates_file,
                srv_consensus = newConsensus consensus_file,
                srv_executionCoordinator = newExecutionCoordinator,
                srv_httpCheckStore = newHttpCheckStore (env_uuid e 1) checks_file,
                srv_notifications = newNotificationManager, srv_InstanceId = env_uuid e 2,
                srv_tasks = [], srv_done = [], srv_audit = []\<rparr>)"

end
