(* ===== verification/Server_Properties.thy ===== *)
theory Server_Properties
  imports Server_Steps
begin

text \<open>
  What a property of the server's state has to promise for the handlers to keep it: a family of
  locales, one for each group of handlers, whose assumptions are about the primitive operations
  only. A handler that keeps a property is proved to do so once, inside the locale.
\<close>

section \<open>The session check\<close>

locale session_property =
  fixes P :: "server \<Rightarrow> bool"
  assumes touch_ok: "P s \<Longrightarrow> P (touch e r i s)"
begin

lemma if_authUser_ok:
  assumes "P s" "\<And>s. P s \<Longrightarrow> P (snd (body s))"
  shows "P (snd (if_authUser e r msg body s))"
  using assms touch_ok
  by (cases "getUser r (env_now e) (srv_userStore s)") (simp_all add: if_authUser_refused if_authUser_admitted)

lemma as_user_ok:
  assumes "P s" "\<And>i u s. P s \<Longrightarrow> get_user (srv_userStore s) i = Some u \<Longrightarrow> P (snd (body i u s))"
  shows "P (snd (as_user e r msg body s))"
proof (cases rule: as_user_cases [of e r s])
  case refused
  then show ?thesis using assms(1) by simp
next
  case (admitted i u)
  then show ?thesis using assms touch_ok by simp
qed

lemma reads_ok:
  "P s \<Longrightarrow> P (snd (GetTags e r s))" "P s \<Longrightarrow> P (snd (GetClients e r s))"
  "P s \<Longrightarrow> P (snd (GetClientCmdLogs e r s))" "P s \<Longrightarrow> P (snd (GetConsensusPending e r s))"
  "P s \<Longrightarrow> P (snd (GetTemplate e r s))" "P s \<Longrightarrow> P (snd (GetUsersNames e r s))"
  "P s \<Longrightarrow> P (snd (GetUsers e r s))" "P s \<Longrightarrow> P (snd (GetHttpChecks e r s))"
  unfolding GetTags_def GetClients_def GetClientCmdLogs_def GetConsensusPending_def GetTemplate_def
    GetUsersNames_def GetUsers_def GetHttpChecks_def
  by (rule if_authUser_ok as_user_ok; simp add: Let_def split: option.split prod.split)+

end

section \<open>Users, templates and http checks\<close>

text \<open>What \<open>PostTemplate\<close> has checked of a template when it adds it.\<close>

definition sane_template :: "template \<Rightarrow> bool" where
  "sane_template t \<longleftrightarrow>
     1 \<le> unat (acl_MinAuth (tmpl_Acl t)) \<and> 1 \<le> tmpl_Timeout t \<and>
     (\<forall>es. tmpl_ExecutionStrategy t = Some es \<longrightarrow> known_strategy (es_Strategy es))"

definition accepted_template :: "template_store \<Rightarrow> template \<Rightarrow> bool" where
  "accepted_template ts t \<longleftrightarrow> Template_IsValid ts t = None \<and> sane_template t"

lemma strategy_of_known: "strategy_of str = Some es \<Longrightarrow> known_strategy (es_Strategy es)"
  by (auto simp: strategy_of_def newExecutionStrategy_def known_strategy_def strategy_defs split: if_splits)

lemma number_field_range: "number_field str a b = Inr n \<Longrightarrow> 1 \<le> n \<and> n < 2 ^ 63"
  by (auto simp: number_field_def dest: ParseInt_range split: if_splits sum.splits)

lemma newTemplate_fields [simp, go_simps]:
  "tmpl_Id (newTemplate i ti d c en inc exc m t es) = i"
  "tmpl_Title (newTemplate i ti d c en inc exc m t es) = ti"
  "tmpl_Command (newTemplate i ti d c en inc exc m t es) = c"
  "tmpl_Timeout (newTemplate i ti d c en inc exc m t es) = t"
  "tmpl_ExecutionStrategy (newTemplate i ti d c en inc exc m t es) = es"
  "tmpl_ValidationRules (newTemplate i ti d c en inc exc m t es) = []"
  "acl_MinAuth (tmpl_Acl (newTemplate i ti d c en inc exc m t es)) = m"
  by (simp_all add: newTemplate_def Let_def newTemplateAcl_def)

lemma sane_newTemplate:
  assumes "number_field str a b = Inr m" "number_field str' a' b' = Inr k" "strategy_of st = Some es"
  shows "sane_template (newTemplate i ti d c en inc exc (word_of_int m) k (Some es))"
proof -
  have "1 \<le> m" "m < 2 ^ 64" using number_field_range [OF assms(1)] by auto
  then have "unat (word_of_int m :: 64 word) = nat m" 
    by (simp add: unat_eq_nat_uint uint_word_of_int_eq take_bit_int_eq_self)
  with \<open>1 \<le> m\<close> show ?thesis
    using number_field_range [OF assms(2)] strategy_of_known [OF assms(3)] by (simp add: sane_template_def)
qed

locale admin_property = session_property +
  fixes x :: ext and ldap :: "authenticator option"
  assumes audit_ok: "P s \<Longrightarrow> P (audit usr title m s)"
    and user_ok: "P s \<Longrightarrow> (\<And>u. user_Username (f u) = user_Username u) \<Longrightarrow> P (on_users (upd_user i f) s)"
    and users_save_ok: "P s \<Longrightarrow> P (on_users (users_save e) s)"
    and remove_ok: "P s \<Longrightarrow> P (on_users (RemoveByName n) s)"
    and create_ok: "P s \<Longrightarrow> CreateUser x e n pw m roles (srv_userStore s) = Some (res, us) \<Longrightarrow>
      P (on_users (\<lambda>_. us) s)"
    and login_ok: "P s \<Longrightarrow> service_authUser (createAuthService x now ldap) ar (srv_userStore s) = (v, us) \<Longrightarrow>
      P (on_users (\<lambda>_. us) s)"
    and template_add_ok: "P s \<Longrightarrow> accepted_template (srv_templateStore s) t \<Longrightarrow>
      P (on_templates (TemplateStore_Add t) s)"
    and template_remove_ok: "P s \<Longrightarrow> P (on_templates (TemplateStore_Remove tid) s)"
    and template_rule_ok: "P s \<Longrightarrow> P (on_templates (upd_template tid (AddValidationRule rule)) s)"
    and template_unrule_ok: "P s \<Longrightarrow> P (on_templates (upd_template tid (DeleteValidationRule rid)) s)"
    and templates_save_ok: "P s \<Longrightarrow> P (on_templates (snd \<circ> templates_save e) s)"
    and check_add_ok: "P s \<Longrightarrow> P (on_checks (HttpCheckStore_Add hc) s)"
    and check_remove_ok: "P s \<Longrightarrow> P (on_checks (HttpCheckStore_Remove hid) s)"
    and checks_save_ok: "P s \<Longrightarrow> P (on_checks (snd \<circ> http_checks_save e) s)"
begin

lemma user_const_ok:
  assumes "P s" "get_user (srv_userStore s) i = Some u" "user_Username v = user_Username u"
  shows "P (on_users (upd_user i (\<lambda>_. v)) s)"
proof -
  let ?f = "\<lambda>w. if user_Username w = user_Username u then v else w"
  have "upd_user i (\<lambda>_. v) (srv_userStore s) = upd_user i ?f (srv_userStore s)"
    using assms(2) by (auto simp: upd_user_def h_upd_def h_get_def split: if_splits)
  then have "on_users (upd_user i (\<lambda>_. v)) s = on_users (upd_user i ?f) s" by (simp add: on_users_def)
  moreover have "P (on_users (upd_user i ?f) s)" using assms by (intro user_ok) auto
  ultimately show ?thesis by simp
qed

lemma save_const: "on_users (\<lambda>_. users_save e us) s = on_users (users_save e) (on_users (\<lambda>_. us) s)"
  by (simp add: on_users_def)

lemma templates_save_const:
  "on_templates (\<lambda>_. snd (templates_save e (srv_templateStore s))) s = on_templates (snd \<circ> templates_save e) s"
  by (simp add: on_templates_def)

lemma checks_save_const:
  "on_checks (\<lambda>_. snd (http_checks_save e (srv_httpCheckStore s))) s = on_checks (snd \<circ> http_checks_save e) s"
  by (simp add: on_checks_def)

lemma PostAuth_ok: "P s \<Longrightarrow> P (snd (PostAuth x ldap e r s))"
  unfolding PostAuth_def
  by (auto simp: Let_def StartSession_def split: prod.split option.split
      intro!: users_save_ok user_const_ok audit_ok dest: login_ok)

lemma password_handlers_ok:
  "P s \<Longrightarrow> P (snd (PutUserPassword x e r s))" "P s \<Longrightarrow> P (snd (PutUser2fa x e r s))"
  unfolding PutUserPassword_def PutUser2fa_def
  by (rule if_authUser_ok as_user_ok; auto simp: Let_def enable_two_factor_def split: option.split
      intro!: users_save_ok user_ok)+

lemma second_factor_ok: "P s \<Longrightarrow> P (snd (GetUser2fa x e r s))"
  unfolding GetUser2fa_def
  by (rule as_user_ok; auto simp: Let_def GenerateOTPSecret_def split: sum.split
      intro!: users_save_ok user_const_ok)

lemma change_user_name: "user_Username (snd (change_user x r keys u)) = user_Username u"
  by (induction keys arbitrary: u) auto

lemma user_handlers_ok:
  "P s \<Longrightarrow> P (snd (DeleteUser x e r s))" "P s \<Longrightarrow> P (snd (PostUser x e r s))"
  unfolding DeleteUser_def PostUser_def
  by (rule as_user_ok; auto simp: Let_def save_const split: option.split
      intro!: users_save_ok remove_ok create_ok)+

lemma PutUser_ok: "P s \<Longrightarrow> P (snd (PutUser x e r s))"
  unfolding PutUser_def
  by (rule as_user_ok) (auto simp: Let_def change_user_name split: option.split prod.split
      intro!: users_save_ok user_const_ok dest: arg_cong [where f = "\<lambda>p. user_Username (snd p)"])

lemma template_handlers_ok:
  "P s \<Longrightarrow> P (snd (PostTemplate e r s))" "P s \<Longrightarrow> P (snd (DeleteTemplate e r s))"
  "P s \<Longrightarrow> P (snd (PostTemplateValidation e r s))" "P s \<Longrightarrow> P (snd (DeleteTemplateValidation e r s))"
  unfolding PostTemplate_def DeleteTemplate_def PostTemplateValidation_def DeleteTemplateValidation_def
  by (rule as_user_ok if_authUser_ok;
      auto simp: Let_def split_beta templates_save_const split: option.split sum.split
      intro!: templates_save_ok template_add_ok template_remove_ok template_rule_ok template_unrule_ok
        sane_newTemplate simp: accepted_template_def)+

lemma check_handlers_ok:
  "P s \<Longrightarrow> P (snd (PostHttpCheck x e r s))" "P s \<Longrightarrow> P (snd (DeleteHttpCheck e r s))"
  unfolding PostHttpCheck_def DeleteHttpCheck_def
  by (rule as_user_ok; auto simp: Let_def split_beta checks_save_const split: option.split
      intro!: checks_save_ok check_add_ok check_remove_ok audit_ok)+

lemmas admin_handlers_ok = PostAuth_ok password_handlers_ok second_factor_ok user_handlers_ok PutUser_ok
  template_handlers_ok check_handlers_ok

end

section \<open>Machines\<close>

locale client_property = session_property +
  fixes cf :: conf
  assumes ping_ok: "P s \<Longrightarrow> P (on_clients (RegisterClient now k tags) s)"
    and token_ok: "P s \<Longrightarrow> P (on_clients (upd_client c (\<lambda>d. d\<lparr>rc_AuthToken := tok\<rparr>)) s)"
    and poll_ok: "P s \<Longrightarrow> poll_cmds timed_out c (srv_clients s) = (rs, cs) \<Longrightarrow> P (on_clients (\<lambda>_. cs) s)"
    and logs_ok: "P s \<Longrightarrow> P (on_clients (upd_cmd d (append_logs m)) s)"
    and state_ok: "P s \<Longrightarrow> P (set_cmd_state d st s)"
    and next_task_ok: "P s \<Longrightarrow> Coordinator_Get s i = Some er \<Longrightarrow> P (start_tasks [TNext er] s)"
begin

lemma next_tasks_ok:
  "P s \<Longrightarrow> \<forall>t \<in> set ts. \<exists>er i. t = TNext er \<and> Coordinator_Get s i = Some er \<Longrightarrow> P (start_tasks ts s)"
proof (induction ts arbitrary: s)
  case (Cons t ts)
  from Cons.prems(2) obtain er i where t: "t = TNext er" "Coordinator_Get s i = Some er" by auto
  have "P (start_tasks ts (start_tasks [t] s))"
  proof (rule Cons.IH)
    show "P (start_tasks [t] s)" using Cons.prems(1) t(2) unfolding t(1) by (rule next_task_ok)
  qed (use Cons.prems(2) in \<open>auto simp: Coordinator_Get_def\<close>)
  then show ?case by (simp add: start_tasks_start_tasks)
qed simp

lemma SetState_ok: "P s \<Longrightarrow> P (SetState cf d st s)"
  using SetState_frame [of d s cf st]
  by (auto simp: report_frame_def Coordinator_Get_def intro!: next_tasks_ok state_ok)

lemma client_handlers_ok:
  "P s \<Longrightarrow> P (snd (ClientPing cf e r s))" "P s \<Longrightarrow> P (snd (PostClientAuth cf e r s))"
  "P s \<Longrightarrow> P (snd (ClientCmds timed_out cf r s))" "P s \<Longrightarrow> P (snd (PutClientCmdState cf r s))"
  "P s \<Longrightarrow> P (snd (PutClientCmdLogs cf r s))"
  unfolding ClientPing_def PostClientAuth_def ClientCmds_def PutClientCmdState_def PutClientCmdLogs_def
  by (auto simp: Let_def split: option.split prod.split log_body.split
      intro!: ping_ok token_ok logs_ok SetState_ok intro: poll_ok)

end

section \<open>The whole server\<close>

text \<open>A callback that sends on a channel needs the channel.\<close>

definition callback_valid :: "nat \<Rightarrow> callback \<Rightarrow> bool" where
  "callback_valid channels cb = (case cb of FinishedNotification \<Rightarrow> True | HttpCheckDone ch \<Rightarrow> ch < channels)"


locale server_property = admin_property P x ldap + client_property P cf
  for P :: "server \<Rightarrow> bool" and x :: ext and ldap :: "authenticator option" and cf :: conf +
  assumes add_request_ok: "P s \<Longrightarrow> AddRequest cf e tid cids user reason s = (v, s') \<Longrightarrow> P s'"
    and callback_ok: "P s \<Longrightarrow> callback_valid (length (srv_done s)) cb \<Longrightarrow> P (Request_AddCallback cb cr s)"
    and check_ok: "P s \<Longrightarrow> P (snd (Request_check e cr s))"
    and approve_ok: "P s \<Longrightarrow> P (snd (Request_Approve e user cr s))"
    and delete_ok: "P s \<Longrightarrow> P (snd (Request_Delete cr s))"
    and consensus_save_ok: "P s \<Longrightarrow> P (consensus_save e s)"
    and new_channel_ok: "P s \<Longrightarrow> P (s\<lparr>srv_done := srv_done s @ [0]\<rparr>)"
    and channel_ok: "P s \<Longrightarrow> P (s\<lparr>srv_done := h_upd ch g (srv_done s)\<rparr>)"
    and goroutine_ok: "P s \<Longrightarrow> srv_tasks s = ts @ task # us \<Longrightarrow>
      run_task cf task (s\<lparr>srv_tasks := ts @ us\<rparr>) = Some (Inr (), s') \<Longrightarrow> P s'"
    and cleanup_ok: "P s \<Longrightarrow> P (on_clients (CleanupClients now) s)"
    and history_ok: "P s \<Longrightarrow> P (on_clients (snd \<circ> GetDispatchedCmds now c) s)"
    and dispatch_ok: "P s \<Longrightarrow> P (s\<lparr>srv_notifications := dispatch (srv_notifications s)\<rparr>)"
begin

lemma consensus_results_ok:
  "P s \<Longrightarrow> Request_check e cr s = (b, s') \<Longrightarrow> P s'"
  "P s \<Longrightarrow> Request_Approve e user cr s = (b, s') \<Longrightarrow> P s'"
  "P s \<Longrightarrow> Request_Delete cr s = (b, s') \<Longrightarrow> P s'"
  by (metis check_ok approve_ok delete_ok snd_conv)+

lemma audit_request_ok: "P s \<Longrightarrow> P (audit_request v u cr s)"
  by (simp add: audit_request_def audit_ok split: option.split)

lemma consensus_handlers_ok:
  "P s \<Longrightarrow> P (snd (PostConsensusApprove e r s))" "P s \<Longrightarrow> P (snd (DeleteConsensusRequest e r s))"
  unfolding PostConsensusApprove_def DeleteConsensusRequest_def Request_Cancel_def
  by (rule as_user_ok; auto simp: Let_def split: option.split prod.split sum.split
      intro!: consensus_save_ok dest: consensus_results_ok consensus_results_ok(3) [OF audit_request_ok])+

text \<open>The common part of the two callers: file a request, register a callback, check it.\<close>

lemma request_checked_ok:
  assumes "AddRequest cf e tid cids user reason s = (Some cr, s1)"
    "Request_check e cr (Request_AddCallback FinishedNotification cr s1) = (b, s2)" "P s"
  shows "P s2"
  by (rule consensus_results_ok(1) [OF callback_ok [OF add_request_ok [OF assms(3,1)]] assms(2)])
    (simp add: callback_valid_def)

lemma check_requested_ok:
  assumes "AddRequest cf e tid cids user reason s = (Some cr, s1)"
    "Request_check e cr (Request_AddCallback (HttpCheckDone (length (srv_done s1))) cr
       (s1\<lparr>srv_done := srv_done s1 @ [0]\<rparr>)) = (b, s2)" "P s"
  shows "P s2"
  by (rule consensus_results_ok(1) [OF callback_ok [OF new_channel_ok [OF add_request_ok [OF assms(3,1)]]] assms(2)])
    (simp add: callback_valid_def)

lemma PostConsensusRequest_ok: "P s \<Longrightarrow> P (snd (PostConsensusRequest x cf e r s))"
  unfolding PostConsensusRequest_def
  by (rule as_user_ok; auto simp: Let_def split: option.split prod.split sum.split
      intro!: consensus_save_ok dest: add_request_ok [rotated] request_checked_ok)

lemma serve_ok: "P s \<Longrightarrow> P (snd (serve x cf ldap e route r s))"
  by (cases route) (simp_all add: reads_ok admin_handlers_ok client_handlers_ok consensus_handlers_ok
      PostConsensusRequest_ok Ping_def)

lemma check_start_ok: "GetHttpCheck_start cf e r s = (res, s') \<Longrightarrow> P s \<Longrightarrow> P s'"
  unfolding GetHttpCheck_start_def
  by (auto simp: Let_def split: option.splits prod.splits sum.splits if_splits
      dest: add_request_ok [rotated] check_requested_ok)

lemma check_select_ok:
  assumes "GetHttpCheck_select timed_out cr ch s = Some (res, s')" "P s"
  shows "P s'"
proof -
  let ?s = "s\<lparr>srv_done := h_upd ch (\<lambda>k. k - 1) (srv_done s)\<rparr>"
  have "s' = s \<or> s' = snd (Request_Delete cr ?s)"
    using assms(1) unfolding GetHttpCheck_select_def
    by (auto simp: Let_def split: option.splits prod.splits sum.splits if_splits)
  with assms(2) show ?thesis using delete_ok [OF channel_ok] by auto
qed

lemma step_ok: "server_step x cf ldap s s' \<Longrightarrow> P s \<Longrightarrow> P s'"
proof (induction rule: server_step.induct)
  case (request e route r s res s')
  then show ?case using serve_ok by (metis snd_conv)
next
  case (check_start e r s res s')
  then show ?case by (rule check_start_ok)
next
  case (check_select timed_out cr ch s res s')
  then show ?case by (rule check_select_ok)
next
  case (goroutine s ts t us s')
  from goroutine(3,1,2) show ?case by (rule goroutine_ok)
qed (rule cleanup_ok history_ok dispatch_ok, assumption)+

lemma steps_ok: "server_steps x cf ldap s s' \<Longrightarrow> P s \<Longrightarrow> P s'"
  by (induction rule: rtranclp_induct) (auto intro: step_ok)

end

end
