(* ===== verification/Server_Invariant.thy ===== *)
theory Server_Invariant
  imports Server_Properties
begin

text \<open>
  The invariant of the running server, the conjunction of the components' invariants with the
  references between them, and the proof that every step keeps it.
\<close>

section \<open>Templates with their file\<close>

definition template_map_ok :: "(string, template) gomap \<Rightarrow> bool" where
  "template_map_ok m \<longleftrightarrow>
     (let s = \<lparr>ts_Templates = m, ts_file = NoFile\<rparr>
      in template_store_ok s \<and> titles_unique s \<and> (\<forall>k t. gm_get m k = Some t \<longrightarrow> sane_template t))"

definition templates_ok :: "template_store \<Rightarrow> bool" where
  "templates_ok s \<longleftrightarrow>
     template_map_ok (ts_Templates s) \<and> (\<forall>m. ts_file s = Json m \<longrightarrow> template_map_ok m)"

lemma template_map_ok_store:
  "template_map_ok (ts_Templates s) \<longleftrightarrow>
     template_store_ok s \<and> titles_unique s \<and>
     (\<forall>k t. gm_get (ts_Templates s) k = Some t \<longrightarrow> sane_template t)"
  by (simp add: template_map_ok_def template_store_ok_def titles_unique_def)

lemma templates_ok_Add:
  assumes "templates_ok s" "accepted_template s t"
  shows "templates_ok (TemplateStore_Add t s)"
proof -
  have "template_map_ok (ts_Templates (TemplateStore_Add t s))"
    unfolding template_map_ok_store
  proof (intro conjI)
    show "template_store_ok (TemplateStore_Add t s)" "titles_unique (TemplateStore_Add t s)"
      using assms by (auto simp: templates_ok_def template_map_ok_store accepted_template_def
          intro: template_store_ok_Add titles_unique_Add)
    show "\<forall>k t'. gm_get (ts_Templates (TemplateStore_Add t s)) k = Some t' \<longrightarrow> sane_template t'"
      using assms by (simp add: templates_ok_def template_map_ok_store accepted_template_def TemplateStore_Add_def)
  qed
  then show ?thesis using assms(1) by (simp add: templates_ok_def TemplateStore_Add_def)
qed

lemma templates_ok_Remove: "templates_ok s \<Longrightarrow> templates_ok (TemplateStore_Remove i s)"
  unfolding templates_ok_def template_map_ok_store
  using template_store_ok_Remove [of s i] titles_unique_Remove [of s i]
  by (auto simp: TemplateStore_Remove_def split: if_splits)

lemma templates_ok_upd:
  assumes "templates_ok s" "\<And>t. tmpl_Id (f t) = tmpl_Id t" "\<And>t. tmpl_Title (f t) = tmpl_Title t"
    "\<And>t. sane_template (f t) = sane_template t"
  shows "templates_ok (upd_template i f s)"
proof -
  have "template_map_ok (ts_Templates (upd_template i f s))"
    unfolding template_map_ok_store
  proof (intro conjI)
    show "template_store_ok (upd_template i f s)" "titles_unique (upd_template i f s)"
      using assms by (auto simp: templates_ok_def template_map_ok_store
          intro: template_store_ok_upd titles_unique_upd)
    show "\<forall>k t. gm_get (ts_Templates (upd_template i f s)) k = Some t \<longrightarrow> sane_template t"
      using assms by (auto simp: templates_ok_def template_map_ok_store upd_template_def split: option.splits)
  qed
  then show ?thesis using assms(1) by (simp add: templates_ok_def upd_template_def split: option.split)
qed

lemma sane_rules [simp]:
  "sane_template (AddValidationRule rule t) = sane_template t"
  "sane_template (DeleteValidationRule rid t) = sane_template t"
  by (simp_all add: sane_template_def AddValidationRule_def DeleteValidationRule_def)

lemma templates_ok_save: "templates_ok s \<Longrightarrow> templates_ok (snd (templates_save e s))"
  by (auto simp: templates_ok_def templates_save_def dest: write_file_cases)

section \<open>Requests with their file\<close>

text \<open>What a file holds: requests under their own identifiers, without callbacks.\<close>

definition request_map_ok :: "(string, consensus_request) gomap \<Rightarrow> bool" where
  "request_map_ok m \<longleftrightarrow> gm_ok m \<and> (\<forall>(k, c) \<in> set m. cr_Id c = k \<and> request_ok c \<and> cr_Callbacks c = [])"

definition pending_ok :: "consensus \<Rightarrow> bool" where
  "pending_ok c \<longleftrightarrow>
     gm_ok (con_Pending c) \<and> (\<forall>(k, r) \<in> set (con_Pending c). \<exists>q. h_get (con_heap c) r = Some q \<and> cr_Id q = k)"

definition requests_ok :: "consensus \<Rightarrow> bool" where
  "requests_ok c \<longleftrightarrow>
     pending_ok c \<and> (\<forall>r q. h_get (con_heap c) r = Some q \<longrightarrow> request_ok q) \<and>
     (\<forall>m. con_file c = Json m \<longrightarrow> request_map_ok m)"

lemma requests_ok_heap:
  assumes "requests_ok c" "con_Pending d = con_Pending c" "con_file d = con_file c"
    "\<And>r q. h_get (con_heap c) r = Some q \<Longrightarrow> \<exists>q'. h_get (con_heap d) r = Some q' \<and> cr_Id q' = cr_Id q"
    "\<And>r q'. h_get (con_heap d) r = Some q' \<Longrightarrow> request_ok q'"
  shows "requests_ok d"
proof -
  have "\<exists>q. h_get (con_heap d) r = Some q \<and> cr_Id q = k" if "(k, r) \<in> set (con_Pending c)" for k r
  proof -
    from that obtain q where "h_get (con_heap c) r = Some q" "cr_Id q = k"
      using assms(1) by (auto simp: requests_ok_def pending_ok_def)
    then show ?thesis using assms(4) by fastforce
  qed
  moreover have "gm_ok (con_Pending c)" using assms(1) by (simp add: requests_ok_def pending_ok_def)
  ultimately have "pending_ok d" unfolding pending_ok_def assms(2) by blast
  then show ?thesis using assms by (auto simp: requests_ok_def)
qed

text \<open>An object that keeps its identity and its votes may change in place.\<close>

lemma requests_ok_upd:
  assumes "requests_ok (srv_consensus s)"
    "\<And>q. get_request s r = Some q \<Longrightarrow> cr_Id (f q) = cr_Id q \<and> request_ok (f q)"
  shows "requests_ok (srv_consensus (upd_request r f s))"
proof (rule requests_ok_heap [OF assms(1)])
  fix r' q' assume "h_get (con_heap (srv_consensus (upd_request r f s))) r' = Some q'"
  then show "request_ok q'"
    using assms by (auto simp: requests_ok_def split: if_splits)
qed (auto simp: assms(2))

lemma request_ok_started: "started_from c d \<Longrightarrow> request_ok c \<Longrightarrow> request_ok d"
  using request_ok_frame [of d c] by (simp add: started_from_fields)

lemma requests_ok_check:
  assumes "requests_ok (srv_consensus s)"
  shows "requests_ok (srv_consensus (snd (Request_check e crr s)))"
proof (cases "get_request s crr")
  case None
  then show ?thesis using assms by (simp add: Request_check_def)
next
  case (Some c)
  then show ?thesis
  proof (cases rule: check_request [where e = e])
    case (started d)
    have other: "get_request (snd (Request_check e crr s)) r = get_request s r" if "r \<noteq> crr" for r
      using that by (rule check_other)
    have "request_ok d"
      using assms Some started(3) by (auto simp: requests_ok_def intro: request_ok_started)
    show ?thesis
    proof (rule requests_ok_heap [OF assms])
      fix r q assume "get_request s r = Some q"
      then show "\<exists>q'. get_request (snd (Request_check e crr s)) r = Some q' \<and> cr_Id q' = cr_Id q"
        using other [of r] started Some by (cases "r = crr") (auto simp: started_from_fields(1))
    next
      fix r q' assume "get_request (snd (Request_check e crr s)) r = Some q'"
      then show "request_ok q'"
        using other [of r] started(2) \<open>request_ok d\<close> assms by (cases "r = crr") (auto simp: requests_ok_def)
    qed simp_all
  qed (use assms in simp)
qed

lemma requests_ok_Approve:
  assumes "requests_ok (srv_consensus s)"
  shows "requests_ok (srv_consensus (snd (Request_Approve e user crr s)))"
proof (cases "get_request s crr")
  case None
  then show ?thesis using assms by (simp add: Request_Approve_def)
next
  case (Some c)
  have "requests_ok (srv_consensus (vote user crr s))" if "may_vote user c"
    unfolding vote_def audit_request_simps
    using assms Some that by (intro requests_ok_upd) (auto simp: requests_ok_def may_vote_def intro!: request_ok_vote)
  then show ?thesis using assms requests_ok_check by (simp add: Approve_snd [OF Some])
qed

lemma requests_ok_Delete:
  assumes "requests_ok (srv_consensus s)"
  shows "requests_ok (srv_consensus (snd (Request_Delete crr s)))"
  using assms
  by (auto simp: Request_Delete_def requests_ok_def pending_ok_def set_gm_del Let_def split: option.split)

lemma request_ok_callbacks [simp]: "request_ok (c\<lparr>cr_Callbacks := cbs\<rparr>) = request_ok c"
  by (rule request_ok_frame) simp_all

lemma request_on_disk_Some:
  "request_on_disk s (k, r) = Some (k', q) \<longleftrightarrow>
     k' = k \<and> (\<exists>c. get_request s r = Some c \<and> q = c\<lparr>cr_Callbacks := []\<rparr>)"
  by (auto simp: request_on_disk_def)

lemma fst_map_filter_disk:
  assumes "\<And>k r. (k, r) \<in> set m \<Longrightarrow> get_request s r \<noteq> None"
  shows "map fst (List.map_filter (request_on_disk s) m) = map fst m"
  using assms
proof (induction m)
  case (Cons p m)
  obtain k r where p: "p = (k, r)" by (cases p)
  with Cons.prems obtain c where "get_request s r = Some c" by (metis list.set_intros(1) not_None_eq)
  then have "request_on_disk s p = Some (k, c\<lparr>cr_Callbacks := []\<rparr>)" by (simp add: request_on_disk_def p)
  moreover have "map fst (List.map_filter (request_on_disk s) m) = map fst m"
    using Cons.prems by (intro Cons.IH) (meson list.set_intros(2))
  ultimately show ?case by (simp add: p)
qed simp

lemma request_map_ok_disk:
  assumes "requests_ok (srv_consensus s)"
  shows "request_map_ok (List.map_filter (request_on_disk s) (filter P (con_Pending (srv_consensus s))))"
    (is "request_map_ok (List.map_filter _ ?m)")
proof -
  have pend: "\<exists>q. get_request s r = Some q \<and> cr_Id q = k \<and> request_ok q" if "(k, r) \<in> set ?m" for k r
  proof -
    from that have "(k, r) \<in> set (con_Pending (srv_consensus s))" by simp
    then have "\<exists>q. get_request s r = Some q \<and> cr_Id q = k"
      using assms unfolding requests_ok_def pending_ok_def by blast
    then show ?thesis using assms unfolding requests_ok_def by blast
  qed
  have "map fst (List.map_filter (request_on_disk s) ?m) = map fst ?m"
    using pend by (intro fst_map_filter_disk) fastforce
  moreover have "gm_ok ?m" using assms by (simp add: requests_ok_def pending_ok_def)
  ultimately have "gm_ok (List.map_filter (request_on_disk s) ?m)" by (simp only: gm_ok_def)
  moreover have "cr_Id c = k \<and> request_ok c \<and> cr_Callbacks c = []" if "(k, c) \<in> set (List.map_filter (request_on_disk s) ?m)" for k c
  proof -
    from that obtain k' r where "(k', r) \<in> set ?m" "request_on_disk s (k', r) = Some (k, c)"
      by (auto simp: List.map_filter_def)
    with pend [of k' r] show ?thesis
      by (auto simp: request_on_disk_Some)
  qed
  ultimately show ?thesis unfolding request_map_ok_def by blast
qed

lemma requests_ok_save:
  assumes "requests_ok (srv_consensus s)"
  shows "requests_ok (srv_consensus (consensus_save e s))"
proof -
  let ?m = "filter (\<lambda>(_, r). recent_request e s r) (con_Pending (srv_consensus s))"
  have "request_map_ok m"
    if "write_file (env_write e) (List.map_filter (request_on_disk s) ?m) (con_file (srv_consensus s)) = Json m" for m
    using write_file_cases [OF that] request_map_ok_disk [OF assms] assms by (auto simp: requests_ok_def)
  then show ?thesis
    using assms by (auto simp: requests_ok_def pending_ok_def consensus_save_def Let_def)
qed

text \<open>The request that \<open>AddRequest\<close> files.\<close>

definition new_request :: "env \<Rightarrow> string \<Rightarrow> string list \<Rightarrow> user \<Rightarrow> string \<Rightarrow> consensus_request" where
  "new_request e tid cids user reason =
     \<lparr>cr_Id = env_uuid e 0, cr_TemplateId = tid, cr_ClientIds = cids, cr_RequestUserId = user_Id user,
      cr_Reason = reason, cr_ApproveUserIds = [], cr_Executed = False, cr_CreateTime = unix (env_now e),
      cr_StartTime = 0, cr_CompleteTime = 0, cr_Callbacks = []\<rparr>"

lemma AddRequest_cases:
  assumes "AddRequest cf e tid cids user reason s = (v, s')"
  obtains (refused) "\<not> HasRole user ''requester''" "v = None" "s' = s"
  | (filed) msg where "HasRole user ''requester''" "v = Some (length (con_heap (srv_consensus s)))"
      "s' = notify msg ((audit (Some user) ''Consensus'' (request_message (new_request e tid cids user reason)) s)
         \<lparr>srv_consensus := (srv_consensus s)
         \<lparr>con_heap := con_heap (srv_consensus s) @ [new_request e tid cids user reason],
          con_Pending := gm_set (env_uuid e 0) (length (con_heap (srv_consensus s)))
            (con_Pending (srv_consensus s))\<rparr>\<rparr>)"
  using assms
  by (cases "HasRole user ''requester''")
    (auto simp: AddRequest_def Let_def newConsensusRequest_def new_request_def)

lemma requests_ok_AddRequest:
  assumes "requests_ok (srv_consensus s)" "AddRequest cf e tid cids user reason s = (v, s')"
  shows "requests_ok (srv_consensus s')"
  using assms(2)
proof (cases rule: AddRequest_cases)
  case (filed msg)
  let ?cr = "new_request e tid cids user reason" and ?c = "srv_consensus s"
  have pend: "\<exists>q. h_get (con_heap ?c @ [?cr]) r = Some q \<and> cr_Id q = k"
    if "(k, r) \<in> set (gm_set (env_uuid e 0) (length (con_heap ?c)) (con_Pending ?c))" for k r
    using that
  proof (cases rule: in_gm_set_cases)
    case 2
    then have "\<exists>q. h_get (con_heap ?c) r = Some q \<and> cr_Id q = k"
      using assms(1) unfolding requests_ok_def pending_ok_def by blast
    then show ?thesis by (auto dest: h_get_Some_less)
  qed (simp add: new_request_def)
  have "pending_ok (srv_consensus s')"
    using assms(1) pend unfolding filed(3) by (simp add: pending_ok_def requests_ok_def del: h_get_alloc) blast
  moreover have "request_ok ?cr" by (simp add: request_ok_def new_request_def)
  ultimately show ?thesis using assms(1) by (simp add: requests_ok_def filed(3))
qed (use assms in simp)

section \<open>References between the components\<close>

text \<open>An entry: its commands are for objects that exist, and all of the entry's request.\<close>

definition entry_ok :: "nat \<Rightarrow> coordinator_entry \<Rightarrow> bool" where
  "entry_ok clients ece \<longleftrightarrow>
     known_strategy (es_Strategy (ece_strategy ece)) \<and>
     (\<forall>p \<in> set (ece_cmds ece). pc_Client p < clients \<and> cmd_ConsensusRequestId (pc_Cmd p) = ece_Id ece)"

definition task_ok :: "nat \<Rightarrow> nat \<Rightarrow> nat \<Rightarrow> nat \<Rightarrow> task \<Rightarrow> bool" where
  "task_ok clients entries requests channels t =
     (case t of
        TSubmit c cmd er \<Rightarrow> c < clients \<and> er < entries
      | TNext er \<Rightarrow> er < entries
      | TCallback cb r \<Rightarrow> r < requests \<and> callback_valid channels cb)"

abbreviation n_clients :: "server \<Rightarrow> nat" where "n_clients s \<equiv> length (cs_heap (srv_clients s))"
abbreviation n_entries :: "server \<Rightarrow> nat" where "n_entries s \<equiv> length (ec_heap (srv_executionCoordinator s))"
abbreviation n_requests :: "server \<Rightarrow> nat" where "n_requests s \<equiv> length (con_heap (srv_consensus s))"
abbreviation n_channels :: "server \<Rightarrow> nat" where "n_channels s \<equiv> length (srv_done s)"

definition entries_ok :: "server \<Rightarrow> bool" where
  "entries_ok s \<longleftrightarrow>
     (\<forall>i er. Coordinator_Get s i = Some er \<longrightarrow> er < n_entries s) \<and>
     (\<forall>er ece. get_entry s er = Some ece \<longrightarrow> entry_ok (n_clients s) ece)"

definition tasks_ok :: "server \<Rightarrow> bool" where
  "tasks_ok s \<longleftrightarrow>
     (\<forall>t \<in> set (srv_tasks s). task_ok (n_clients s) (n_entries s) (n_requests s) (n_channels s) t)"

definition callbacks_ok :: "server \<Rightarrow> bool" where
  "callbacks_ok s \<longleftrightarrow>
     (\<forall>r q. get_request s r = Some q \<longrightarrow> (\<forall>cb \<in> set (cr_Callbacks q). callback_valid (n_channels s) cb))"

text \<open>Heaps only grow, so what was valid stays valid.\<close>

lemma callback_valid_mono: "callback_valid n cb \<Longrightarrow> n \<le> m \<Longrightarrow> callback_valid m cb"
  by (auto simp: callback_valid_def split: callback.splits)

lemma entry_ok_mono: "entry_ok n ece \<Longrightarrow> n \<le> m \<Longrightarrow> entry_ok m ece"
  by (fastforce simp: entry_ok_def)

lemma task_ok_mono:
  "task_ok a b c d t \<Longrightarrow> a \<le> a' \<Longrightarrow> b \<le> b' \<Longrightarrow> c \<le> c' \<Longrightarrow> d \<le> d' \<Longrightarrow> task_ok a' b' c' d' t"
  by (auto simp: task_ok_def intro: callback_valid_mono split: task.splits)

lemma entries_ok_grow:
  assumes "entries_ok s" "srv_executionCoordinator s' = srv_executionCoordinator s" "n_clients s \<le> n_clients s'"
  shows "entries_ok s'"
  using assms entry_ok_mono unfolding entries_ok_def Coordinator_Get_def by metis

lemma tasks_ok_grow:
  assumes "tasks_ok s" "set (srv_tasks s') \<subseteq> set (srv_tasks s)" "n_clients s \<le> n_clients s'"
    "n_entries s \<le> n_entries s'" "n_requests s \<le> n_requests s'" "n_channels s \<le> n_channels s'"
  shows "tasks_ok s'"
  unfolding tasks_ok_def
proof
  fix t assume "t \<in> set (srv_tasks s')"
  with assms(1,2) have "task_ok (n_clients s) (n_entries s) (n_requests s) (n_channels s) t"
    by (auto simp: tasks_ok_def)
  then show "task_ok (n_clients s') (n_entries s') (n_requests s') (n_channels s') t"
    using assms(3-) by (rule task_ok_mono)
qed

lemma callbacks_ok_grow:
  assumes "callbacks_ok s" "n_channels s \<le> n_channels s'"
    "\<And>r q. get_request s' r = Some q \<Longrightarrow>
       cr_Callbacks q = [] \<or> (\<exists>q'. get_request s r = Some q' \<and> cr_Callbacks q = cr_Callbacks q')"
  shows "callbacks_ok s'"
  unfolding callbacks_ok_def
proof (intro allI impI ballI)
  fix r q cb assume "get_request s' r = Some q" "cb \<in> set (cr_Callbacks q)"
  then obtain q' where "get_request s r = Some q'" "cb \<in> set (cr_Callbacks q')" using assms(3) by fastforce
  then show "callback_valid (n_channels s') cb"
    using assms(1,2) callback_valid_mono unfolding callbacks_ok_def by blast
qed

section \<open>The coordinator keeps the references\<close>

definition links_ok :: "server \<Rightarrow> bool" where
  "links_ok s \<longleftrightarrow> entries_ok s \<and> tasks_ok s \<and> callbacks_ok s"

lemma links_ok_audit [simp]:
  "links_ok (audit usr title m s) = links_ok s" "links_ok (audit_request v user crr s) = links_ok s"
  "links_ok (audit_submit i c s) = links_ok s"
  by (simp_all add: links_ok_def entries_ok_def tasks_ok_def callbacks_ok_def Coordinator_Get_def)

lemma tasks_ok_start:
  "tasks_ok (start_tasks ts s) \<longleftrightarrow>
     tasks_ok s \<and> (\<forall>t \<in> set ts. task_ok (n_clients s) (n_entries s) (n_requests s) (n_channels s) t)"
  by (auto simp: tasks_ok_def)

lemma links_ok_start:
  assumes "links_ok s" "\<And>t. t \<in> set ts \<Longrightarrow> task_ok (n_clients s) (n_entries s) (n_requests s) (n_channels s) t"
  shows "links_ok (start_tasks ts s)"
  using assms by (simp add: links_ok_def tasks_ok_start entries_ok_def callbacks_ok_def Coordinator_Get_def)

lemma links_ok_upd_entry:
  assumes "links_ok s"
    "\<And>e. get_entry s er = Some e \<Longrightarrow> entry_ok (n_clients s) e \<Longrightarrow> entry_ok (n_clients s) (f e)"
  shows "links_ok (upd_entry er f s)"
  using assms by (auto simp: links_ok_def tasks_ok_def entries_ok_def callbacks_ok_def Coordinator_Get_def)

lemma links_ok_callbacks:
  assumes "links_ok s"
  shows "links_ok (snd (ExecuteCallbacks ece s))"
proof -
  have "links_ok (start_tasks (map (\<lambda>cb. TCallback cb r) (cr_Callbacks c)) s)" if "get_request s r = Some c" for r c
    using assms that
    by (intro links_ok_start) (auto simp: links_ok_def callbacks_ok_def task_ok_def dest: h_get_Some_less)
  with assms show ?thesis by (auto simp: ExecuteCallbacks_def split: option.split)
qed

lemma links_ok_Next:
  assumes "links_ok s"
  shows "links_ok (snd (Next er s))"
proof (cases "get_entry s er")
  case None
  then show ?thesis using assms by (simp add: Next_def)
next
  case (Some ece)
  then have ok: "entry_ok (n_clients s) ece" using assms by (simp add: links_ok_def entries_ok_def)
  from Some show ?thesis
  proof (cases rule: Next_cases)
    case (started n)
    have "er < n_entries s" using Some by (rule h_get_Some_less)
    then have sub: "task_ok (n_clients s) (n_entries s) (n_requests s) (n_channels s) t"
      if "t \<in> set (submit_tasks er (take (nat n) (rev (ece_cmds ece))))" for t
      using that ok by (auto simp: submit_tasks_def task_ok_def entry_ok_def dest!: in_set_takeD)
    have "links_ok (upd_entry er (\<lambda>e. e\<lparr>ece_cmds := take (length (ece_cmds ece) - nat n) (ece_cmds ece),
        ece_iteration := ece_iteration ece + 1\<rparr>) s)"
      using assms Some by (intro links_ok_upd_entry) (auto simp: entry_ok_def dest!: in_set_takeD)
    then show ?thesis unfolding started(5) by (simp add: links_ok_start sub)
  qed (simp_all add: assms links_ok_callbacks)
qed

lemma links_ok_Coordinator_Add:
  assumes "links_ok s" "known_strategy (es_Strategy st)"
    "\<And>p. p \<in> set ps \<Longrightarrow> pc_Client p < n_clients s \<and> cmd_ConsensusRequestId (pc_Cmd p) = i"
  shows "links_ok (Coordinator_Add i st ps s)"
proof -
  have ex: "srv_executionCoordinator (Coordinator_Add i st ps s) =
      \<lparr>ec_Active = gm_set i (n_entries s) (ec_Active (srv_executionCoordinator s)),
       ec_heap = ec_heap (srv_executionCoordinator s) @
         [\<lparr>ece_Id = i, ece_cmds = ps, ece_strategy = st, ece_iteration = 0\<rparr>]\<rparr>"
    by (simp add: Coordinator_Add_def Let_def)
  have new: "entry_ok (n_clients s) \<lparr>ece_Id = i, ece_cmds = ps, ece_strategy = st, ece_iteration = 0\<rparr>"
    using assms(2,3) by (simp add: entry_ok_def)
  have "er < Suc (n_entries s)" if "Coordinator_Get s j = Some er" for j er
    using assms(1) that unfolding links_ok_def entries_ok_def by (meson less_SucI)
  then have "entries_ok (Coordinator_Add i st ps s)"
    using assms(1) new by (simp add: links_ok_def entries_ok_def ex Coordinator_Get_def)
  moreover have "tasks_ok (Coordinator_Add i st ps s)"
    by (rule tasks_ok_grow [of s]) (use assms(1) in \<open>simp_all add: links_ok_def ex\<close>)
  moreover have "callbacks_ok (Coordinator_Add i st ps s)"
    using assms(1) by (simp add: links_ok_def callbacks_ok_def)
  ultimately show ?thesis by (simp add: links_ok_def)
qed

text \<open>The assembled commands: each for a registered client of the list, with its own identity.\<close>

lemma assemble_cmds_cases:
  assumes "assemble_cmds e k t c s cids = Inr ps" "p \<in> set ps"
  obtains j tmpl cl cid where "t = Some tmpl" "cid \<in> set cids" "GetClient s cid = Some (pc_Client p)"
    "get_client s (pc_Client p) = Some cl" "k \<le> j" "pc_Cmd p = assemble_cmd e j tmpl c cl"
proof -
  have "\<exists>j tmpl cl cid. t = Some tmpl \<and> cid \<in> set cids \<and> GetClient s cid = Some (pc_Client p) \<and>
    get_client s (pc_Client p) = Some cl \<and> k \<le> j \<and> pc_Cmd p = assemble_cmd e j tmpl c cl"
    using assms
  proof (induction e k t c s cids arbitrary: ps rule: assemble_cmds.induct)
    case (2 e k t c s cid cids)
    show ?case
    proof (cases "GetClient s cid")
      case None
      then show ?thesis using 2 by auto
    next
      case (Some r)
      with "2.prems"(1) obtain cl tmpl qs where q: "get_client s r = Some cl" "t = Some tmpl"
        "assemble_cmds e (Suc k) t c s cids = Inr qs"
        "ps = \<lparr>pc_Client = r, pc_Cmd = assemble_cmd e k tmpl c cl\<rparr> # qs"
        by (auto split: option.splits sum.splits)
      show ?thesis
      proof (cases "p \<in> set qs")
        case True
        from "2.IH"(2) [OF Some refl q(1,2,3) True] obtain j tm cl' cid' where
          "t = Some tm" "cid' \<in> set cids" "GetClient s cid' = Some (pc_Client p)"
          "get_client s (pc_Client p) = Some cl'" "Suc k \<le> j" "pc_Cmd p = assemble_cmd e j tm c cl'" by blast
        then show ?thesis
          by (intro exI [of _ j] exI [of _ tm] exI [of _ cl'] exI [of _ cid']) simp
      next
        case False
        then show ?thesis using "2.prems"(2) q Some by auto
      qed
    qed
  qed simp
  then show ?thesis using that by blast
qed

text \<open>The guard on the timeout in \<open>newCmd\<close>.\<close>

definition timeout_or_default :: "int \<Rightarrow> int" where
  "timeout_or_default t = (if t < 1 then DEFAULT_COMMAND_TIMEOUT else t)"

lemma assemble_cmd_fields [simp]:
  "cmd_ConsensusRequestId (assemble_cmd e k t c cl) = cr_Id c"
  "cmd_TemplateId (assemble_cmd e k t c cl) = tmpl_Id t"
  "cmd_Command (assemble_cmd e k t c cl) = tmpl_Command t"
  "cmd_Timeout (assemble_cmd e k t c cl) = timeout_or_default (tmpl_Timeout t)"
  "cmd_ClientId (assemble_cmd e k t c cl) = rc_ClientId cl"
  "cmd_Id (assemble_cmd e k t c cl) = env_uuid e k"
  "cmd_Pending (assemble_cmd e k t c cl)"
  "cmd_State (assemble_cmd e k t c cl) = ''pending''"
  by (simp_all add: assemble_cmd_def Let_def Sign_def newCmd_def timeout_or_default_def)

lemma links_ok_Execute:
  assumes "links_ok s" "known_strategy (es_Strategy st)"
  shows "links_ok (snd (Execute e st crr s))"
proof (cases "get_request s crr")
  case None
  then show ?thesis using assms by (simp add: Execute_def)
next
  case (Some c)
  then show ?thesis
  proof (cases rule: Execute_cases [where e = e and strategy = st])
    case (runs ps)
    have "pc_Client p < n_clients s \<and> cmd_ConsensusRequestId (pc_Cmd p) = cr_Id c" if "p \<in> set ps" for p
      using runs(1) that by (rule assemble_cmds_cases) (auto dest: h_get_Some_less)
    then show ?thesis
      unfolding runs(2) by (intro links_ok_Next links_ok_Coordinator_Add assms)
  qed (use assms in simp)
qed

lemma links_ok_upd_request:
  assumes "links_ok s" "\<And>c. cr_Callbacks (f c) = cr_Callbacks c"
  shows "links_ok (upd_request r f s)"
proof -
  have "callbacks_ok (upd_request r f s)"
    by (rule callbacks_ok_grow [of s]) (use assms in \<open>auto simp: links_ok_def split: if_splits\<close>)
  with assms show ?thesis by (simp add: links_ok_def entries_ok_def tasks_ok_def Coordinator_Get_def)
qed

lemma links_ok_start_request:
  assumes "links_ok s" "templates_ok (srv_templateStore s)"
  shows "links_ok (snd (Request_start e crr s))"
proof (cases "\<exists>c. get_request s crr = Some c \<and> can_start s c")
  case False
  then show ?thesis
    using assms start_refused by (cases "get_request s crr") (auto simp: Request_start_def)
next
  case True
  then obtain c where c: "get_request s crr = Some c" "can_start s c" by blast
  then show ?thesis
  proof (rule start_runs [where e = e])
    fix st t r
    assume t: "request_template s c = Some t" "GetExecutionStrategy t = Some st"
      and r: "Execute e st crr (starting e crr s) = r"
      and eq: "Request_start e crr s = (case r of (Inl p, u) \<Rightarrow> (Inl p, u)
        | (Inr _, u) \<Rightarrow> (Inr True, upd_request crr (\<lambda>c. c\<lparr>cr_CompleteTime := unix (env_now e)\<rparr>) u))"
    have "sane_template t"
      using assms(2) t(1) by (simp add: templates_ok_def template_map_ok_store request_template_def)
    then have "known_strategy (es_Strategy st)"
      using t(2) by (auto simp: sane_template_def GetExecutionStrategy_def newExecutionStrategy_def
          known_strategy_def strategy_defs split: option.splits)
    then have "links_ok (snd r)"
      unfolding r [symmetric] starting_def
      by (intro links_ok_Execute links_ok_upd_request assms) simp_all
    then show ?thesis
      by (cases r; cases "fst r") (simp_all add: eq links_ok_upd_request)
  qed
qed

lemma links_ok_check:
  assumes "links_ok s" "templates_ok (srv_templateStore s)"
  shows "links_ok (snd (Request_check e crr s))"
proof (cases "get_request s crr")
  case None
  then show ?thesis using assms by (simp add: Request_check_def)
next
  case (Some c)
  then show ?thesis
    using assms check_fails [OF Some, of e] check_starts(1) [OF Some, of e] links_ok_start_request
    by (cases "check_passes s c") simp_all
qed

lemma links_ok_Approve:
  assumes "links_ok s" "templates_ok (srv_templateStore s)"
  shows "links_ok (snd (Request_Approve e user crr s))"
proof (cases "get_request s crr")
  case None
  then show ?thesis using assms by (simp add: Request_Approve_def)
next
  case (Some c)
  have "links_ok (vote user crr s)" unfolding vote_def links_ok_audit by (intro links_ok_upd_request assms) simp
  then show ?thesis using assms by (simp add: Approve_snd [OF Some] links_ok_check vote_def)
qed

end
