(* ===== verification/Server_Safety.thy ===== *)
theory Server_Safety
  imports Server_Invariant
begin

text \<open>
  The invariant of the running server holds when it starts and is kept by every step, and what
  follows from it.
\<close>

section \<open>The invariant\<close>

definition checks_ok :: "http_check_store \<Rightarrow> bool" where
  "checks_ok s \<longleftrightarrow>
     http_check_store_ok s \<and> (\<forall>m. hs_file s = Json m \<longrightarrow> http_check_store_ok (s\<lparr>hs_Checks := m\<rparr>))"

definition server_ok :: "server \<Rightarrow> bool" where
  "server_ok s \<longleftrightarrow>
     client_store_ok (srv_clients s) \<and> user_store_ok (srv_userStore s) \<and>
     templates_ok (srv_templateStore s) \<and> checks_ok (srv_httpCheckStore s) \<and>
     requests_ok (srv_consensus s) \<and> links_ok s"

lemma server_ok_audit [simp]:
  "server_ok (audit usr title m s) = server_ok s" "server_ok (audit_request v user crr s) = server_ok s"
  "server_ok (audit_submit i c s) = server_ok s"
  by (simp_all add: server_ok_def)

lemma links_ok_frame:
  assumes "links_ok s" "srv_executionCoordinator s' = srv_executionCoordinator s"
    "con_heap (srv_consensus s') = con_heap (srv_consensus s)" "set (srv_tasks s') \<subseteq> set (srv_tasks s)"
    "n_clients s \<le> n_clients s'" "n_channels s \<le> n_channels s'"
  shows "links_ok s'"
proof -
  have "entries_ok s'" by (rule entries_ok_grow [of s]) (use assms in \<open>simp_all add: links_ok_def\<close>)
  moreover have "tasks_ok s'" by (rule tasks_ok_grow [of s]) (use assms in \<open>simp_all add: links_ok_def\<close>)
  moreover have "callbacks_ok s'" by (rule callbacks_ok_grow [of s]) (use assms in \<open>auto simp: links_ok_def\<close>)
  ultimately show ?thesis by (simp add: links_ok_def)
qed

text \<open>Replacing one component keeps the invariant if the component keeps its own.\<close>

lemma server_ok_users:
  "server_ok s \<Longrightarrow> user_store_ok (f (srv_userStore s)) \<Longrightarrow> server_ok (on_users f s)"
  using links_ok_frame [of s "on_users f s"] by (simp add: server_ok_def)

lemma server_ok_templates:
  "server_ok s \<Longrightarrow> templates_ok (f (srv_templateStore s)) \<Longrightarrow> server_ok (on_templates f s)"
  using links_ok_frame [of s "on_templates f s"] by (simp add: server_ok_def)

lemma server_ok_checks:
  "server_ok s \<Longrightarrow> checks_ok (f (srv_httpCheckStore s)) \<Longrightarrow> server_ok (on_checks f s)"
  using links_ok_frame [of s "on_checks f s"] by (simp add: server_ok_def on_checks_def)

lemma server_ok_clients:
  "server_ok s \<Longrightarrow> client_store_ok (f (srv_clients s)) \<Longrightarrow>
   n_clients s \<le> length (cs_heap (f (srv_clients s))) \<Longrightarrow> server_ok (on_clients f s)"
  using links_ok_frame [of s "on_clients f s"] by (simp add: server_ok_def)

text \<open>The clients' operations do not lose objects.\<close>

lemma cs_heap_upd_cmd [simp]: "length (cs_heap (upd_cmd r f s)) = length (cs_heap s)"
  by simp

lemma length_cs_heap [simp]:
  "length (cs_heap s) \<le> length (cs_heap (RegisterClient now k tags s))"
  "cs_heap (CleanupClients now s) = cs_heap s"
  "length (cs_heap (snd (GetDispatchedCmds now c s))) = length (cs_heap s)"
  "length (cs_heap (snd (poll_cmds timed_out c s))) = length (cs_heap s)"
  "length (cs_heap (Submit c cmd s)) = length (cs_heap s)"
  by (simp_all add: RegisterClient_def CleanupClients_def GetDispatchedCmds_def poll_cmds_def Submit_def
      Let_def split_beta split: option.split)

lemma delete_child_cmds_ok:
  assumes "client_store_ok s"
  shows "client_store_ok (delete_child_cmds i s)" "length (cs_heap (delete_child_cmds i s)) = length (cs_heap s)"
proof -
  let ?f = "\<lambda>s (_ :: string, r). upd_client r (\<lambda>c. c\<lparr>rc_DispatchedCmds :=
        filter (\<lambda>(_, d). \<not> cmd_of_request s i d) (rc_DispatchedCmds c)\<rparr>) s"
  have "client_store_ok (foldl ?f s m) \<and> length (cs_heap (foldl ?f s m)) = length (cs_heap s)" for m
    using assms by (induction m arbitrary: s) (auto simp: client_store_ok_filter_dispatched)
  then show "client_store_ok (delete_child_cmds i s)" "length (cs_heap (delete_child_cmds i s)) = length (cs_heap s)"
    by (simp_all add: delete_child_cmds_def)
qed

lemma client_store_ok_token:
  assumes "client_store_ok s"
  shows "client_store_ok (upd_client c (\<lambda>d. d\<lparr>rc_AuthToken := t\<rparr>) s)"
proof (rule client_store_ok_upd_client [OF assms])
  fix d assume "get_client s c = Some d"
  from client_store_okD(3) [OF assms this]
  show "client_ok s (d\<lparr>rc_AuthToken := t\<rparr>) \<and> rc_ClientId (d\<lparr>rc_AuthToken := t\<rparr>) = rc_ClientId d"
    using client_ok_frame [of "d\<lparr>rc_AuthToken := t\<rparr>" d s s] by simp
qed

section \<open>Logins\<close>

text \<open>
  What is asked of an LDAP authenticator: it may add users, but no name twice; and it returns a
  user of the store.
\<close>

definition keeps_users :: "authenticator \<Rightarrow> bool" where
  "keeps_users a \<longleftrightarrow> (\<forall>u ar s. user_store_ok s \<longrightarrow> user_store_ok (snd (a u ar s)))"

definition finds_users :: "authenticator \<Rightarrow> bool" where
  "finds_users a \<longleftrightarrow> (\<forall>u ar s i s'. a u ar s = ((Some i, None), s') \<longrightarrow> get_user s' i \<noteq> None)"

definition ldap_ok :: "authenticator option \<Rightarrow> bool" where
  "ldap_ok ldap \<longleftrightarrow> (\<forall>a. ldap = Some a \<longrightarrow> keeps_users a \<and> finds_users a)"

lemma keeps_users_local: "keeps_users (LocalAuthenticator x)"
  by (auto simp: keeps_users_def LocalAuthenticator_def Let_def split: option.split)

lemma keeps_users_gauth: "keeps_users (GAuthAuthenticator x now)"
  by (auto simp: keeps_users_def GAuthAuthenticator_def split: option.split prod.split bool.split)

lemma first_factor_loop_users:
  "(\<forall>a \<in> set as. keeps_users a) \<Longrightarrow> user_store_ok s \<Longrightarrow> user_store_ok (snd (first_factor_loop as err u ar s))"
proof (induction as err u ar s rule: first_factor_loop.induct)
  case (2 v vs err user ar s)
  obtain w er t where v: "v user ar s = ((w, er), t)" by (metis prod.exhaust)
  then have "user_store_ok t" using "2.prems" unfolding keeps_users_def by (metis list.set_intros(1) snd_conv)
  then show ?case using 2 v by (auto split: option.split)
qed simp

lemma service_users:
  assumes "ldap_ok ldap" "user_store_ok s"
  shows "user_store_ok (snd (service_authUser (createAuthService x now ldap) ar s))"
proof -
  have all: "\<forall>a \<in> set (as_firstFactorAuth (createAuthService x now ldap)). keeps_users a"
    using assms(1) by (cases ldap) (simp_all add: createAuthService_def newAuthService_def
        appendFirstFactor_def ldap_ok_def keeps_users_local Let_def)
  have second: "as_secondFactorAuth (createAuthService x now ldap) = Some (GAuthAuthenticator x now)"
    by (cases ldap) (simp_all add: createAuthService_def newAuthService_def appendFirstFactor_def Let_def)
  have gauth: "user_store_ok t \<Longrightarrow> user_store_ok (snd (GAuthAuthenticator x now u ar t))" for u t
    using keeps_users_gauth by (simp add: keeps_users_def)
  have loop: "user_store_ok t" if "performFirstFactorAuth (createAuthService x now ldap) u ar s = (res, t)" for u res t
    using first_factor_loop_users [OF all assms(2)] that unfolding performFirstFactorAuth_def by (metis snd_conv)
  show ?thesis
    using assms(2) by (auto simp: service_authUser_def second split: option.split prod.split
        dest!: loop intro!: gauth)
qed

section \<open>Every step keeps the invariant\<close>

lemma server_okD:
  assumes "server_ok s"
  shows "client_store_ok (srv_clients s)" "user_store_ok (srv_userStore s)" "templates_ok (srv_templateStore s)"
    "checks_ok (srv_httpCheckStore s)" "requests_ok (srv_consensus s)" "links_ok s"
  using assms by (simp_all add: server_ok_def)

lemma checks_ok_ops:
  "checks_ok s \<Longrightarrow> checks_ok (HttpCheckStore_Add c s)" "checks_ok s \<Longrightarrow> checks_ok (HttpCheckStore_Remove i s)"
  "checks_ok s \<Longrightarrow> checks_ok (snd (http_checks_save e s))"
proof -
  assume ok: "checks_ok s"
  show "checks_ok (HttpCheckStore_Add c s)"
    using ok http_check_store_ok_Add [of s c] by (simp add: checks_ok_def HttpCheckStore_Add_def)
  show "checks_ok (HttpCheckStore_Remove i s)"
    using ok http_check_store_ok_Remove [of s i] by (simp add: checks_ok_def HttpCheckStore_Remove_def)
  show "checks_ok (snd (http_checks_save e s))"
    unfolding checks_ok_def
  proof (intro conjI allI impI)
    fix m assume "hs_file (snd (http_checks_save e s)) = Json m"
    then have "m = hs_Checks s \<or> hs_file s = Json m" by (auto simp: http_checks_save_def dest: write_file_cases)
    with ok show "http_check_store_ok (snd (http_checks_save e s)\<lparr>hs_Checks := m\<rparr>)"
      by (auto simp: checks_ok_def http_checks_save_def http_check_store_ok_def)
  qed (use ok in \<open>simp add: checks_ok_def\<close>)
qed

lemma server_ok_run_submit:
  assumes "server_ok s"
  shows "server_ok (snd (run_submit c cmd er s))"
  using assms client_store_ok_Submit [OF server_okD(1) [OF assms]]
  by (auto simp: run_submit_def Let_def intro!: server_ok_clients split: option.split)

lemma server_ok_Next: "server_ok s \<Longrightarrow> server_ok (snd (Next er s))"
  by (simp add: server_ok_def links_ok_Next)

lemma server_ok_same_clients:
  assumes "server_ok s" "srv_clients s' = srv_clients s" "srv_userStore s' = srv_userStore s"
    "srv_templateStore s' = srv_templateStore s" "srv_httpCheckStore s' = srv_httpCheckStore s"
    "srv_consensus s' = srv_consensus s" "srv_executionCoordinator s' = srv_executionCoordinator s"
    "set (srv_tasks s') \<subseteq> set (srv_tasks s)" "n_channels s \<le> n_channels s'"
  shows "server_ok s'"
  using assms links_ok_frame [of s s'] by (simp add: server_ok_def)

lemma server_ok_goroutine:
  assumes "server_ok s" "srv_tasks s = ts @ task # us"
    "run_task cf task (s\<lparr>srv_tasks := ts @ us\<rparr>) = Some (Inr (), s')"
  shows "server_ok s'"
proof -
  let ?s = "s\<lparr>srv_tasks := ts @ us\<rparr>"
  have s: "server_ok ?s" by (rule server_ok_same_clients [OF assms(1)]) (auto simp: assms(2))
  show ?thesis
  proof (cases task)
    case (TSubmit c cmd er)
    then show ?thesis using assms(3) server_ok_run_submit [OF s, of c cmd er] by (simp add: run_task_def)
  next
    case (TNext er)
    then show ?thesis using assms(3) server_ok_Next [OF s, of er] by (simp add: run_task_def)
  next
    case (TCallback cb r)
    then have "run_callback cf cb r ?s = Some (Inr (), s')" using assms(3) by (simp add: run_task_def)
    then show ?thesis
      by (intro server_ok_same_clients [OF s])
        (auto simp: run_callback_def split: callback.splits option.splits if_splits)
  qed
qed

lemma server_ok_AddRequest:
  assumes "server_ok s" "AddRequest cf e tid cids user reason s = (v, s')"
  shows "server_ok s'"
  using assms(2)
proof (cases rule: AddRequest_cases)
  case (filed msg)
  have "links_ok s'"
    using server_okD(6) [OF assms(1)] unfolding links_ok_def
  proof (elim conjE, intro conjI)
    assume "entries_ok s" then show "entries_ok s'" by (rule entries_ok_grow) (simp_all add: filed)
  next
    assume "tasks_ok s" then show "tasks_ok s'" by (rule tasks_ok_grow) (simp_all add: filed)
  next
    assume "callbacks_ok s" then show "callbacks_ok s'"
      by (rule callbacks_ok_grow) (auto simp: filed new_request_def split: if_splits)
  qed
  then show ?thesis
    using assms requests_ok_AddRequest [OF server_okD(5) [OF assms(1)] assms(2)]
    by (simp add: server_ok_def filed)
qed (use assms in simp)

lemma server_ok_callback:
  assumes "server_ok s" "callback_valid (n_channels s) cb"
  shows "server_ok (Request_AddCallback cb cr s)"
proof -
  have "requests_ok (srv_consensus (Request_AddCallback cb cr s))"
    unfolding Request_AddCallback_def
    using server_okD(5) [OF assms(1)] by (intro requests_ok_upd) (auto simp: requests_ok_def)
  moreover have "callbacks_ok (Request_AddCallback cb cr s)"
    using server_okD(6) [OF assms(1)] assms(2)
    by (auto simp: links_ok_def callbacks_ok_def Request_AddCallback_def split: if_splits)
  ultimately show ?thesis
    using assms(1)
    by (simp add: server_ok_def links_ok_def entries_ok_def tasks_ok_def Request_AddCallback_def Coordinator_Get_def)
qed

lemma server_ok_consensus:
  assumes "server_ok s"
  shows "server_ok (snd (Request_check e cr s))" "server_ok (snd (Request_Approve e user cr s))"
    "server_ok (snd (Request_Delete cr s))" "server_ok (consensus_save e s)"
proof -
  show "server_ok (snd (Request_check e cr s))"
    using assms by (simp add: server_ok_def requests_ok_check links_ok_check)
  show "server_ok (snd (Request_Approve e user cr s))"
    using assms by (simp add: server_ok_def requests_ok_Approve links_ok_Approve)
  show "server_ok (consensus_save e s)"
    using assms requests_ok_save [of s e] links_ok_frame [of s "consensus_save e s"]
    by (simp add: server_ok_def consensus_save_def Let_def)
  have "links_ok (snd (Request_Delete cr s))"
    using delete_child_cmds_ok [OF server_okD(1) [OF assms]]
    by (intro links_ok_frame [OF server_okD(6) [OF assms]])
      (auto simp: Request_Delete_def Let_def split: option.split)
  then show "server_ok (snd (Request_Delete cr s))"
    using assms requests_ok_Delete [of s cr] delete_child_cmds_ok [OF server_okD(1) [OF assms]]
    by (auto simp: server_ok_def Request_Delete_def Let_def split: option.split)
qed

lemma server_ok_client_ops:
  assumes "server_ok s"
  shows "server_ok (on_clients (RegisterClient now k tags) s)"
    "server_ok (on_clients (upd_client c (\<lambda>d. d\<lparr>rc_AuthToken := tok\<rparr>)) s)"
    "server_ok (on_clients (upd_cmd d (append_logs m)) s)" "server_ok (set_cmd_state d st s)"
    "server_ok (on_clients (CleanupClients now) s)"
    "server_ok (on_clients (snd \<circ> GetDispatchedCmds now c) s)"
    "poll_cmds timed_out c (srv_clients s) = (rs, cs) \<Longrightarrow> server_ok (on_clients (\<lambda>_. cs) s)"
proof -
  note ok = server_okD(1) [OF assms]
  show "server_ok (on_clients (RegisterClient now k tags) s)"
    by (rule server_ok_clients [OF assms]) (simp_all add: client_store_ok_Register [OF ok])
  show "server_ok (on_clients (upd_client c (\<lambda>d. d\<lparr>rc_AuthToken := tok\<rparr>)) s)"
    by (rule server_ok_clients [OF assms]) (simp_all add: client_store_ok_token [OF ok])
  show "server_ok (on_clients (upd_cmd d (append_logs m)) s)"
    by (rule server_ok_clients [OF assms]) (auto simp: append_logs_def intro!: client_store_ok_upd_cmd [OF ok])
  show "server_ok (set_cmd_state d st s)"
    unfolding set_cmd_state_def 
    by (rule server_ok_clients [OF assms]) (auto intro!: client_store_ok_upd_cmd [OF ok])
  show "server_ok (on_clients (CleanupClients now) s)"
    by (rule server_ok_clients [OF assms]) (simp_all add: client_store_ok_Cleanup [OF ok])
  show "server_ok (on_clients (snd \<circ> GetDispatchedCmds now c) s)"
    by (rule server_ok_clients [OF assms]) (simp_all add: client_store_ok_GetDispatched [OF ok])
  assume poll: "poll_cmds timed_out c (srv_clients s) = (rs, cs)"
  have "client_store_ok cs" "length (cs_heap cs) = n_clients s"
    using client_store_ok_poll [OF ok, of timed_out c] length_cs_heap(4) [of timed_out c "srv_clients s"]
    by (simp_all add: poll)
  then show "server_ok (on_clients (\<lambda>_. cs) s)" by (intro server_ok_clients [OF assms]) simp_all
qed

text \<open>The laws of a server property, for the invariant and an LDAP authenticator that keeps users.\<close>

lemma server_ok_property:
  assumes "ldap_ok ldap"
  shows "server_property server_ok x ldap cf"
proof unfold_locales
  fix s now ar v us assume "server_ok s" "service_authUser (createAuthService x now ldap) ar (srv_userStore s) = (v, us)"
  then show "server_ok (on_users (\<lambda>_. us) s)"
    using service_users [OF assms server_okD(2), of s x now ar] by (intro server_ok_users) simp_all
next
  fix s e n pw m roles res us
  assume "server_ok s" "CreateUser x e n pw m roles (srv_userStore s) = Some (res, us)"
  then show "server_ok (on_users (\<lambda>_. us) s)"
    using user_store_ok_Create [OF server_okD(2)] by (intro server_ok_users) simp_all
next
  fix s i er assume "server_ok s" "Coordinator_Get s i = Some er"
  then show "server_ok (start_tasks [TNext er] s)"
    using links_ok_start [of s "[TNext er]"]
    by (auto simp: server_ok_def task_ok_def) (simp add: links_ok_def entries_ok_def)
next
  fix s ch g assume "server_ok s"
  then show "server_ok (s\<lparr>srv_done := h_upd ch g (srv_done s)\<rparr>)" by (rule server_ok_same_clients) simp_all
next
  fix s assume "server_ok s"
  then show "server_ok (s\<lparr>srv_done := srv_done s @ [0]\<rparr>)" by (rule server_ok_same_clients) simp_all
next
  fix s assume "server_ok s"
  then show "server_ok (s\<lparr>srv_notifications := dispatch (srv_notifications s)\<rparr>)"
    by (rule server_ok_same_clients) simp_all
qed (auto simp: touch_def server_okD server_ok_client_ops server_ok_consensus checks_ok_ops
    templates_ok_Add templates_ok_Remove templates_ok_upd templates_ok_save
    user_store_ok_upd user_store_ok_save user_store_ok_Remove
    intro!: server_ok_users server_ok_templates server_ok_checks server_ok_callback
    intro: server_ok_goroutine server_ok_AddRequest)

interpretation running: server_property server_ok x None cf for x cf
  by (rule server_ok_property) (simp add: ldap_ok_def)

end
