(* ===== verification/Panic_Freedom.thy ===== *)
theory Panic_Freedom
  imports Server_Safety
begin

text \<open>
  Which run-time panics can happen on a server that satisfies the invariant: in a goroutine of
  its own (the process ends) and in a handler (the http package recovers).
\<close>

section \<open>Goroutines\<close>

text \<open>The one panic of \<open>Next\<close>: the entry is finished and its request is no longer pending.\<close>

definition orphaned :: "server \<Rightarrow> ref \<Rightarrow> bool" where
  "orphaned s er \<longleftrightarrow>
     (\<exists>ece. get_entry s er = Some ece \<and> ece_cmds ece = [] \<and> allFinished ece (srv_clients s) \<and>
        Consensus_Get s (ece_Id ece) = None)"

lemma Consensus_Get_valid:
  assumes "requests_ok (srv_consensus s)" "Consensus_Get s i = Some r"
  shows "\<exists>c. get_request s r = Some c \<and> cr_Id c = i"
  using assms gm_get_in unfolding Consensus_Get_def requests_ok_def pending_ok_def by fastforce

lemma ExecuteCallbacks_result:
  assumes "requests_ok (srv_consensus s)"
  shows "fst (ExecuteCallbacks ece s) = (if Consensus_Get s (ece_Id ece) = None then Inl NilDeref else Inr ())"
proof (cases "Consensus_Get s (ece_Id ece)")
  case (Some r)
  then obtain c where "get_request s r = Some c" using Consensus_Get_valid [OF assms] by blast
  with Some show ?thesis by (simp add: ExecuteCallbacks_def)
qed (simp add: ExecuteCallbacks_def)

lemma cmdsToStart_known: "known_strategy (es_Strategy (ece_strategy ece)) \<Longrightarrow> cmdsToStart ece \<noteq> None"
  by (auto simp: cmdsToStart_def known_strategy_def strategy_defs Let_def)

lemma Next_result:
  assumes "requests_ok (srv_consensus s)" "entries_ok s" "er < n_entries s"
  shows "fst (Next er s) = (if orphaned s er then Inl NilDeref else Inr ())"
proof -
  from assms(3) obtain ece where ece: "get_entry s er = Some ece" by (simp add: h_get_def)
  then have known: "known_strategy (es_Strategy (ece_strategy ece))"
    using assms(2) by (simp add: entries_ok_def entry_ok_def)
  show ?thesis
  proof (cases "ece_cmds ece = [] \<and> allFinished ece (srv_clients s)")
    case True
    then show ?thesis
      using ExecuteCallbacks_result [OF assms(1)] Next_done [OF ece] by (simp add: orphaned_def ece)
  next
    case False
    with ece show ?thesis
      by (cases rule: Next_cases) (use cmdsToStart_known [OF known] ece in \<open>auto simp: orphaned_def\<close>)
  qed
qed

lemma run_task_result:
  assumes "server_ok s" "t \<in> set (srv_tasks s)" "run_task cf t s = Some (res, s')"
  shows "res = (if \<exists>er. t = TNext er \<and> orphaned s er then Inl NilDeref else Inr ())"
proof -
  have links: "entries_ok s" "requests_ok (srv_consensus s)"
    and t: "task_ok (n_clients s) (n_entries s) (n_requests s) (n_channels s) t"
    using assms(1,2) by (auto simp: server_ok_def links_ok_def tasks_ok_def)
  show ?thesis
  proof (cases t)
    case (TSubmit c cmd er)
    then show ?thesis using t assms(3)
      by (auto simp: task_ok_def run_task_def run_submit_def h_get_def Let_def)
  next
    case (TNext er)
    then show ?thesis using t assms(3) Next_result [OF links(2,1), of er]
      by (auto simp: task_ok_def run_task_def)
  next
    case (TCallback cb r)
    then show ?thesis using t assms(3)
      by (auto simp: task_ok_def callback_valid_def run_task_def run_callback_def h_get_def
          split: callback.splits if_splits)
  qed
qed

section \<open>Starting a request\<close>

lemma assemble_cmds_total:
  assumes "client_store_ok s" "t \<noteq> None"
  shows "\<exists>ps. assemble_cmds e k t c s cids = Inr ps"
proof (induction cids arbitrary: k)
  case (Cons cid cids)
  obtain ps where "assemble_cmds e k t c s cids = Inr ps" using Cons by blast
  moreover obtain ps' where "assemble_cmds e (Suc k) t c s cids = Inr ps'" using Cons by blast
  moreover have "\<exists>cl. get_client s r = Some cl" if "GetClient s cid = Some r" for r
    using client_store_okD(2) [OF assms(1), of cid r] gm_get_in that by (force simp: GetClient_def)
  ultimately show ?case using assms(2) by (auto split: option.split)
qed simp

lemma Execute_result:
  assumes "server_ok s" "get_request s crr = Some c" "request_template s c \<noteq> None"
    "Consensus_Get s (cr_Id c) \<noteq> None" "known_strategy (es_Strategy st)"
  shows "fst (Execute e st crr s) = Inr True"
proof -
  obtain ps where ps: "assemble_cmds e 1 (request_template s c) c (srv_clients s) (cr_ClientIds c) = Inr ps"
    using assemble_cmds_total [OF server_okD(1) [OF assms(1)] assms(3)] by blast
  let ?s = "Coordinator_Add (cr_Id c) st ps s" and ?er = "n_entries s"
  have "links_ok ?s"
    using server_okD(6) [OF assms(1)] assms(5)
  proof (rule links_ok_Coordinator_Add)
    fix p assume "p \<in> set ps"
    with ps show "pc_Client p < n_clients s \<and> cmd_ConsensusRequestId (pc_Cmd p) = cr_Id c"
      by (rule assemble_cmds_cases) (auto dest: h_get_Some_less)
  qed
  moreover have "\<not> orphaned ?s ?er"
    using assms(4) by (simp add: orphaned_def Coordinator_Add_def Consensus_Get_def Let_def)
  moreover have "?er < n_entries ?s" by (simp add: Coordinator_Add_def Let_def)
  ultimately have "fst (Next ?er ?s) = Inr ()"
    using server_okD(5) [OF assms(1)] by (simp add: Next_result links_ok_def)
  then show ?thesis
    using assms(2) by (auto simp: Execute_def ps [simplified] Coordinator_Get_Add split: prod.split sum.split)
qed

lemma server_ok_starting:
  assumes "server_ok s"
  shows "server_ok (starting e crr s)"
proof -
  have "requests_ok (srv_consensus (starting e crr s))"
    unfolding starting_def using server_okD(5) [OF assms]
    by (intro requests_ok_upd) (auto simp: requests_ok_def request_ok_def)
  then show ?thesis
    using assms links_ok_upd_request [OF server_okD(6) [OF assms]]
    by (simp add: server_ok_def starting_def)
qed

lemma start_result:
  assumes "server_ok s" "get_request s crr = Some c" "Consensus_Get s (cr_Id c) \<noteq> None"
  shows "\<not> isl (fst (Request_start e crr s))"
proof (cases "can_start s c")
  case False
  then show ?thesis using start_refused [OF assms(2)] by simp
next
  case True
  with assms(2) show ?thesis
  proof (rule start_runs [where e = e])
    fix st t r
    assume t: "request_template s c = Some t" "GetExecutionStrategy t = Some st"
      and r: "Execute e st crr (starting e crr s) = r"
      and eq: "Request_start e crr s = (case r of (Inl p, u) \<Rightarrow> (Inl p, u)
        | (Inr _, u) \<Rightarrow> (Inr True, upd_request crr (\<lambda>c. c\<lparr>cr_CompleteTime := unix (env_now e)\<rparr>) u))"
    let ?c = "c\<lparr>cr_Executed := True, cr_StartTime := unix (env_now e)\<rparr>"
    have "sane_template t"
      using server_okD(3) [OF assms(1)] t(1)
      by (simp add: templates_ok_def template_map_ok_store request_template_def)
    then have "known_strategy (es_Strategy st)"
      using t(2) by (auto simp: sane_template_def GetExecutionStrategy_def newExecutionStrategy_def
          known_strategy_def strategy_defs split: option.splits)
    then have "fst r = Inr True"
      unfolding r [symmetric]
      using assms(2,3) t(1)
      by (intro Execute_result [where c = ?c] server_ok_starting assms(1))
        (simp_all add: starting_def Consensus_Get_def request_template_def)
    then show ?thesis by (cases r) (simp add: eq)
  qed
qed

lemma check_result:
  assumes "server_ok s" "get_request s crr = Some c" "Consensus_Get s (cr_Id c) \<noteq> None"
  shows "\<not> isl (fst (Request_check e crr s))"
  using check_fails [OF assms(2), of e] check_starts(1) [OF assms(2), of e] start_result [OF assms, of e]
  by (cases "check_passes s c") simp_all

section \<open>Handlers\<close>

text \<open>The panics that a handler can run into: a log report whose body is the JSON value null, and bcrypt's error.\<close>

lemma Approve_result:
  assumes "server_ok s" "get_request s crr = Some c" "Consensus_Get s (cr_Id c) \<noteq> None"
  shows "\<not> isl (fst (Request_Approve e user crr s))"
proof (cases "may_vote user c")
  case False
  then show ?thesis by (simp add: Approve_eq [OF assms(2)])
next
  case True
  let ?s = "vote user crr s" and ?c = "c\<lparr>cr_ApproveUserIds := gm_set (user_Id user) True (cr_ApproveUserIds c)\<rparr>"
  have "requests_ok (srv_consensus ?s)"
    unfolding vote_def audit_request_simps using server_okD(5) [OF assms(1)] assms(2) True
    by (intro requests_ok_upd) (auto simp: requests_ok_def may_vote_def intro!: request_ok_vote)
  moreover have "links_ok ?s"
    unfolding vote_def links_ok_audit by (rule links_ok_upd_request [OF server_okD(6) [OF assms(1)]]) simp
  ultimately have "server_ok ?s" using assms(1) by (simp add: server_ok_def vote_def)
  moreover have "get_request ?s crr = Some ?c" by (simp add: vote_def assms(2))
  moreover have "Consensus_Get ?s (cr_Id ?c) \<noteq> None" using assms(3) by (simp add: vote_def Consensus_Get_def)
  ultimately have "\<not> isl (fst (Request_check e crr ?s))" by (rule check_result)
  with True show ?thesis by (auto simp: Approve_eq [OF assms(2)] split: prod.split sum.split)
qed

lemma Delete_result:
  assumes "get_request s crr = Some c"
  shows "\<not> isl (fst (Request_Delete crr s))"
  by (simp add: Request_Delete_def assms)

lemma server_ok_touch: "server_ok s \<Longrightarrow> server_ok (touch e r i s)"
  by (rule running.touch_ok)

lemma if_authUser_result:
  assumes "\<And>i. \<not> isl (fst (body (touch e r i s)))"
  shows "\<not> isl (fst (if_authUser e r msg body s))"
  using assms by (cases "getUser r (env_now e) (srv_userStore s)")
    (simp_all add: if_authUser_refused if_authUser_admitted)

lemma as_user_result:
  assumes "\<And>i u. session_user e r s \<noteq> None \<Longrightarrow>
    \<not> isl (fst (body i (TouchSession (env_now e) (rq_RemoteAddr r) u) (touch e r i s)))"
  shows "\<not> isl (fst (as_user e r msg body s))"
  using as_user_cases [of e r s] assms by cases auto

lemma PostConsensusApprove_result:
  assumes "server_ok s"
  shows "\<not> isl (fst (PostConsensusApprove e r s))"
  unfolding PostConsensusApprove_def
proof (rule as_user_result)
  fix i u
  let ?s = "touch e r i s"
  have s: "server_ok ?s" by (rule server_ok_touch [OF assms])
  have "\<not> isl (fst (Request_Approve e v crr ?s))" if "Consensus_Get ?s uid = Some crr" for v crr uid
    using Consensus_Get_valid [OF server_okD(5) [OF s] that] that Approve_result [OF s] by auto
  then show "\<not> isl (fst (if \<not> HasRole (TouchSession (env_now e) (rq_RemoteAddr r) u) ''approver''
        then reply_error ''User not allowed for PostConsensusApprove'' ?s
        else let uid = TrimSpace (PostFormValue r ''id'')
          in case Consensus_Get ?s uid of None \<Rightarrow> reply_error ''Request not found'' ?s
             | Some req \<Rightarrow> (case Request_Approve e (TouchSession (env_now e) (rq_RemoteAddr r) u) req ?s of
                 (Inl p, s) \<Rightarrow> (Inl p, s)
               | (Inr res, s) \<Rightarrow> reply_ok [(''approved'', VBool res)] (consensus_save e s))))"
    by (auto simp: Let_def split: option.split prod.split sum.split) (metis fst_conv isl_def)
qed

lemma DeleteConsensusRequest_result:
  assumes "server_ok s"
  shows "\<not> isl (fst (DeleteConsensusRequest e r s))"
  unfolding DeleteConsensusRequest_def
proof (rule as_user_result)
  fix i u
  let ?s = "touch e r i s" and ?user = "TouchSession (env_now e) (rq_RemoteAddr r) u"
  have s: "server_ok ?s" by (rule server_ok_touch [OF assms])
  have get: "\<exists>c. get_request ?s crr = Some c" if "Consensus_Get ?s uid = Some crr" for crr uid
    using Consensus_Get_valid [OF server_okD(5) [OF s] that] by blast
  show "\<not> isl (fst (if \<not> HasRole ?user ''requester''
        then reply_error ''User not allowed to DeleteConsensusRequest'' ?s
        else let uid = TrimSpace (QueryGet r ''id'')
          in case Consensus_Get ?s uid of None \<Rightarrow> reply_error ''Request not found'' ?s
             | Some req \<Rightarrow>
                 (case get_request ?s req of None \<Rightarrow> (Inl NilDeref, ?s)
                  | Some c \<Rightarrow>
                      let isAdmin = HasRole ?user ''admin''; isCreator = (cr_RequestUserId c = user_Id ?user)
                      in if \<not> isAdmin \<and> \<not> isCreator
                         then reply_error ''Only the creator or admins can cancel a request'' ?s
                         else (case Request_Cancel ?user req ?s of
                                 (Inl p, s) \<Rightarrow> (Inl p, s)
                               | (Inr res, s) \<Rightarrow> reply_ok [(''cancelled'', VBool res)] (consensus_save e s)))))"
  proof (cases "Consensus_Get ?s (TrimSpace (QueryGet r ''id''))")
    case (Some crr)
    then obtain c where "get_request ?s crr = Some c" using get by blast
    with Some show ?thesis by (simp add: Let_def Request_Cancel_def Request_Delete_def del: touch_simps)
  qed (simp add: Let_def del: touch_simps)
qed

text \<open>A request that was just filed, with its callback: the check finds it and cannot panic.\<close>

lemma filed_check_result:
  assumes "server_ok s" "AddRequest cf e tid cids user reason s = (Some cr, s1)"
  shows "\<not> isl (fst (Request_check e cr (Request_AddCallback FinishedNotification cr s1)))"
    "\<not> isl (fst (Request_check e cr (Request_AddCallback (HttpCheckDone (length (srv_done s1))) cr
       (s1\<lparr>srv_done := srv_done s1 @ [0]\<rparr>))))"
proof -
  let ?c = "new_request e tid cids user reason"
  have s1: "server_ok s1" using server_ok_AddRequest [OF assms] .
  have c: "get_request s1 cr = Some ?c" "Consensus_Get s1 (env_uuid e 0) = Some cr"
    using assms(2) by (cases rule: AddRequest_cases; simp add: Consensus_Get_def)+
  have fin: "server_ok (Request_AddCallback FinishedNotification cr s1)"
    by (rule server_ok_callback [OF s1]) (simp add: callback_valid_def)
  show "\<not> isl (fst (Request_check e cr (Request_AddCallback FinishedNotification cr s1)))"
    using c by (intro check_result [OF fin, where c = "?c\<lparr>cr_Callbacks := cr_Callbacks ?c @ [FinishedNotification]\<rparr>"])
      (simp_all add: Request_AddCallback_def Consensus_Get_def new_request_def)
  let ?s2 = "s1\<lparr>srv_done := srv_done s1 @ [0]\<rparr>" and ?cb = "HttpCheckDone (length (srv_done s1))"
  have "server_ok ?s2" by (rule server_ok_same_clients [OF s1]) simp_all
  then have http: "server_ok (Request_AddCallback ?cb cr ?s2)"
    by (rule server_ok_callback) (simp add: callback_valid_def)
  show "\<not> isl (fst (Request_check e cr (Request_AddCallback ?cb cr ?s2)))"
    using c by (intro check_result [OF http, where c = "?c\<lparr>cr_Callbacks := cr_Callbacks ?c @ [?cb]\<rparr>"])
      (simp_all add: Request_AddCallback_def Consensus_Get_def new_request_def)
qed

lemma PostConsensusRequest_result:
  assumes "server_ok s"
  shows "\<not> isl (fst (PostConsensusRequest x cf e r s))"
  unfolding PostConsensusRequest_def
proof (rule as_user_result)
  fix i u
  let ?s = "touch e r i s" and ?user = "TouchSession (env_now e) (rq_RemoteAddr r) u"
  have s: "server_ok ?s" by (rule server_ok_touch [OF assms])
  have some: "v \<noteq> None" if "AddRequest cf e tid cids ?user reason ?s = (v, s1)" "HasRole ?user ''requester''"
    for v tid cids reason s1
    using that(1) by (cases rule: AddRequest_cases) (use that(2) in auto)
  let ?run = "\<lambda>tid cids reason. case AddRequest cf e tid cids ?user reason ?s of
      (None, s) \<Rightarrow> (Inl NilDeref, s)
    | (Some cr, s) \<Rightarrow>
        let s = Request_AddCallback FinishedNotification cr s
        in (case Request_check e cr s of
              (Inl p, s) \<Rightarrow> (Inl p, s)
            | (Inr _, s) \<Rightarrow> reply_ok [] (consensus_save e s))"
  have run: "\<not> isl (fst (?run tid cids reason))" if "HasRole ?user ''requester''" for tid cids reason
  proof -
    obtain v s1 where add: "AddRequest cf e tid cids ?user reason ?s = (v, s1)" by (cases "AddRequest cf e tid cids ?user reason ?s")
    with some [OF add that] obtain cr where v: "v = Some cr" by auto
    obtain res s2 where res: "Request_check e cr (Request_AddCallback FinishedNotification cr s1) = (res, s2)"
      by (cases "Request_check e cr (Request_AddCallback FinishedNotification cr s1)")
    have "\<not> isl res" using filed_check_result(1) [OF s add [unfolded v]] res by simp
    then show ?thesis by (cases res) (simp_all add: add v res)
  qed
  show "\<not> isl (fst (if \<not> HasRole ?user ''requester'' then reply_error ''User not allowed to PostConsensusRequest'' ?s
       else if fst (ValidateTotp x (env_now e) ?user (PostFormValue r ''totp'')) = False
       then reply_error ''Invalid two factor token'' ?s
       else
         let reason = TrimSpace (PostFormValue r ''reason'')
         in if length reason < 4 then reply_error ''Please provide a valid reason'' ?s
            else
              let templateId = TrimSpace (PostFormValue r ''template'');
                  clientIds = Split (CHR '','') (TrimSpace (PostFormValue r ''clients''))
              in ?run templateId clientIds reason))"
    unfolding Let_def [of "TrimSpace _"] Let_def [of "Split _ _"] using run by simp
qed

lemma first_factor_loop_finds:
  "\<forall>a \<in> set as. finds_users a \<Longrightarrow> first_factor_loop as err u ar s = ((Some i, None), s') \<Longrightarrow>
   get_user s' i \<noteq> None"
proof (induction as err u ar s rule: first_factor_loop.induct)
  case (2 v vs err user ar s)
  obtain w er t where v: "v user ar s = ((w, er), t)" by (metis prod.exhaust)
  show ?case
  proof (cases er)
    case None
    with v "2.prems" show ?thesis unfolding finds_users_def by fastforce
  next
    case (Some e')
    with v "2.prems" have "first_factor_loop vs e' user ar t = ((Some i, None), s')" by simp
    then show ?thesis using "2.IH" [OF v [symmetric] refl Some] "2.prems"(1) by simp
  qed
qed simp

lemma finds_users_local: "finds_users (LocalAuthenticator x)"
  by (auto simp: finds_users_def LocalAuthenticator_def Let_def split: option.splits if_splits)

text \<open>A successful login yields a user of the store; a failed one an error.\<close>

lemma service_result:
  assumes "ldap_ok ldap" "service_authUser (createAuthService x now ldap) ar s = ((v, None), s')"
  shows "\<exists>i u. v = Some i \<and> get_user s' i = Some u"
proof -
  let ?as = "createAuthService x now ldap"
  have all: "\<forall>a \<in> set (as_firstFactorAuth ?as). finds_users a"
    using assms(1) by (cases ldap) (simp_all add: createAuthService_def newAuthService_def
        appendFirstFactor_def ldap_ok_def finds_users_local Let_def)
  have second: "as_secondFactorAuth ?as = Some (GAuthAuthenticator x now)"
    by (cases ldap) (simp_all add: createAuthService_def newAuthService_def appendFirstFactor_def Let_def)
  have "AuthRequest_Validate ar = None"
    using assms(2) by (auto simp: service_authUser_def split: option.splits)
  moreover obtain user where "getValidUser ar s = (user, None)"
    using assms(2) calculation by (auto simp: service_authUser_def split: option.splits prod.splits)
  ultimately obtain i t where ff: "performFirstFactorAuth ?as user ar s = ((Some i, None), t)"
    and rest: "(case (Some (GAuthAuthenticator x now), get_user t i) of
        (Some second, Some u) \<Rightarrow> if HasTwoFactor u then second (Some i) ar t else ((Some i, None), t)
      | _ \<Rightarrow> ((Some i, None), t)) = ((v, None), s')"
    using assms(2) by (auto simp: service_authUser_def second split: option.splits prod.splits)
  from ff first_factor_loop_finds [OF all] obtain u where u: "get_user t i = Some u"
    unfolding performFirstFactorAuth_def by blast
  show ?thesis
    using rest u gauth.auth_success [of x now "Some i" ar t v s'] gauth.auth_keeps [of x now "Some i" ar t _ s']
    by (auto split: if_splits)
qed

lemma PostAuth_result:
  assumes "ldap_ok ldap"
  shows "\<not> isl (fst (PostAuth x ldap e r s))"
proof -
  obtain v er us where auth: "service_authUser (createAuthService x (env_now e) ldap) (auth_request_of r)
      (srv_userStore s) = ((v, er), us)" by (metis prod.exhaust)
  show ?thesis
  proof (cases er)
    case None
    with service_result [OF assms] auth obtain i u where "v = Some i" "get_user us i = Some u" by blast
    with None auth show ?thesis by (simp add: PostAuth_def split_beta Let_def)
  qed (simp add: PostAuth_def auth split: option.split)
qed

lemma form_handlers_result:
  "\<not> isl (fst (PutUserPassword x e r s))" "\<not> isl (fst (PutUser2fa x e r s))"
  "\<not> isl (fst (GetUser2fa x e r s))" "\<not> isl (fst (DeleteUser x e r s))"
  "\<not> isl (fst (PostTemplate e r s))" "\<not> isl (fst (DeleteTemplate e r s))"
  "\<not> isl (fst (PostHttpCheck x e r s))" "\<not> isl (fst (DeleteHttpCheck e r s))"
  "\<not> isl (fst (DeleteTemplateValidation e r s))" "\<not> isl (fst (GetTags e r s))"
  "\<not> isl (fst (GetClients e r s))" "\<not> isl (fst (GetClientCmdLogs e r s))"
  "\<not> isl (fst (GetConsensusPending e r s))" "\<not> isl (fst (GetTemplate e r s))"
  "\<not> isl (fst (GetUsersNames e r s))" "\<not> isl (fst (GetUsers e r s))" "\<not> isl (fst (GetHttpChecks e r s))"
  unfolding PutUserPassword_def PutUser2fa_def GetUser2fa_def DeleteUser_def PostTemplate_def DeleteTemplate_def
    PostHttpCheck_def DeleteHttpCheck_def DeleteTemplateValidation_def GetTags_def GetClients_def
    GetClientCmdLogs_def GetConsensusPending_def GetTemplate_def GetUsersNames_def GetUsers_def GetHttpChecks_def
  by (rule if_authUser_result as_user_result; simp add: Let_def split_beta split: option.split sum.split)+

lemma PostTemplateValidation_result: "\<not> isl (fst (PostTemplateValidation e r s))"
  unfolding PostTemplateValidation_def
  by (rule if_authUser_result) (auto simp: Let_def split_beta newExecutionValidation_def split: option.split)

lemma PutUser_result: "\<not> isl (fst (PutUser x e r s))"
  unfolding PutUser_def
  by (rule as_user_result)
    (auto simp: Let_def split_beta dest!: ByName_SomeD split: option.split)

lemma client_handlers_result:
  "\<not> isl (fst (ClientPing cf e r s))" "\<not> isl (fst (PostClientAuth cf e r s))"
  "\<not> isl (fst (ClientCmds timed_out cf r s))" "\<not> isl (fst (PutClientCmdState cf r s))"
  unfolding ClientPing_def PostClientAuth_def ClientCmds_def PutClientCmdState_def
  by (auto simp: Let_def split: option.split prod.split)

lemma PutClientCmdLogs_result: "fst (PutClientCmdLogs cf r s) = Inl p \<Longrightarrow> p = NilDeref \<and> rq_Body r = Decoded None"
  unfolding PutClientCmdLogs_def
  by (auto split: option.splits prod.splits log_body.splits if_splits)

lemma PostUser_result:
  assumes "fst (PostUser x e r s) = Inl p"
  shows "p = LogFatal \<and> bcrypt_generate x (env_salt e) (PostFormValue r ''password'') = None"
proof (cases rule: as_user_cases [of e r s])
  case refused
  with assms show ?thesis by (simp add: PostUser_def)
next
  case (admitted i u)
  with assms show ?thesis
    by (auto simp: PostUser_def Let_def CreateUser_def HashPassword_def split: if_splits option.splits)
qed

text \<open>All handlers together.\<close>

definition excused_panic :: "ext \<Rightarrow> env \<Rightarrow> route \<Rightarrow> http_request \<Rightarrow> panic \<Rightarrow> bool" where
  "excused_panic x e route r p \<longleftrightarrow>
     (route = PUT_client_cmd_logs \<and> p = NilDeref \<and> rq_Body r = Decoded None) \<or>
     (route = POST_user \<and> p = LogFatal \<and> bcrypt_generate x (env_salt e) (PostFormValue r ''password'') = None)"

lemma serve_result:
  assumes "server_ok s" "ldap_ok ldap" "fst (serve x cf ldap e route r s) = Inl p"
  shows "excused_panic x e route r p"
proof -
  note results = form_handlers_result client_handlers_result PostConsensusApprove_result [OF assms(1)]
    DeleteConsensusRequest_result [OF assms(1)] PostConsensusRequest_result [OF assms(1)]
    PostAuth_result [OF assms(2)] PostTemplateValidation_result PutUser_result
  from assms(3) have "isl (fst (serve x cf ldap e route r s))" by simp
  then show ?thesis
    using assms(3) PutClientCmdLogs_result [of cf r s p] PostUser_result [of x e r s p]
    by (cases route) (simp_all add: results Ping_def excused_panic_def)
qed

lemma check_start_result:
  assumes "server_ok s"
  shows "\<not> isl (fst (GetHttpCheck_start cf e r s))"
proof -
  have no: False
    if "AddRequest cf e tid cids user [] s = (Some cr, s1)"
      "Request_check e cr (Request_AddCallback (HttpCheckDone (length (srv_done s1))) cr
        (s1\<lparr>srv_done := srv_done s1 @ [0]\<rparr>)) = (Inl p, t)" for tid cids user cr s1 p t
    using filed_check_result(2) [OF assms that(1)] that(2) by simp
  show ?thesis
    by (auto simp: GetHttpCheck_start_def Let_def split: option.split prod.split sum.split dest: no)
qed

end
