(* ===== verification/Authorisation.thy ===== *)
theory Authorisation
  imports Panic_Freedom
begin

text \<open>
  Where commands come from: whatever the interleaving, a command in the server's hands was
  assembled when a request got enough votes, for a client of that request and with the command
  text of its template.
\<close>

section \<open>The commands in the server's hands\<close>

text \<open>Waiting in an entry, handed to a goroutine, or filed for a client.\<close>

definition queued_cmds :: "server \<Rightarrow> cmd set" where
  "queued_cmds s = {pc_Cmd p |p ece er. get_entry s er = Some ece \<and> p \<in> set (ece_cmds ece)}"

definition started_cmds :: "server \<Rightarrow> cmd set" where
  "started_cmds s = {c |c cl er. TSubmit cl c er \<in> set (srv_tasks s)}"

definition filed_cmds :: "server \<Rightarrow> cmd set" where
  "filed_cmds s = {c |c r. get_cmd (srv_clients s) r = Some c}"

definition cmds_of :: "server \<Rightarrow> cmd set" where
  "cmds_of s = queued_cmds s \<union> started_cmds s \<union> filed_cmds s"

text \<open>What of a command never changes once it is assembled.\<close>

definition same_origin :: "cmd \<Rightarrow> cmd \<Rightarrow> bool" where
  "same_origin c d \<longleftrightarrow>
     cmd_Id d = cmd_Id c \<and> cmd_Command d = cmd_Command c \<and> cmd_ClientId d = cmd_ClientId c \<and>
     cmd_TemplateId d = cmd_TemplateId c \<and> cmd_ConsensusRequestId d = cmd_ConsensusRequestId c \<and>
     cmd_Signature d = cmd_Signature c \<and> cmd_RequestUserId d = cmd_RequestUserId c \<and>
     cmd_Timeout d = cmd_Timeout c"

lemma same_origin_refl [simp]: "same_origin c c"
  by (simp add: same_origin_def)

lemma same_origin_trans: "same_origin a b \<Longrightarrow> same_origin b c \<Longrightarrow> same_origin a c"
  by (simp add: same_origin_def)

definition covers :: "server \<Rightarrow> server \<Rightarrow> bool" where
  "covers s s' \<longleftrightarrow> (\<forall>d \<in> cmds_of s'. \<exists>c \<in> cmds_of s. same_origin c d)"

lemma covers_refl [simp]: "covers s s"
  unfolding covers_def by (blast intro: same_origin_refl)

lemma covers_trans: "covers s t \<Longrightarrow> covers t u \<Longrightarrow> covers s u"
  unfolding covers_def by (meson same_origin_trans)

lemma covers_subset: "cmds_of s' \<subseteq> cmds_of s \<Longrightarrow> covers s s'"
  unfolding covers_def by (blast intro: same_origin_refl)

lemma cmds_of_cong:
  assumes "cs_cmds (srv_clients s') = cs_cmds (srv_clients s)"
    "srv_executionCoordinator s' = srv_executionCoordinator s" "srv_tasks s' = srv_tasks s"
  shows "cmds_of s' = cmds_of s"
  using assms by (simp add: cmds_of_def queued_cmds_def started_cmds_def filed_cmds_def)

lemma cmds_of_audit [simp]:
  "cmds_of (audit usr title m s) = cmds_of s" "cmds_of (audit_request v user crr s) = cmds_of s"
  "cmds_of (audit_submit i c s) = cmds_of s"
  by (rule cmds_of_cong; simp)+

lemma covers_cong:
  assumes "covers s t" "cs_cmds (srv_clients u) = cs_cmds (srv_clients t)"
    "srv_executionCoordinator u = srv_executionCoordinator t" "srv_tasks u = srv_tasks t"
  shows "covers s u"
  using assms cmds_of_cong [of u t] by (simp add: covers_def)

text \<open>Command objects may change in place, in what is not their origin.\<close>

lemma covers_heap:
  assumes "\<And>r d. get_cmd (srv_clients s') r = Some d \<Longrightarrow>
      \<exists>c. get_cmd (srv_clients s) r = Some c \<and> same_origin c d"
    "srv_executionCoordinator s' = srv_executionCoordinator s" "srv_tasks s' = srv_tasks s"
  shows "covers s s'"
proof -
  have rest: "queued_cmds s' = queued_cmds s" "started_cmds s' = started_cmds s"
    by (simp_all add: queued_cmds_def started_cmds_def assms(2,3))
  have filed: "\<exists>c \<in> filed_cmds s. same_origin c d" if "d \<in> filed_cmds s'" for d
    using that assms(1) unfolding filed_cmds_def by blast
  show ?thesis
    unfolding covers_def cmds_of_def rest using filed by (blast intro: same_origin_refl)
qed

lemma on_checks_simps [simp, go_simps]:
  "srv_clients (on_checks f s) = srv_clients s"
  "srv_consensus (on_checks f s) = srv_consensus s" "srv_templateStore (on_checks f s) = srv_templateStore s"
  "srv_executionCoordinator (on_checks f s) = srv_executionCoordinator s"
  "srv_tasks (on_checks f s) = srv_tasks s"
  by (simp_all add: on_checks_def)

interpretation admin_cmds: admin_property "covers s0" x ldap for s0 x ldap
  by unfold_locales (auto intro: covers_cong)

lemma RegisterClient_cmds [simp]: "cs_cmds (RegisterClient now k tags s) = cs_cmds s"
  by (simp add: RegisterClient_def Let_def split: option.split)

lemma poll_cmd_origin:
  assumes "get_cmd (snd (poll_cmds timed_out c cs)) r = Some d"
  shows "\<exists>c. get_cmd cs r = Some c \<and> same_origin c d"
proof (cases "\<exists>cl. get_client cs c = Some cl \<and> \<not> timed_out \<and> rc_CmdChan cl \<noteq> 0")
  case True
  then obtain cl where cl: "get_client cs c = Some cl" "\<not> timed_out" "rc_CmdChan cl \<noteq> 0" by blast
  from assms show ?thesis unfolding poll_woken [OF cl]
    by (auto simp: take_pending_heap same_origin_def split: if_splits)
next
  case False
  then have "snd (poll_cmds timed_out c cs) = cs"
    by (auto simp: poll_cmds_def split: option.split)
  with assms show ?thesis by auto
qed

lemma covers_poll:
  assumes "poll_cmds timed_out c (srv_clients s) = (rs, cs)"
  shows "covers s (on_clients (\<lambda>_. cs) s)"
  using poll_cmd_origin [of timed_out c "srv_clients s"] assms by (intro covers_heap) auto

interpretation client_cmds: client_property "covers s0" cf for s0 cf
proof unfold_locales
  fix s c rs cs timed_out
  assume "covers s0 s" "poll_cmds timed_out c (srv_clients s) = (rs, cs)"
  then show "covers s0 (on_clients (\<lambda>_. cs) s)" using covers_trans covers_poll by blast
next
  fix s d m assume "covers s0 s"
  moreover have "covers s (on_clients (upd_cmd d (append_logs m)) s)"
    by (rule covers_heap) (auto simp: append_logs_def same_origin_def split: if_splits)
  ultimately show "covers s0 (on_clients (upd_cmd d (append_logs m)) s)" by (rule covers_trans)
next
  fix s d st assume "covers s0 s"
  moreover have "covers s (set_cmd_state d st s)"
    by (rule covers_heap) (auto simp: same_origin_def split: if_splits)
  ultimately show "covers s0 (set_cmd_state d st s)" by (rule covers_trans)
next
  fix s i er assume "covers s0 s"
  moreover have "cmds_of (start_tasks [TNext er] s) = cmds_of s"
    by (simp add: cmds_of_def queued_cmds_def started_cmds_def filed_cmds_def)
  ultimately show "covers s0 (start_tasks [TNext er] s)" by (simp add: covers_def)
qed (auto intro: covers_cong)

section \<open>What a request grants\<close>

text \<open>
  The request was started, its template asks for no more votes than it has, and the command is
  the template's, for a client that the request names.
\<close>

definition grants :: "template_store \<Rightarrow> consensus_request \<Rightarrow> cmd \<Rightarrow> bool" where
  "grants ts c d \<longleftrightarrow>
     (\<exists>t. gm_get (ts_Templates ts) (cr_TemplateId c) = Some t \<and>
        unat (acl_MinAuth (tmpl_Acl t)) \<le> bal_votes (ballot_of c) \<and> cr_Executed c \<and>
        cmd_ConsensusRequestId d = cr_Id c \<and> cmd_TemplateId d = tmpl_Id t \<and>
        cmd_Command d = tmpl_Command t \<and> cmd_Timeout d = timeout_or_default (tmpl_Timeout t) \<and> cmd_ClientId d \<in> set (cr_ClientIds c))"

definition executed :: "server \<Rightarrow> ref \<Rightarrow> bool" where
  "executed s r \<longleftrightarrow> (\<exists>c. get_request s r = Some c \<and> cr_Executed c)"

text \<open>A step that starts a request, and a command that this grants.\<close>

definition authorised :: "server \<Rightarrow> server \<Rightarrow> cmd \<Rightarrow> bool" where
  "authorised s s' d \<longleftrightarrow>
     (\<exists>r c. get_request s' r = Some c \<and> \<not> executed s r \<and> grants (srv_templateStore s) c d)"

definition accounted :: "server \<Rightarrow> server \<Rightarrow> bool" where
  "accounted s s' \<longleftrightarrow>
     (\<forall>d \<in> cmds_of s'. (\<exists>c \<in> cmds_of s. same_origin c d) \<or> authorised s s' d)"

lemma accounted_covers: "covers s s' \<Longrightarrow> accounted s s'"
  by (auto simp: accounted_def covers_def)

lemma accounted_refl [simp]: "accounted s s"
  by (simp add: accounted_covers)

text \<open>The machine comparison never lets a request pass with too few votes, even if the count wrapped around.\<close>

lemma enough_votes:
  assumes "\<not> (of_nat n :: 64 word) < m"
  shows "unat m \<le> n"
proof -
  have "unat m \<le> unat (of_nat n :: 64 word)" using assms by (simp add: not_less word_le_nat_alt)
  also have "\<dots> \<le> n" by (simp add: unat_of_nat take_bit_nat_less_eq_self)
  finally show ?thesis .
qed

lemma cmds_of_Next: "cmds_of (snd (Next er s)) \<subseteq> cmds_of s"
proof (cases "get_entry s er")
  case None
  then show ?thesis by (simp add: Next_def)
next
  case (Some ece)
  have cb: "cmds_of (snd (ExecuteCallbacks e s)) \<subseteq> cmds_of s" for e
    by (auto simp: ExecuteCallbacks_def cmds_of_def queued_cmds_def started_cmds_def filed_cmds_def
        split: option.split)
  from Some show ?thesis
  proof (cases rule: Next_cases)
    case (started n)
    let ?new = "upd_entry er (\<lambda>e. e\<lparr>ece_cmds := take (length (ece_cmds ece) - nat n) (ece_cmds ece),
        ece_iteration := ece_iteration ece + 1\<rparr>) s"
    let ?ts = "submit_tasks er (take (nat n) (rev (ece_cmds ece)))"
    have in_entry: "pc_Cmd p \<in> queued_cmds s" if "p \<in> set (ece_cmds ece)" for p
      using that Some by (auto simp: queued_cmds_def)
    have "queued_cmds (start_tasks ?ts ?new) \<subseteq> queued_cmds s"
      using in_entry Some by (fastforce simp: queued_cmds_def dest: in_set_takeD split: if_splits)
    moreover have "started_cmds (start_tasks ?ts ?new) \<subseteq> started_cmds s \<union> queued_cmds s"
      using in_entry by (auto simp: started_cmds_def submit_tasks_def dest!: in_set_takeD)
    moreover have "filed_cmds (start_tasks ?ts ?new) = filed_cmds s" by (simp add: filed_cmds_def)
    ultimately show ?thesis unfolding started(5) cmds_of_def by auto
  qed (simp_all add: cb)
qed

lemma queued_Coordinator_Add:
  "cmds_of (Coordinator_Add i st ps s) \<subseteq> cmds_of s \<union> pc_Cmd ` set ps"
proof -
  have "queued_cmds (Coordinator_Add i st ps s) \<subseteq> queued_cmds s \<union> pc_Cmd ` set ps"
    by (auto simp: queued_cmds_def Coordinator_Add_def Let_def split: if_splits)
  moreover have "started_cmds (Coordinator_Add i st ps s) = started_cmds s"
    "filed_cmds (Coordinator_Add i st ps s) = filed_cmds s"
    by (simp_all add: started_cmds_def filed_cmds_def)
  ultimately show ?thesis by (auto simp: cmds_of_def)
qed

text \<open>The commands that \<open>Execute\<close> adds: assembled from the template, for registered clients of the request.\<close>

lemma cmds_of_Execute:
  assumes "client_store_ok (srv_clients s)" "get_request s crr = Some c"
    "d \<in> cmds_of (snd (Execute e st crr s))"
  shows "d \<in> cmds_of s \<or>
    (\<exists>t. request_template s c = Some t \<and> cmd_ConsensusRequestId d = cr_Id c \<and> cmd_TemplateId d = tmpl_Id t \<and>
       cmd_Command d = tmpl_Command t \<and> cmd_Timeout d = timeout_or_default (tmpl_Timeout t) \<and> cmd_ClientId d \<in> set (cr_ClientIds c))"
  using assms(2)
proof (cases rule: Execute_cases [where e = e and strategy = st])
  case (runs ps)
  then have "d \<in> cmds_of s \<union> pc_Cmd ` set ps"
    using assms(3) cmds_of_Next queued_Coordinator_Add by (metis (no_types, lifting) subset_iff)
  then consider "d \<in> cmds_of s" | p where "p \<in> set ps" "d = pc_Cmd p" by auto
  then show ?thesis
  proof cases
    case 2
    from runs(1) 2(1) show ?thesis
    proof (rule assemble_cmds_cases)
      fix j tmpl cl cid
      assume a: "request_template s c = Some tmpl" "cid \<in> set (cr_ClientIds c)"
        "GetClient (srv_clients s) cid = Some (pc_Client p)"
        "get_client (srv_clients s) (pc_Client p) = Some cl" "pc_Cmd p = assemble_cmd e j tmpl c cl"
      have "rc_ClientId cl = cid"
        using client_store_okD(2) [OF assms(1) gm_get_in] a(3,4) by (fastforce simp: GetClient_def)
      with a 2(2) show ?thesis by simp
    qed
  qed simp
qed (use assms(3) in simp)

lemma cmds_of_upd_request [simp]: "cmds_of (upd_request r f s) = cmds_of s"
  by (rule cmds_of_cong) simp_all

text \<open>The central lemma: what a check can add, it grants.\<close>

lemma check_accounts:
  assumes "client_store_ok (srv_clients s)" "get_request s crr = Some c" "request_ok c"
    "d \<in> cmds_of (snd (Request_check e crr s))"
  shows "d \<in> cmds_of s \<or>
    (\<not> cr_Executed c \<and> (\<exists>c'. get_request (snd (Request_check e crr s)) crr = Some c' \<and>
       grants (srv_templateStore s) c' d))"
proof (cases "check_passes s c")
  case False
  then show ?thesis using check_fails [OF assms(2)] assms(4) by simp
next
  case True
  note starts = check_starts [OF assms(2) True]
  from start_request [OF assms(2) starts(2), of e] obtain c' where
    c': "get_request (snd (Request_start e crr s)) crr = Some c'" "started_from c c'" by blast
  from assms(2) starts(2) show ?thesis
  proof (rule start_runs [where e = e])
    fix st t r
    assume t: "request_template s c = Some t" and r: "Execute e st crr (starting e crr s) = r"
      and eq: "Request_start e crr s = (case r of (Inl p, u) \<Rightarrow> (Inl p, u)
        | (Inr _, u) \<Rightarrow> (Inr True, upd_request crr (\<lambda>c. c\<lparr>cr_CompleteTime := unix (env_now e)\<rparr>) u))"
    let ?c = "c\<lparr>cr_Executed := True, cr_StartTime := unix (env_now e)\<rparr>"
    have "d \<in> cmds_of (snd r)"
      using assms(4) unfolding starts(1) eq by (cases r; cases "fst r") simp_all
    then have "d \<in> cmds_of s \<or> (\<exists>t. request_template s c = Some t \<and>
        cmd_ConsensusRequestId d = cr_Id c \<and> cmd_TemplateId d = tmpl_Id t \<and>
        cmd_Command d = tmpl_Command t \<and> cmd_Timeout d = timeout_or_default (tmpl_Timeout t) \<and> cmd_ClientId d \<in> set (cr_ClientIds c))"
      using cmds_of_Execute [of "starting e crr s" crr ?c d e st] assms(1,2) r
      by (simp add: starting_def request_template_def)
    moreover have "unat (acl_MinAuth (tmpl_Acl t)) \<le> bal_votes (ballot_of c')"
    proof -
      have "unat (acl_MinAuth (tmpl_Acl t)) \<le> voteCount c"
        using True t by (intro enough_votes) (simp add: check_passes_def)
      also have "\<dots> = bal_votes (ballot_of c')"
        by (simp add: voteCount_ballot [OF assms(3)] started_ballot [OF c'(2)] bal_votes_def)
      finally show ?thesis .
    qed
    ultimately show ?thesis
      using t c' by (auto simp: starts(1) grants_def request_template_def started_from_fields [OF c'(2)])
  qed
qed

section \<open>Every step accounts for its commands\<close>

text \<open>The states between the head of a handler and its check: same commands, same templates.\<close>

definition prelude_of :: "server \<Rightarrow> server \<Rightarrow> bool" where
  "prelude_of s t \<longleftrightarrow>
     cmds_of t = cmds_of s \<and> srv_templateStore t = srv_templateStore s \<and> (\<forall>r. executed s r \<longrightarrow> executed t r)"

lemma accounted_check:
  assumes "prelude_of s t" "server_ok t"
  shows "accounted s (snd (Request_check e crr t))"
proof (cases "get_request t crr")
  case None
  then show ?thesis using assms(1) by (intro accounted_covers) (simp add: Request_check_def prelude_of_def covers_subset)
next
  case (Some c)
  have ok: "client_store_ok (srv_clients t)" "request_ok c"
    using assms(2) Some by (auto simp: server_ok_def requests_ok_def)
  have "\<not> executed s crr" if "\<not> cr_Executed c"
    using assms(1) that Some by (auto simp: prelude_of_def executed_def)
  then show ?thesis
    using check_accounts [OF ok(1) Some ok(2)] assms(1)
    unfolding accounted_def prelude_of_def authorised_def by (metis same_origin_refl)
qed

lemma get_request_save [simp]: "get_request (consensus_save e s) r = get_request s r"
  by (simp add: consensus_save_def Let_def)

lemma consensus_save_simps [simp]:
  "srv_clients (consensus_save e s) = srv_clients s" "srv_userStore (consensus_save e s) = srv_userStore s"
  "srv_templateStore (consensus_save e s) = srv_templateStore s"
  "srv_executionCoordinator (consensus_save e s) = srv_executionCoordinator s"
  "srv_httpCheckStore (consensus_save e s) = srv_httpCheckStore s"
  "srv_tasks (consensus_save e s) = srv_tasks s" "srv_done (consensus_save e s) = srv_done s" "srv_audit (consensus_save e s) = srv_audit s"
  "srv_notifications (consensus_save e s) = srv_notifications s"
  "con_heap (srv_consensus (consensus_save e s)) = con_heap (srv_consensus s)"
  by (simp_all add: consensus_save_def Let_def)

lemma accounted_save:
  assumes "accounted s t"
  shows "accounted s (consensus_save e t)"
proof -
  have "cmds_of (consensus_save e t) = cmds_of t" by (rule cmds_of_cong) simp_all
  with assms show ?thesis by (simp add: accounted_def authorised_def)
qed

lemma prelude_of_touch: "prelude_of s (touch e r i s)"
  using cmds_of_cong [of "touch e r i s" s] by (simp add: prelude_of_def executed_def)

lemma prelude_of_vote: "prelude_of s t \<Longrightarrow> prelude_of s (vote user crr t)"
  by (auto simp: prelude_of_def executed_def vote_def)

lemma prelude_of_callback: "prelude_of s t \<Longrightarrow> prelude_of s (Request_AddCallback cb crr t)"
  by (auto simp: prelude_of_def executed_def Request_AddCallback_def)

lemma prelude_of_channel: "prelude_of s t \<Longrightarrow> prelude_of s (t\<lparr>srv_done := d\<rparr>)"
  using cmds_of_cong [of "t\<lparr>srv_done := d\<rparr>" t] by (simp add: prelude_of_def executed_def)

lemma prelude_of_request:
  assumes "prelude_of s t" "AddRequest cf e tid cids user reason t = (v, u)"
  shows "prelude_of s u"
  using assms(2)
proof (cases rule: AddRequest_cases)
  case (filed msg)
  have "cmds_of u = cmds_of t" by (rule cmds_of_cong) (simp_all add: filed)
  moreover have "executed u r" if "executed t r" for r
    using that h_get_Some_less [of "con_heap (srv_consensus t)" r] by (auto simp: executed_def filed)
  ultimately show ?thesis using assms(1) by (simp add: prelude_of_def filed)
qed (use assms in simp)

lemma accounted_Approve:
  assumes "prelude_of s t" "server_ok t"
  shows "accounted s (snd (Request_Approve e user crr t))"
proof (cases "get_request t crr")
  case None
  then show ?thesis using assms(1) by (intro accounted_covers) (simp add: Request_Approve_def prelude_of_def covers_subset)
next
  case (Some c)
  show ?thesis
  proof (cases "may_vote user c")
    case True
    have "server_ok (vote user crr t)"
    proof -
      have "requests_ok (srv_consensus (vote user crr t))"
        unfolding vote_def audit_request_simps using server_okD(5) [OF assms(2)] Some True
        by (intro requests_ok_upd) (auto simp: requests_ok_def may_vote_def intro!: request_ok_vote)
      moreover have "links_ok (vote user crr t)"
        unfolding vote_def links_ok_audit by (rule links_ok_upd_request [OF server_okD(6) [OF assms(2)]]) simp
      ultimately show ?thesis using assms(2) by (simp add: server_ok_def vote_def)
    qed
    then show ?thesis
      using accounted_check [OF prelude_of_vote [OF assms(1)]] True by (simp add: Approve_snd [OF Some])
  next
    case False
    then show ?thesis using assms(1)
      by (intro accounted_covers) (simp add: Approve_snd [OF Some] prelude_of_def covers_subset)
  qed
qed

lemma accounted_prelude: "prelude_of s t \<Longrightarrow> accounted s t"
  by (intro accounted_covers covers_subset) (simp add: prelude_of_def)

lemma as_user_accounted:
  assumes "server_ok s"
    "\<And>i u. server_ok (touch e r i s) \<Longrightarrow> prelude_of s (touch e r i s) \<Longrightarrow>
      accounted s (snd (body i (TouchSession (env_now e) (rq_RemoteAddr r) u) (touch e r i s)))"
  shows "accounted s (snd (as_user e r msg body s))"
proof (cases rule: as_user_cases [of e r s])
  case refused
  then show ?thesis by (simp add: accounted_covers)
next
  case (admitted i u)
  then show ?thesis using assms(2) server_ok_touch [OF assms(1)] prelude_of_touch by simp
qed

lemma accounted_results:
  "Request_check e crr t = (res, u) \<Longrightarrow> prelude_of s t \<Longrightarrow> server_ok t \<Longrightarrow> accounted s u"
  "Request_Approve e user crr t = (res, u) \<Longrightarrow> prelude_of s t \<Longrightarrow> server_ok t \<Longrightarrow> accounted s u"
  by (metis accounted_check snd_conv, metis accounted_Approve snd_conv)

lemma accounted_PostConsensusApprove:
  assumes "server_ok s"
  shows "accounted s (snd (PostConsensusApprove e r s))"
  unfolding PostConsensusApprove_def
  by (rule as_user_accounted [OF assms])
    (auto simp: Let_def split: option.split prod.split sum.split
      intro: accounted_prelude accounted_save accounted_results(2))

text \<open>A request that is filed and checked at once.\<close>

lemma accounted_filed:
  assumes "prelude_of s t" "server_ok t" "AddRequest cf e tid cids user reason t = (Some cr, u)"
  shows "Request_check e cr (Request_AddCallback FinishedNotification cr u) = (res, v) \<Longrightarrow> accounted s v"
    "Request_check e cr (Request_AddCallback (HttpCheckDone (length (srv_done u))) cr
       (u\<lparr>srv_done := srv_done u @ [0]\<rparr>)) = (res, v) \<Longrightarrow> accounted s v"
proof -
  note u = prelude_of_request [OF assms(1,3)] server_ok_AddRequest [OF assms(2,3)]
  assume "Request_check e cr (Request_AddCallback FinishedNotification cr u) = (res, v)"
  then show "accounted s v"
    by (rule accounted_results(1)) (auto intro!: prelude_of_callback server_ok_callback u simp: callback_valid_def)
next
  note u = prelude_of_request [OF assms(1,3)] server_ok_AddRequest [OF assms(2,3)]
  let ?u = "u\<lparr>srv_done := srv_done u @ [0]\<rparr>"
  have ok: "server_ok ?u" by (rule server_ok_same_clients [OF u(2)]) simp_all
  assume "Request_check e cr (Request_AddCallback (HttpCheckDone (length (srv_done u))) cr ?u) = (res, v)"
  then show "accounted s v"
    by (rule accounted_results(1))
      (auto intro!: prelude_of_callback server_ok_callback prelude_of_channel u ok simp: callback_valid_def)
qed

lemma accounted_PostConsensusRequest:
  assumes "server_ok s"
  shows "accounted s (snd (PostConsensusRequest x cf e r s))"
  unfolding PostConsensusRequest_def
  by (rule as_user_accounted [OF assms])
    (auto simp: Let_def split: option.split prod.split sum.split
      intro: accounted_prelude accounted_save prelude_of_request accounted_filed(1))

lemma accounted_check_start:
  assumes "server_ok s" "GetHttpCheck_start cf e r s = (res, s')"
  shows "accounted s s'"
proof -
  have self: "prelude_of s s" by (simp add: prelude_of_def)
  from assms(2) show ?thesis
    unfolding GetHttpCheck_start_def
    by (auto simp: Let_def split: option.splits prod.splits sum.splits if_splits
        intro: accounted_refl accounted_prelude [OF prelude_of_request [OF self]]
          accounted_filed(2) [OF self assms(1)])
qed

lemma delete_child_cmds_cmds [simp]: "cs_cmds (delete_child_cmds i s) = cs_cmds s"
proof -
  let ?f = "\<lambda>s (_ :: string, r). upd_client r (\<lambda>c. c\<lparr>rc_DispatchedCmds :=
        filter (\<lambda>(_, d). \<not> cmd_of_request s i d) (rc_DispatchedCmds c)\<rparr>) s"
  have "cs_cmds (foldl ?f s m) = cs_cmds s" for m by (induction m arbitrary: s) auto
  then show ?thesis by (simp add: delete_child_cmds_def)
qed

lemma cmds_of_Delete [simp]: "cmds_of (snd (Request_Delete crr s)) = cmds_of s"
  by (rule cmds_of_cong) (simp_all add: Request_Delete_def Let_def split: option.split)

lemma covers_DeleteConsensusRequest: "covers s (snd (DeleteConsensusRequest e r s))"
proof -
  have del: "cmds_of u = cmds_of t" if "Request_Delete crr t = (res, u)" for crr t u res
    using cmds_of_Delete [of crr t] that by simp
  have save: "cmds_of (consensus_save e t) = cmds_of t" for t by (rule cmds_of_cong) simp_all
  have "cmds_of (snd (DeleteConsensusRequest e r s)) = cmds_of s"
  proof (cases rule: as_user_cases [of e r s])
    case refused
    then show ?thesis by (simp add: DeleteConsensusRequest_def)
  next
    case (admitted i u)
    have "cmds_of (touch e r i s) = cmds_of s" by (rule cmds_of_cong) simp_all
    then show ?thesis
      by (auto simp: DeleteConsensusRequest_def admitted(4) Let_def Request_Cancel_def save
          split: option.split prod.split sum.split dest!: del)
  qed
  then show ?thesis by (intro covers_subset) simp
qed

lemma accounted_serve:
  assumes "server_ok s"
  shows "accounted s (snd (serve x cf ldap e route r s))"
proof -
  note admin = admin_cmds.admin_handlers_ok [OF covers_refl] admin_cmds.reads_ok [OF covers_refl]
  note client = client_cmds.client_handlers_ok [OF covers_refl]
  note mine = accounted_PostConsensusApprove [OF assms] accounted_PostConsensusRequest [OF assms]
  show ?thesis
    by (cases route)
      (simp_all add: mine
        accounted_covers admin client covers_DeleteConsensusRequest Ping_def)
qed

lemma covers_goroutine:
  assumes "srv_tasks s = ts @ task # us" "run_task cf task (s\<lparr>srv_tasks := ts @ us\<rparr>) = Some (res, s')"
  shows "covers s s'"
proof -
  let ?s = "s\<lparr>srv_tasks := ts @ us\<rparr>"
  have "started_cmds ?s \<subseteq> started_cmds s" using assms(1) by (auto simp: started_cmds_def)
  then have less: "cmds_of ?s \<subseteq> cmds_of s"
    by (auto simp: cmds_of_def queued_cmds_def filed_cmds_def)
  show ?thesis
  proof (cases task)
    case (TNext er)
    then have "s' = snd (Next er ?s)" using assms(2) by (simp add: run_task_def)
    with less show ?thesis using cmds_of_Next [of er ?s] by (intro covers_subset) auto
  next
    case (TCallback cb r)
    then have "run_callback cf cb r ?s = Some (res, s')" using assms(2) by (simp add: run_task_def)
    then have "cmds_of s' = cmds_of ?s"
      by (intro cmds_of_cong) (auto simp: run_callback_def split: callback.splits option.splits if_splits)
    with less show ?thesis by (intro covers_subset) simp
  next
    case (TSubmit c cmd er)
    then have s': "s' = snd (run_submit c cmd er ?s)" using assms(2) by (simp add: run_task_def)
    have cmd: "cmd \<in> cmds_of s" using assms(1) TSubmit by (auto simp: cmds_of_def started_cmds_def)
    have "\<exists>c \<in> cmds_of s. same_origin c d" if d: "d \<in> cmds_of s'" for d
    proof -
      have "d \<in> cmds_of ?s \<or> same_origin cmd d"
        using d unfolding s' run_submit_def
        by (auto simp: Let_def Submit_def cmds_of_def queued_cmds_def started_cmds_def filed_cmds_def same_origin_def
            split: option.splits if_splits)
      with less cmd show ?thesis by (meson same_origin_refl subset_iff)
    qed
    then show ?thesis by (simp add: covers_def)
  qed
qed

lemma covers_select:
  assumes "GetHttpCheck_select timed_out cr ch s = Some (res, s')"
  shows "covers s s'"
proof -
  let ?s = "s\<lparr>srv_done := h_upd ch (\<lambda>k. k - 1) (srv_done s)\<rparr>"
  have "s' = s \<or> s' = snd (Request_Delete cr ?s)"
    using assms unfolding GetHttpCheck_select_def
    by (auto simp: Let_def split: option.splits prod.splits sum.splits if_splits)
  moreover have "cmds_of ?s = cmds_of s" by (rule cmds_of_cong) simp_all
  ultimately show ?thesis by (auto intro: covers_subset)
qed

lemma accounted_step:
  assumes "server_step x cf ldap s s'" "server_ok s"
  shows "accounted s s'"
  using assms(1)
proof (cases rule: server_step.cases)
  case (request e route r res)
  then show ?thesis using accounted_serve [OF assms(2), of x cf ldap e route r] by simp
next
  case (check_start e r res)
  then show ?thesis using accounted_check_start [OF assms(2)] by blast
next
  case (check_select timed_out cr ch res)
  then show ?thesis using covers_select accounted_covers by blast
next
  case (goroutine ts t us)
  then show ?thesis using covers_goroutine accounted_covers by blast
next
  case (cleanup now)
  then show ?thesis by (auto simp: CleanupClients_def intro!: accounted_covers covers_cong [OF covers_refl])
next
  case (history now c)
  have "cs_cmds (snd (GetDispatchedCmds now c t)) = cs_cmds t" for t
    by (simp add: GetDispatchedCmds_def Let_def split: option.split)
  with history show ?thesis by (auto intro!: accounted_covers covers_cong [OF covers_refl])
next
  case notifications
  then show ?thesis by (auto intro!: accounted_covers covers_cong [OF covers_refl])
qed

text \<open>Along a run: every command was granted by a step of the run.\<close>

lemma authorised_origin:
  assumes "authorised s s' c" "same_origin c d"
  shows "authorised s s' d"
  using assms unfolding authorised_def grants_def same_origin_def by metis

lemma run_accounts:
  assumes "server_steps x cf ldap s s'" "server_ok s" "ldap_ok ldap" "cmds_of s = {}" "d \<in> cmds_of s'"
  shows "\<exists>t u. server_steps x cf ldap s t \<and> server_step x cf ldap t u \<and> server_steps x cf ldap u s' \<and>
    authorised t u d"
  using assms(1,5)
proof (induction arbitrary: d rule: rtranclp_induct)
  case base
  then show ?case using assms(4) by simp
next
  case (step t u)
  have "server_ok t"
    using server_property.steps_ok [OF server_ok_property [OF assms(3)] step.hyps(1) assms(2)] .
  from accounted_step [OF step.hyps(2) this] step.prems
  consider c where "c \<in> cmds_of t" "same_origin c d" | "authorised t u d"
    unfolding accounted_def by blast
  then show ?case
  proof cases
    case 1
    from step.IH [OF 1(1)] obtain t' u' where
      "server_steps x cf ldap s t'" "server_step x cf ldap t' u'" "server_steps x cf ldap u' t" "authorised t' u' c"
      by blast
    then show ?thesis using authorised_origin 1(2) step.hyps(2) rtranclp.rtrancl_into_rtrancl by metis
  next
    case 2
    then show ?thesis using step.hyps by blast
  qed
qed

end
