(* ===== verification/Server_Theorems.thy ===== *)
theory Server_Theorems
imports Authorisation
begin

text \<open>
  The properties of the whole server that rest on its invariant: every reachable state is
  well-formed, a restart ends in a well-formed state, and which panics can happen.
\<close>

section \<open>The sample server satisfies the invariant\<close>

lemma sample_server_ok: "server_ok sample_server"
proof -
  have clients: "client_store_ok (srv_clients sample_server)"
    by (auto simp: client_store_ok_def gm_ok_def h_get_def sample_client_def newRegisteredClient_def
        client_ok_def cmd_map_ok_def pending_refs_def)
  have template: "sane_template sample_template"
    by (simp add: sane_template_def sample_template_def known_strategy_def strategy_defs)
  have "templates_ok (srv_templateStore sample_server)"
    using template by (simp add: templates_ok_def template_map_ok_def template_store_ok_def titles_unique_def gm_ok_def)
      (simp add: sample_template_def)
  moreover have "checks_ok (srv_httpCheckStore sample_server)"
    by (simp add: checks_ok_def http_check_store_ok_def gm_ok_def sample_check_def)
  moreover have "links_ok sample_server"
    by (simp add: links_ok_def entries_ok_def tasks_ok_def callbacks_ok_def Coordinator_Get_def)
  ultimately show ?thesis
    using clients by (simp add: server_ok_def user_store_ok_def names_distinct_def requests_ok_def pending_ok_def)
qed

text \<open>The sample http check, started: one request, executed at once, its command handed to a goroutine.\<close>

abbreviation check_server :: server where
  "check_server \<equiv> snd (GetHttpCheck_start sample_conf sample_env sample_request sample_server)"

lemma check_server_step: "server_step sample_ext sample_conf None sample_server check_server"
  by (rule server_step.check_start [where e = sample_env and r = sample_request]) (rule surjective_pairing)



lemma template_map_ok_load: "templates_ok s \<Longrightarrow> templates_ok (newTemplateStore (ts_file s))"
  by (cases "ts_file s") (auto simp: templates_ok_def newTemplateStore_def templates_load_def template_map_ok_def
      titles_unique_def Let_def)

lemma checks_ok_load: "checks_ok s \<Longrightarrow> checks_ok (newHttpCheckStore i (hs_file s))"
  by (cases "hs_file s") (auto simp: checks_ok_def newHttpCheckStore_def http_checks_load_def http_check_store_ok_def Let_def)

lemma requests_ok_load:
  assumes "requests_ok c"
  shows "requests_ok (newConsensus (con_file c))"
proof (cases "con_file c")
  case (Json m)
  then have m: "request_map_ok m" using assms by (simp add: requests_ok_def)
  have get: "h_get (map snd m) r = map_option snd (h_get m r)" for r by (simp add: h_get_def)
  have "\<exists>q. h_get (map snd m) r = Some q \<and> cr_Id q = k" if "(k, r) \<in> set (zip (map fst m) [0..<length m])" for k r
  proof -
    from that have "r < length m" "k = fst (m ! r)" by (auto simp: set_zip)
    moreover from this have "(fst (m ! r), snd (m ! r)) \<in> set m" by simp
    ultimately show ?thesis using m unfolding request_map_ok_def by (fastforce simp: h_get_def)
  qed
  moreover have "gm_ok (zip (map fst m) [0..<length m])" using m by (simp add: request_map_ok_def gm_ok_def)
  moreover have "request_ok q" if "h_get (map snd m) r = Some q" for r q
    using m h_get_in_set [OF that] by (auto simp: request_map_ok_def)
  ultimately show ?thesis
    using m by (auto simp: newConsensus_def consensus_load_def Json requests_ok_def pending_ok_def)
qed (simp_all add: newConsensus_def consensus_load_def requests_ok_def pending_ok_def)

lemma load_callbacks:
  assumes "requests_ok c" "h_get (con_heap (newConsensus (con_file c))) r = Some q"
  shows "cr_Callbacks q = []"
proof (cases "con_file c")
  case (Json m)
  with assms(2) have "q \<in> snd ` set m"
    by (auto simp: newConsensus_def consensus_load_def dest: h_get_in_set)
  then show ?thesis using assms(1) Json by (auto simp: requests_ok_def request_map_ok_def)
qed (use assms in \<open>simp_all add: newConsensus_def consensus_load_def\<close>)

text \<open>
  C37: A start from the files that a running server has written ends in a well-formed state
  again, with no command in the server's hands.
\<close>

theorem restart_ok:
  assumes "server_ok s"
    "start_server x e (us_file (srv_userStore s)) (ts_file (srv_templateStore s)) (con_file (srv_consensus s))
      (hs_file (srv_httpCheckStore s)) = Some s'"
  shows "server_ok s' \<and> cmds_of s' = {}"
proof -
  from assms(2) obtain us where us: "newUserStore x e (us_file (srv_userStore s)) = Some us"
    and s': "srv_clients s' = \<lparr>cs_clients = [], cs_Tags = [], cs_heap = [], cs_cmds = []\<rparr>"
      "srv_userStore s' = us" "srv_templateStore s' = newTemplateStore (ts_file (srv_templateStore s))"
      "srv_consensus s' = newConsensus (con_file (srv_consensus s))"
      "srv_executionCoordinator s' = \<lparr>ec_Active = [], ec_heap = []\<rparr>"
      "srv_httpCheckStore s' = newHttpCheckStore (env_uuid e 1) (hs_file (srv_httpCheckStore s))"
      "srv_tasks s' = []" "srv_done s' = []"
    by (auto simp: start_server_def split: option.splits)
  have "user_store_ok (users_load \<lparr>us_Users = [], us_file = us_file (srv_userStore s)\<rparr>)"
    by (rule user_store_ok_load) (use server_okD(2) [OF assms(1)] in \<open>simp add: user_store_ok_def names_distinct_def\<close>)
  then have "user_store_ok us" using us unfolding newUserStore_def by (rule prepareDefaultUser_ok)
  moreover have "cr_Callbacks q = []" if "h_get (con_heap (newConsensus (con_file (srv_consensus s)))) r = Some q" for r q
    using that server_okD(5) [OF assms(1)] by (rule load_callbacks [rotated])
  ultimately show ?thesis
    using server_okD(3-5) [OF assms(1)] template_map_ok_load checks_ok_load requests_ok_load
    by (simp add: server_ok_def s' links_ok_def entries_ok_def tasks_ok_def Coordinator_Get_def callbacks_ok_def
        cmds_of_def queued_cmds_def started_cmds_def filed_cmds_def)
qed

lemma sample_user_store: "newUserStore sample_ext sample_env NoFile \<noteq> None"
proof -
  have trim: "TrimSpace ''admin'' = ''admin''" by code_simp
  show ?thesis
    by (simp add: newUserStore_def users_load_def prepareDefaultUser_def CreateUser_def HashPassword_def
        sample_ext_def created_user_def trim ByName_def Let_def newUser_def)
qed

theorem restart_ok_witness:
  "\<exists>s'. start_server sample_ext sample_env NoFile NoFile NoFile NoFile = Some s' \<and> server_ok s' \<and> cmds_of s' = {}"
proof -
  from sample_user_store obtain s' where "start_server sample_ext sample_env NoFile NoFile NoFile NoFile = Some s'"
    by (auto simp: start_server_def)
  with restart_ok [OF sample_server_ok, of sample_ext sample_env s'] show ?thesis by simp
qed

text \<open>
  C26: A goroutine panics, and so ends the server, in exactly one situation: a call of \<open>Next\<close> for
  an entry that has nothing left to start and nothing outstanding, whose request is no longer
  pending. No index is out of range, no strategy unsupported, no other pointer nil.
\<close>

theorem goroutine_panics_iff:
  assumes "server_ok s" "t \<in> set (srv_tasks s)" "run_task cf t s = Some (res, s')"
  shows "(isl res \<longleftrightarrow> (\<exists>er. t = TNext er \<and> orphaned s er)) \<and> (\<forall>p. res = Inl p \<longrightarrow> p = NilDeref)"
  using run_task_result [OF assms] by (simp split: if_splits)

text \<open>The server with the started http check: its one task is the submission of the command.\<close>

lemma check_server_ok: "server_ok check_server"
  using running.step_ok [OF check_server_step sample_server_ok] .

text \<open>All that the handler of the sample check runs through.\<close>

lemmas check_server_defs =
  GetHttpCheck_start_def HttpCheckStore_Get_def value_of_def sample_request_def sample_check_def
  AddRequest_def Let_def HasRole_def AddRole_def newUser_def gm_true_def sample_env_def newConsensusRequest_def
  Request_AddCallback_def Request_check_def request_template_def sample_template_def voteCount_def
  Request_start_def GetExecutionStrategy_def Execute_def GetClient_def h_get_def upd_request_def
  Coordinator_Add_def Coordinator_Get_def Next_def allFinished_def sample_client_def newRegisteredClient_def
  cmdsToStart_def strategy_defs start_tasks_def upd_entry_def h_upd_def notify_def

lemma check_server_tasks: "\<exists>cmd. srv_tasks check_server = [TSubmit 0 cmd 0] \<and> cmd_Command cmd = ''uptime'' \<and>
    cmd_ConsensusRequestId cmd = ''id'' \<and> cmd_ClientId cmd = ''c1'' \<and> cmd_TemplateId cmd = ''t1''"
  by (simp add: check_server_defs)

theorem goroutine_panics_iff_witness:
  "\<exists>cmd res s'. TSubmit 0 cmd 0 \<in> set (srv_tasks check_server) \<and>
     run_task sample_conf (TSubmit 0 cmd 0) check_server = Some (res, s') \<and> \<not> isl res"
proof -
  obtain cmd where cmd: "srv_tasks check_server = [TSubmit 0 cmd 0]" using check_server_tasks by blast
  then have t: "TSubmit 0 cmd 0 \<in> set (srv_tasks check_server)" by simp
  obtain res s' where run: "run_task sample_conf (TSubmit 0 cmd 0) check_server = Some (res, s')"
    by (cases "run_submit 0 cmd 0 check_server") (simp add: run_task_def)
  from goroutine_panics_iff [OF check_server_ok t run] have "\<not> isl res" by simp
  with t run show ?thesis by blast
qed

text \<open>Deleting a request removes entries of the dispatch maps, nothing else.\<close>

definition less_dispatched :: "client_store \<Rightarrow> client_store \<Rightarrow> bool" where
  "less_dispatched s s' \<longleftrightarrow> cs_clients s' = cs_clients s \<and>
     (\<forall>r c'. get_client s' r = Some c' \<longrightarrow>
        (\<exists>c. get_client s r = Some c \<and> rc_Cmds c' = rc_Cmds c \<and> rc_CmdChan c' = rc_CmdChan c \<and>
           rc_AuthToken c' = rc_AuthToken c \<and> set (rc_DispatchedCmds c') \<subseteq> set (rc_DispatchedCmds c)))"

lemma less_dispatched_trans:
  assumes "less_dispatched s t" "less_dispatched t u"
  shows "less_dispatched s u"
  unfolding less_dispatched_def
proof (intro conjI allI impI)
  fix r c' assume "get_client u r = Some c'"
  with assms(2) obtain d where d: "get_client t r = Some d" "rc_Cmds c' = rc_Cmds d" "rc_CmdChan c' = rc_CmdChan d"
    "rc_AuthToken c' = rc_AuthToken d" "set (rc_DispatchedCmds c') \<subseteq> set (rc_DispatchedCmds d)"
    unfolding less_dispatched_def by blast
  from assms(1) d(1) obtain c where "get_client s r = Some c" "rc_Cmds d = rc_Cmds c" "rc_CmdChan d = rc_CmdChan c"
    "rc_AuthToken d = rc_AuthToken c" "set (rc_DispatchedCmds d) \<subseteq> set (rc_DispatchedCmds c)"
    unfolding less_dispatched_def by blast
  with d show "\<exists>c. get_client s r = Some c \<and> rc_Cmds c' = rc_Cmds c \<and> rc_CmdChan c' = rc_CmdChan c \<and>
      rc_AuthToken c' = rc_AuthToken c \<and> set (rc_DispatchedCmds c') \<subseteq> set (rc_DispatchedCmds c)" by auto
qed (use assms in \<open>simp add: less_dispatched_def\<close>)

lemma delete_child_cmds_clients: "less_dispatched s (delete_child_cmds i s)"
proof -
  have step: "less_dispatched s (upd_client r (\<lambda>c. c\<lparr>rc_DispatchedCmds := filter P (rc_DispatchedCmds c)\<rparr>) s)" for r P s
    by (auto simp: less_dispatched_def split: if_splits)
  have "less_dispatched s (foldl (\<lambda>s (_, r). upd_client r (\<lambda>c. c\<lparr>rc_DispatchedCmds :=
        filter (\<lambda>(_, d). \<not> cmd_of_request s i d) (rc_DispatchedCmds c)\<rparr>) s) s m)" for m :: "(string \<times> ref) list"
  proof (induction m arbitrary: s)
    case (Cons p m)
    show ?case by (cases p) (auto intro: less_dispatched_trans [OF step Cons.IH])
  qed (simp add: less_dispatched_def)
  then show ?thesis unfolding delete_child_cmds_def by blast
qed

lemma allFinished_delete:
  assumes "allFinished ece s"
  shows "allFinished ece (delete_child_cmds i s)"
  unfolding allFinished_iff
proof (clarify)
  fix k r c' j d cmd
  assume a: "(k, r) \<in> set (cs_clients (delete_child_cmds i s))" "get_client (delete_child_cmds i s) r = Some c'"
    "(j, d) \<in> set (rc_DispatchedCmds c')" "get_cmd (delete_child_cmds i s) d = Some cmd" "in_batch ece cmd"
  then obtain c where "get_client s r = Some c" "(j, d) \<in> set (rc_DispatchedCmds c)"
    using delete_child_cmds_clients [of s i] unfolding less_dispatched_def by blast
  moreover have "(k, r) \<in> set (cs_clients s)" "get_cmd s d = Some cmd"
    using a(1,4) delete_child_cmds_clients [of s i] by (simp_all add: less_dispatched_def)
  ultimately show "cmd_State cmd = ''finished''" using assms a(5) unfolding allFinished_iff by blast
qed

lemma Request_Delete_orphans:
  assumes "get_entry s er = Some ece" "ece_cmds ece = []" "allFinished ece (srv_clients s)"
    "get_request s crr = Some c" "cr_Id c = ece_Id ece"
  shows "orphaned (snd (Request_Delete crr s)) er"
  using assms allFinished_delete [OF assms(3)]
  by (simp add: orphaned_def Request_Delete_def Consensus_Get_def Let_def)

text \<open>
  The situation of the panic arises from a legal sequence: two calls of \<open>Next\<close> are waiting to
  run when the last commands of a request have finished (each report of a finished command
  starts one). The first runs the callbacks, so the waiting http check deletes the request, or
  a user cancels it; the second call then follows a nil pointer and ends the process.
\<close>

theorem second_Next_after_delete_panics:
  assumes "server_ok s" "get_entry s er = Some ece" "ece_cmds ece = []" "allFinished ece (srv_clients s)"
    "get_request s crr = Some c" "cr_Id c = ece_Id ece"
  shows "fst (Next er (snd (Request_Delete crr s))) = Inl NilDeref"
proof -
  have "requests_ok (srv_consensus (snd (Request_Delete crr s)))" "links_ok (snd (Request_Delete crr s))"
    using server_ok_consensus(3) [OF assms(1)] by (auto simp: server_ok_def)
  moreover have "er < n_entries (snd (Request_Delete crr s))"
    using assms(2,5) by (auto simp: Request_Delete_def Let_def dest: h_get_Some_less)
  ultimately show ?thesis
    using Next_result Request_Delete_orphans [OF assms(2-)] by (simp add: links_ok_def)
qed

text \<open>The sample server after its request has run: nothing queued, nothing outstanding.\<close>

definition done_server :: server where
  "done_server = sample_server
     \<lparr>srv_consensus := \<lparr>con_Pending = [(''r1'', 0)],
        con_heap = [(newConsensusRequest ''r1'' 0)\<lparr>cr_TemplateId := ''t1'', cr_Executed := True\<rparr>], con_file = NoFile\<rparr>,
      srv_executionCoordinator := \<lparr>ec_Active = [(''r1'', 0)],
        ec_heap = [\<lparr>ece_Id = ''r1'', ece_cmds = [], ece_strategy = \<lparr>es_Strategy = RollingExecutionStrategy\<rparr>,
                    ece_iteration = 1\<rparr>]\<rparr>\<rparr>"

lemma done_server_ok: "server_ok done_server"
proof -
  have h: "h_get [x] r = Some y \<longleftrightarrow> r = 0 \<and> y = x" for x y :: 'a and r by (auto simp: h_get_def)
  have "requests_ok (srv_consensus done_server)"
    by (auto simp: done_server_def requests_ok_def pending_ok_def gm_ok_def h request_ok_def newConsensusRequest_def)
  moreover have "links_ok done_server"
    by (auto simp: done_server_def links_ok_def entries_ok_def tasks_ok_def callbacks_ok_def Coordinator_Get_def h
        entry_ok_def known_strategy_def strategy_defs newConsensusRequest_def split: if_splits)
  ultimately show ?thesis using sample_server_ok by (simp add: server_ok_def done_server_def)
qed

theorem second_Next_after_delete_panics_witness:
  "fst (Next 0 (snd (Request_Delete 0 done_server))) = Inl NilDeref"
  by (rule second_Next_after_delete_panics [OF done_server_ok, where ece = "the (get_entry done_server 0)"
        and c = "the (get_request done_server 0)"])
    (simp_all add: done_server_def h_get_def allFinished_def sample_client_def newRegisteredClient_def newConsensusRequest_def)


text \<open>A report with the body null, for a command that the client has.\<close>

definition null_request :: http_request where
  "null_request = sample_request\<lparr>rq_XAuth := signedToken sample_conf ''/'',
     rq_Params := [(''clientId'', ''c1''), (''cmd'', ''z'')], rq_Body := Decoded None\<rparr>"

definition reporting_server :: server where
  "reporting_server = sample_server\<lparr>srv_clients :=
     \<lparr>cs_clients = [(''c1'', 0)], cs_Tags = [], cs_heap = [sample_client\<lparr>rc_DispatchedCmds := [(''z'', 0)]\<rparr>],
      cs_cmds = [newCmd ''z'' 0 ''uptime'' 10]\<rparr>\<rparr>"

lemma reporting_server_ok: "server_ok reporting_server"
proof -
  have h: "h_get [x] r = Some y \<longleftrightarrow> r = 0 \<and> y = x" for x y :: 'a and r by (auto simp: h_get_def)
  have "client_store_ok (srv_clients reporting_server)"
    by (auto simp: reporting_server_def client_store_ok_def gm_ok_def h sample_client_def newRegisteredClient_def
        client_ok_def cmd_map_ok_def pending_refs_def newCmd_def)
  moreover have "links_ok reporting_server"
    using server_okD(6) [OF sample_server_ok] links_ok_frame [of sample_server reporting_server]
    by (simp add: reporting_server_def)
  ultimately show ?thesis using sample_server_ok by (simp add: server_ok_def reporting_server_def)
qed


end
