(* ===== verification/Access_Theorems.thy ===== *)
theory Access_Theorems
  imports Server_Theorems
begin

text \<open>
  Who may do what: sessions, roles, logins, and the accounts that the server creates.
\<close>

text \<open>The routes that the machines use, and those open to anyone.\<close>

definition open_route :: "route \<Rightarrow> bool" where
  "open_route route \<longleftrightarrow> route = POST_auth \<or> route = GET_ping"

lemma no_session:
  assumes "session_user e r s = None"
  shows "if_authUser e r msg body s = (Inr (RError msg), s)" "as_user e r msg body' s = (Inr (RError msg), s)"
  using assms if_authUser_refused as_user_refused by (simp_all add: session_user_None)


definition stranger_request :: http_request where
  "stranger_request = sample_request\<lparr>rq_XAuthSession := ''guess''\<rparr>"


fun role_needed :: "route \<Rightarrow> string option" where
  "role_needed POST_template = Some ''admin''"
| "role_needed DELETE_template = Some ''admin''"
| "role_needed GET_users = Some ''admin''"
| "role_needed POST_user = Some ''admin''"
| "role_needed DELETE_user = Some ''admin''"
| "role_needed PUT_user = Some ''admin''"
| "role_needed GET_http_checks = Some ''admin''"
| "role_needed POST_http_check = Some ''admin''"
| "role_needed DELETE_http_check = Some ''admin''"
| "role_needed POST_consensus_request = Some ''requester''"
| "role_needed DELETE_consensus_request = Some ''requester''"
| "role_needed POST_consensus_approve = Some ''approver''"
| "role_needed _ = None"


definition clerk_server :: server where
  "clerk_server = sample_server\<lparr>srv_userStore :=
     \<lparr>us_Users = [sample_user\<lparr>user_Roles := [(''requester'', True)]\<rparr>], us_file = NoFile\<rparr>\<rparr>"


lemma local_loop: 
  "first_factor_loop [LocalAuthenticator x] err user ar s =
     (case user of
        Some i \<Rightarrow> (case get_user s i of
            Some u \<Rightarrow> if password_ok x u ar then ((Some i, None), s)
              else ((user, Some ''Password and hash doesn't match''), s)
          | None \<Rightarrow> ((user, Some ''Cannot authenticate for unknown user.''), s))
      | None \<Rightarrow> ((user, Some ''Cannot authenticate for unknown user.''), s))"
  by (simp add: LocalAuthenticator_def password_ok_def Let_def split: option.split)

lemma local_login_iff:
  "service_authUser (createAuthService x now None) ar s = ((Some i, None), s') \<longleftrightarrow>
     s' = s \<and> ar_login ar \<noteq> [] \<and> ar_credential ar \<noteq> [] \<and> ByName s (ar_login ar) = Some i \<and>
     (\<exists>u. get_user s i = Some u \<and> user_Enabled u \<and> IsAuthDefined u \<and> password_ok x u ar \<and>
        (HasTwoFactor u \<longrightarrow> fst (ValidateTotp x now u (ar_token ar))))"
proof -
  note service = service_authUser_def AuthRequest_Validate_def getValidUser_def performFirstFactorAuth_def
    createAuthService_def newAuthService_def local_loop Suc_le_eq not_less
  show ?thesis
  proof (cases "ByName s (ar_login ar)")
    case None
    then show ?thesis
      by (auto simp: service simp del: first_factor_loop.simps split: if_splits)
  next
    case (Some j)
    then obtain u where u: "get_user s j = Some u" using ByName_SomeD by blast
    show ?thesis
      using Some u
      by (auto simp: service GAuthAuthenticator_def simp del: first_factor_loop.simps
          split: prod.splits bool.splits if_splits)
  qed
qed

text \<open>
  C21: Who gets in: with local accounts only, a login succeeds exactly for an enabled user with an
  authentication type, whose password hash matches and whose one-time token is right if the
  second factor is set up. The store of users is left alone either way.
\<close>

theorem login_iff:
  "service_authUser (createAuthService x now None) ar s = ((Some i, None), s') \<longleftrightarrow>
     s' = s \<and> ar_login ar \<noteq> [] \<and> ar_credential ar \<noteq> [] \<and> ByName s (ar_login ar) = Some i \<and>
     (\<exists>u. get_user s i = Some u \<and> user_Enabled u \<and> IsAuthDefined u \<and> password_ok x u ar \<and>
        (HasTwoFactor u \<longrightarrow> fst (ValidateTotp x now u (ar_token ar))))"
  by (rule local_login_iff)

theorem login_iff_witness:
  "service_authUser (createAuthService sample_ext 5 None) \<lparr>ar_login = ''ann'', ar_credential = ''pass'', ar_token = []\<rparr>
     (srv_userStore sample_server) = ((Some 0, None), srv_userStore sample_server)"
proof -
  have "password_ok sample_ext sample_user \<lparr>ar_login = ''ann'', ar_credential = ''pass'', ar_token = []\<rparr>"
    unfolding password_ok_def by (simp add: sample_user_def b64_decode_encode sample_ext_def del: b64_encode.simps)
  then show ?thesis
    unfolding login_iff by (simp add: ByName_def h_get_def sample_user_def IsAuthDefined_def auth_type_bits
        HasTwoFactor_def IsAuthType_def)
qed

lemma ByName_snoc:
  assumes "user_Username u \<notin> user_Username ` set (us_Users s)"
  shows "ByName (s\<lparr>us_Users := us_Users s @ [u]\<rparr>) (user_Username u) = Some (length (us_Users s))"
proof -
  have "find_index (\<lambda>v. user_Username v = user_Username u) (us @ [u]) = Some (length us)"
    if "user_Username u \<notin> user_Username ` set us" for us
    using that by (induction us) auto
  with assms show ?thesis by (simp add: ByName_def)
qed

lemma HasTwoFactor_none: "user_TotpSecret u = [] \<Longrightarrow> \<not> HasTwoFactor u"
  by (simp add: HasTwoFactor_def LegacyHasTwoFactors_def)

text \<open>The credentials of a user that \<open>CreateUser\<close> made, for any token.\<close>

lemma created_user_password:
  assumes "CreateUser x e name pwd email roles s = Some (True, s')" 
  shows "\<exists>u h. ByName s' (TrimSpace name) = Some (length (us_Users s)) \<and>
    get_user s' (length (us_Users s)) = Some u \<and> user_Enabled u \<and> \<not> HasTwoFactor u \<and>
    (IsAuthDefined u \<longleftrightarrow> pwd \<noteq> []) \<and> (\<forall>r. HasRole u r \<longleftrightarrow> r \<in> set roles) \<and>
    bcrypt_generate x (env_salt e) pwd = Some h \<and>
    (\<forall>ar. password_ok x u ar \<longleftrightarrow> bcrypt_compare x h (ar_credential ar))"
  using assms
proof (cases rule: CreateUser_cases)
  case (created u h)
  have "ByName s' (TrimSpace name) = Some (length (us_Users s))"
    using ByName_snoc [of u s] created by simp
  moreover have "get_user s' (length (us_Users s)) = Some u" using created by (simp add: h_get_def)
  ultimately show ?thesis
    using created by (intro exI [of _ u] exI [of _ h])
      (simp add: HasTwoFactor_none IsAuthDefined_def auth_type_bits password_ok_def b64_decode_encode)
qed simp

text \<open>
  A user that has been created can log in with the given name and password, without a second
  factor, and has the given roles.
\<close>

theorem created_user_logs_in:
  assumes "bcrypt_contract x" "CreateUser x e name pwd email roles s = Some (True, s')"
    "TrimSpace name \<noteq> []" "pwd \<noteq> []"
  shows "\<exists>i u. service_authUser (createAuthService x now None)
      \<lparr>ar_login = TrimSpace name, ar_credential = pwd, ar_token = token\<rparr> s' = ((Some i, None), s') \<and>
    get_user s' i = Some u \<and> {r. HasRole u r} = set roles"
  using created_user_password [OF assms(2)] assms(1,3,4)
  by (fastforce simp: local_login_iff bcrypt_contract_def)

theorem created_user_logs_in_witness:
  "\<exists>s' i u. CreateUser sample_ext sample_env ''bob'' ''hunter2hunter2'' [] [''requester''] (srv_userStore sample_server)
      = Some (True, s') \<and>
    service_authUser (createAuthService sample_ext 5 None)
      \<lparr>ar_login = TrimSpace ''bob'', ar_credential = ''hunter2hunter2'', ar_token = []\<rparr> s' = ((Some i, None), s') \<and>
    get_user s' i = Some u \<and> {r. HasRole u r} = {''requester''}"
proof -
  have trim: "TrimSpace ''bob'' = ''bob''" by code_simp
  obtain s' where c: "CreateUser sample_ext sample_env ''bob'' ''hunter2hunter2'' [] [''requester'']
      (srv_userStore sample_server) = Some (True, s')"
    by (simp add: CreateUser_def created_user_fields trim sample_user_def HashPassword_def sample_ext_def Let_def)
  have "bcrypt_contract sample_ext" by (simp add: bcrypt_contract_def sample_ext_def)
  from created_user_logs_in [OF this c, of 5 "[]"] c trim show ?thesis by simp
qed

text \<open>
  A password with blanks around it: it is stored as given, but the login form is trimmed, so
  with a bcrypt that accepts no other password its user is locked out from the start.
\<close>

theorem blank_padded_password_locks_out:
  assumes "CreateUser x e name pwd email roles s = Some (True, s')" "TrimSpace pwd \<noteq> pwd"
    "\<And>h p. bcrypt_generate x (env_salt e) pwd = Some h \<Longrightarrow> bcrypt_compare x h p \<Longrightarrow> p = pwd"
    "PostFormValue r ''username'' = name" "PostFormValue r ''password'' = pwd"
  shows "fst (service_authUser (createAuthService x now None) (auth_request_of r) s') \<noteq> (Some i, None)"
proof
  assume "fst (service_authUser (createAuthService x now None) (auth_request_of r) s') = (Some i, None)"
  then obtain s'' where "service_authUser (createAuthService x now None) (auth_request_of r) s' = ((Some i, None), s'')"
    by (metis prod.collapse)
  then show False
    using created_user_password [OF assms(1)] assms(2-)
    by (fastforce simp: local_login_iff auth_request_of_def)
qed

theorem blank_padded_password_locks_out_witness:
  "\<exists>s'. CreateUser sample_ext sample_env ''bob'' ''hunter2hunter2 '' [] [] (srv_userStore sample_server) = Some (True, s') \<and>
    fst (service_authUser (createAuthService sample_ext 5 None) (auth_request_of (sample_request
      \<lparr>rq_PostForm := [(''username'', ''bob''), (''password'', ''hunter2hunter2 '')]\<rparr>)) s') \<noteq> (Some 1, None)"
proof -
  have trim: "TrimSpace ''bob'' = ''bob''" "TrimSpace ''hunter2hunter2 '' \<noteq> ''hunter2hunter2 ''" by code_simp+
  obtain s' where c: "CreateUser sample_ext sample_env ''bob'' ''hunter2hunter2 '' [] []
      (srv_userStore sample_server) = Some (True, s')"
    by (simp add: CreateUser_def created_user_fields trim sample_user_def HashPassword_def sample_ext_def Let_def)
  let ?r = "sample_request\<lparr>rq_PostForm := [(''username'', ''bob''), (''password'', ''hunter2hunter2 '')]\<rparr>"
  have "fst (service_authUser (createAuthService sample_ext 5 None) (auth_request_of ?r) s') \<noteq> (Some 1, None)"
    by (rule blank_padded_password_locks_out [OF c trim(2)]) (simp_all add: sample_ext_def value_of_def)
  with c show ?thesis by blast
qed

text \<open>
  The first start on a writable home directory: the only user is \<open>admin\<close>, enabled, with the three
  roles, stored in the file, and the password that the start printed logs in.
\<close>

theorem first_start_admin:
  assumes "bcrypt_contract x" "newUserStore x e NoFile = Some s" "env_write e = WriteOk" "env_rand e 0 = Some bs"
    "bs \<noteq> []"
  shows "\<exists>u. us_Users s = [u] \<and> us_file s = Json [u] \<and>
    {r. HasRole u r} = {''admin'', ''requester'', ''approver''} \<and>
    service_authUser (createAuthService x now None)
      \<lparr>ar_login = ''admin'', ar_credential = b64_encode (take 32 bs), ar_token = token\<rparr> s = ((Some 0, None), s)"
proof -
  have pwd: "secureRandomString_ignoring 32 (env_rand e 0) = b64_encode (take 32 bs)" "b64_encode (take 32 bs) \<noteq> []"
    using assms(4,5) by (simp_all add: secureRandomString_ignoring_def secureRandomString_def)
  obtain u h where u: "us_Users s = [u]" "user_Username u = ''admin''" "user_Enabled u" "us_file s = Json [u]"
      "{r. HasRole u r} = {''admin'', ''requester'', ''approver''}" "user_AuthType u = AUTH_TYPE_LOCAL"
      "user_TotpSecret u = []" "bcrypt_generate x (env_salt e) (b64_encode (take 32 bs)) = Some h"
      "user_PasswordHash u = b64_encode h"
    using newUserStore_admin [OF assms(2,3) refl] assms(4,5) pwd(1) by auto
  have "password_ok x u \<lparr>ar_login = ''admin'', ar_credential = b64_encode (take 32 bs), ar_token = token\<rparr>"
    "\<not> HasTwoFactor u"
    using u assms(1) by (auto simp: password_ok_def b64_decode_encode bcrypt_contract_def HasTwoFactor_none)
  moreover have "ByName s ''admin'' = Some 0" using u by (simp add: ByName_def)
  ultimately show ?thesis
    using u pwd(2) by (simp add: local_login_iff h_get_def IsAuthDefined_def auth_type_bits)
qed

theorem first_start_admin_witness:
  "\<exists>s u. newUserStore sample_ext sample_env NoFile = Some s \<and> us_Users s = [u] \<and>
    service_authUser (createAuthService sample_ext 5 None)
      \<lparr>ar_login = ''admin'', ar_credential = b64_encode (replicate 32 (CHR ''r'')), ar_token = []\<rparr> s = ((Some 0, None), s)"
proof -
  obtain s where s: "newUserStore sample_ext sample_env NoFile = Some s" using sample_user_store by blast
  have "bcrypt_contract sample_ext" by (simp add: bcrypt_contract_def sample_ext_def)
  from first_start_admin [OF this s, where bs = "replicate 32 (CHR ''r'')" and now = 5 and token = "[]"] s
  show ?thesis by (auto simp: sample_env_def)
qed

text \<open>
  C25: A login opens a session: after a successful \<open>PostAuth\<close>, a request with the returned token and the
  user's name within half an hour is a request of that user, and its session has the address of the login. The line in the audit
  log, though, is written before that address is stored: it holds the address of the user's last session.
\<close>

theorem login_opens_session:
  assumes "PostAuth x None e r s = (Inr (ROk fs), s')" "map_of fs ''session_token'' = Some (VString token)"
    "env_rand e 0 = Some bs" "bs \<noteq> []"
    "rq_XAuthUser q = TrimSpace (PostFormValue r ''username'')" "rq_XAuthSession q = token"
    "env_now f \<le> env_now e + session_timeout"
  shows "(\<exists>u. session_user f q s' = Some u \<and> user_Username u = TrimSpace (PostFormValue r ''username'') \<and>
    user_SessionIpAddress u = rq_RemoteAddr r) \<and>
    (\<exists>i old. ByName (srv_userStore s) (TrimSpace (PostFormValue r ''username'')) = Some i \<and> get_user (srv_userStore s) i = Some old \<and>
    srv_audit s' = srv_audit s @ [TrimSpace (Join [user_SessionIpAddress old, user_Username old, ''Login'', []] '' '')])"
proof -
  have t: "secureRandomString_ignoring 32 (env_rand e 0) = b64_encode (take 32 bs)" "b64_encode (take 32 bs) \<noteq> []"
    using assms(3,4) by (simp_all add: secureRandomString_ignoring_def secureRandomString_def)
  obtain i us where a: "service_authUser (createAuthService x (env_now e) None) (auth_request_of r) (srv_userStore s)
      = ((Some i, None), us)"
    using assms(1) by (auto simp: PostAuth_def split: prod.splits option.splits)
  then obtain u where u: "us = srv_userStore s" "ByName us (TrimSpace (PostFormValue r ''username'')) = Some i"
      "get_user us i = Some u" "user_Enabled u"
    by (auto simp: local_login_iff auth_request_of_def)
  let ?v = "TouchSession (env_now e) (rq_RemoteAddr r) (fst (StartSession e u))"
  have s': "srv_userStore s' = users_save e (upd_user i (\<lambda>_. ?v) us)" and token: "token = b64_encode (take 32 bs)"
    using assms(1,2) a u t by (auto simp: PostAuth_def StartSession_def Let_def)
  have name: "user_Username ?v = user_Username u" by (simp add: StartSession_def Let_def)
  have "ByName (upd_user i (\<lambda>_. ?v) us) n = ByName us n" for n
    unfolding ByName_def
    by (rule find_index_cong_map [where g = user_Username and P = "\<lambda>m. m = n"])
      (use u(3) name in \<open>auto simp: upd_user_def h_upd_def h_get_def list_eq_iff_nth_eq nth_list_update split: if_splits\<close>)
  then have "ByName (srv_userStore s') (rq_XAuthUser q) = Some i"
    using u(2) assms(5) by (simp add: s' users_save_def ByName_def)
  moreover have "get_user (srv_userStore s') i = Some ?v" using u(3) by (simp add: s' users_save_def)
  moreover have "session_valid q (env_now f) ?v"
    using u(4) assms(6,7) t token by (simp add: session_valid_def StartSession_def Let_def TouchSession_def)
  moreover have "user_Username u = TrimSpace (PostFormValue r ''username'')" using u(2,3) ByName_SomeD by fastforce
  ultimately have session: "\<exists>u. session_user f q s' = Some u \<and> user_Username u = TrimSpace (PostFormValue r ''username'') \<and>
    user_SessionIpAddress u = rq_RemoteAddr r"
    using name by (auto simp: session_user_Some getUser_Some_iff TouchSession_def)
  have "srv_audit s' = srv_audit s @ [TrimSpace (Join [user_SessionIpAddress u, user_Username u, ''Login'', []] '' '')]"
    using assms(1) a u t by (auto simp: PostAuth_def StartSession_def Let_def Audit_Log_def)
  then have "\<exists>i old. ByName (srv_userStore s) (TrimSpace (PostFormValue r ''username'')) = Some i \<and> get_user (srv_userStore s) i = Some old \<and>
    srv_audit s' = srv_audit s @ [TrimSpace (Join [user_SessionIpAddress old, user_Username old, ''Login'', []] '' '')]"
    using u(1-3) by blast
  with session show ?thesis by (rule conjI)
qed

definition login_request :: http_request where
  "login_request = sample_request\<lparr>rq_PostForm := [(''username'', ''ann''), (''password'', ''pass'')]\<rparr>"

theorem login_opens_session_witness:
  "\<exists>fs s' token u. PostAuth sample_ext None sample_env login_request sample_server = (Inr (ROk fs), s') \<and>
    map_of fs ''session_token'' = Some (VString token) \<and>
    session_user (sample_env\<lparr>env_now := 7\<rparr>) (sample_request\<lparr>rq_XAuthSession := token\<rparr>) s' = Some u \<and>
    user_Username u = ''ann''"
proof -
  have trim: "TrimSpace ''ann'' = ''ann''" "TrimSpace ''pass'' = ''pass''" by code_simp+
  let ?ar = "auth_request_of login_request"
  have "ByName (srv_userStore sample_server) (ar_login ?ar) = Some 0"
    by (simp add: auth_request_of_def login_request_def value_of_def trim ByName_def sample_user_def)
  moreover have "password_ok sample_ext sample_user ?ar"
    unfolding password_ok_def by (simp add: sample_user_def b64_decode_encode auth_request_of_def login_request_def
        value_of_def trim sample_ext_def del: b64_encode.simps)
  ultimately have "service_authUser (createAuthService sample_ext (env_now sample_env) None) ?ar (srv_userStore sample_server)
      = ((Some 0, None), srv_userStore sample_server)"
    unfolding local_login_iff
    by (simp add: auth_request_of_def login_request_def value_of_def trim h_get_def sample_user_def IsAuthDefined_def
        HasTwoFactor_def IsAuthType_def auth_type_bits)
  then obtain fs s' where p: "PostAuth sample_ext None sample_env login_request sample_server = (Inr (ROk fs), s')"
      "map_of fs ''session_token'' = Some (VString (secureRandomString_ignoring 32 (env_rand sample_env 0)))"
    by (simp add: PostAuth_def h_get_def StartSession_def Let_def)
  from login_opens_session [OF p, where q = "sample_request\<lparr>rq_XAuthSession :=
      secureRandomString_ignoring 32 (env_rand sample_env 0)\<rparr>" and f = "sample_env\<lparr>env_now := 7\<rparr>"
      and bs = "replicate 32 (CHR ''r'')"] p
  show ?thesis
    by (auto simp: sample_env_def login_request_def value_of_def trim sample_request_def session_timeout_def
        nanosecond_per_second_def)
qed

end
