(* ===== verification/Command_Theorems.thy ===== *)
theory Command_Theorems
  imports Access_Theorems
begin

text \<open>
  The life of a command along a run: who authorised it, that its request starts once, that it is
  delivered without a lost wake-up and only once.
\<close>

lemma command_origin:
  assumes "server_ok s" "ldap_ok ldap" "cmds_of s = {}" "server_steps x cf ldap s s'" "d \<in> cmds_of s'"
  shows "\<exists>t u r c tmpl. server_steps x cf ldap s t \<and> server_step x cf ldap t u \<and> server_steps x cf ldap u s' \<and>
    get_request u r = Some c \<and> \<not> executed t r \<and> cr_Executed c \<and>
    TemplateStore_Get (srv_templateStore t) (cr_TemplateId c) = Some tmpl \<and>
    unat (acl_MinAuth (tmpl_Acl tmpl)) \<le> card (insert (cr_RequestUserId c) (fst ` set (cr_ApproveUserIds c))) \<and>
    cmd_ConsensusRequestId d = cr_Id c \<and> cmd_ClientId d \<in> set (cr_ClientIds c) \<and>
    cmd_TemplateId d = tmpl_Id tmpl \<and> cmd_Command d = tmpl_Command tmpl \<and> cmd_Timeout d = timeout_or_default (tmpl_Timeout tmpl)"
proof -
  obtain t u where tu: "server_steps x cf ldap s t" "server_step x cf ldap t u" "server_steps x cf ldap u s'"
      "authorised t u d"
    using run_accounts [OF assms(4,1,2,3,5)] by blast
  then obtain r c tmpl where c: "get_request u r = Some c" "\<not> executed t r" "cr_Executed c"
      "gm_get (ts_Templates (srv_templateStore t)) (cr_TemplateId c) = Some tmpl"
      "unat (acl_MinAuth (tmpl_Acl tmpl)) \<le> bal_votes (ballot_of c)"
      "cmd_ConsensusRequestId d = cr_Id c \<and> cmd_ClientId d \<in> set (cr_ClientIds c) \<and>
       cmd_TemplateId d = tmpl_Id tmpl \<and> cmd_Command d = tmpl_Command tmpl \<and> cmd_Timeout d = timeout_or_default (tmpl_Timeout tmpl)"
    unfolding authorised_def grants_def by blast
  have "server_ok u"
    using server_property.steps_ok [OF server_ok_property [OF assms(2)]] tu assms(1)
    by (meson rtranclp.rtrancl_into_rtrancl)
  then have "request_ok c" using c(1) by (auto simp: server_ok_def requests_ok_def)
  then have "bal_votes (ballot_of c) = card (insert (cr_RequestUserId c) (fst ` set (cr_ApproveUserIds c)))"
    by (simp add: bal_votes_def ballot_of_def request_ok_def image_iff)
  with tu c show ?thesis unfolding TemplateStore_Get_def by metis
qed

text \<open>
  C3: Every command that the server holds, whether waiting, handed to a goroutine or filed for a client,
  goes back to one step of the run in which its request was started for the first time: the
  request named the client, its template asks for no more votes than the requester and the
  distinct people who had approved it, and text and timeout of the command are the template's.
\<close>

theorem command_authorised:
  assumes "server_ok s" "ldap_ok ldap" "cmds_of s = {}" "server_steps x cf ldap s s'" "d \<in> cmds_of s'"
  shows "\<exists>t u r c tmpl. server_steps x cf ldap s t \<and> server_step x cf ldap t u \<and> server_steps x cf ldap u s' \<and>
    get_request u r = Some c \<and> \<not> executed t r \<and> cr_Executed c \<and>
    TemplateStore_Get (srv_templateStore t) (cr_TemplateId c) = Some tmpl \<and>
    unat (acl_MinAuth (tmpl_Acl tmpl)) \<le> card (insert (cr_RequestUserId c) (fst ` set (cr_ApproveUserIds c))) \<and>
    cmd_ConsensusRequestId d = cr_Id c \<and> cmd_ClientId d \<in> set (cr_ClientIds c) \<and>
    cmd_TemplateId d = tmpl_Id tmpl \<and> cmd_Command d = tmpl_Command tmpl \<and> cmd_Timeout d = timeout_or_default (tmpl_Timeout tmpl)"
  by (rule command_origin [OF assms])

lemma sample_server_no_cmds: "cmds_of sample_server = {}"
  by (simp add: cmds_of_def queued_cmds_def started_cmds_def filed_cmds_def)

theorem command_authorised_witness:
  "\<exists>d t u r c. d \<in> cmds_of check_server \<and> server_steps sample_ext sample_conf None sample_server t \<and>
    server_step sample_ext sample_conf None t u \<and> get_request u r = Some c \<and> \<not> executed t r \<and> cr_Executed c \<and>
    cmd_ConsensusRequestId d = cr_Id c \<and> cmd_Command d = ''uptime''"
proof -
  obtain d where d: "srv_tasks check_server = [TSubmit 0 d 0]" "cmd_Command d = ''uptime''"
    using check_server_tasks by blast
  then have "d \<in> cmds_of check_server" by (simp add: cmds_of_def started_cmds_def)
  with command_authorised [OF sample_server_ok _ sample_server_no_cmds
      r_into_rtranclp [where r = "server_step sample_ext sample_conf None", OF check_server_step] this] d(2)
  show ?thesis by (fastforce simp: ldap_ok_def)
qed

section \<open>A request is started once\<close>

lemma executed_audit [simp]:
  "executed (audit usr title m s) r = executed s r" "executed (audit_request v user crr s) r = executed s r"
  by (simp_all add: executed_def)

lemma executed_upd:
  assumes "executed s r" "\<And>c. cr_Executed c \<Longrightarrow> cr_Executed (f c)"
  shows "executed (upd_request i f s) r"
  using assms by (auto simp: executed_def)

lemma executed_start: "executed s r \<Longrightarrow> executed (snd (Request_start e i s)) r"
proof (cases "r = i")
  case True
  assume "executed s r"
  then obtain c where c: "get_request s i = Some c" "cr_Executed c" using True by (auto simp: executed_def)
  then have "snd (Request_start e i s) = s" by (simp add: Request_start_def split: option.split)
  then show ?thesis using \<open>executed s r\<close> by simp
qed (simp add: executed_def start_other)

lemma executed_check: "executed s r \<Longrightarrow> executed (snd (Request_check e i s)) r"
  by (auto simp: Request_check_def executed_start split: option.split)

interpretation executed_stays: server_property "\<lambda>s. executed s r" x ldap cf for r x ldap cf
proof unfold_locales
  fix s e tid cids user reason v s'
  assume "executed s r" "AddRequest cf e tid cids user reason s = (v, s')"
  then show "executed s' r"
    by (auto simp: AddRequest_def executed_def Let_def split: if_splits dest: h_get_Some_less)
next
  fix s e user i assume "executed s r"
  then show "executed (snd (Request_Approve e user i s)) r"
  proof (cases "get_request s i")
    case None
    then show ?thesis using \<open>executed s r\<close> by (simp add: Request_Approve_def)
  next
    case (Some c)
    then show ?thesis using \<open>executed s r\<close> by (simp add: Approve_snd vote_def executed_check executed_upd)
  qed
next
  fix s ts task us s'
  assume "executed s r" "run_task cf task (s\<lparr>srv_tasks := ts @ us\<rparr>) = Some (Inr (), s')"
  then show "executed s' r"
    by (cases task) (auto simp: run_task_def run_submit_def run_callback_def executed_def Let_def split: option.splits callback.splits if_splits
      dest: arg_cong [where f = "\<lambda>p. srv_consensus (snd p)"])
next
  fix s e i assume "executed s r"
  then show "executed (snd (Request_check e i s)) r" by (rule executed_check)
qed (auto simp: executed_def Request_AddCallback_def Request_Delete_def Let_def consensus_save_def touch_def
    on_checks_def split: option.split)

lemma executed_idle: "executed s r \<Longrightarrow> snd (Request_check e r s) = s \<and> snd (Request_start e r s) = s"
proof -
  assume "executed s r"
  then obtain c where c: "get_request s r = Some c" "cr_Executed c" by (auto simp: executed_def)
  then have "snd (Request_start e r s) = s" by (simp add: Request_start_def split: option.split)
  with c show ?thesis by (simp add: Request_check_def split: option.split)
qed

text \<open>
  C11: A request is started at most once: from the moment it is marked as executed, whatever
  happens, it stays so, and neither a further approval's check nor a start does anything.
\<close>

theorem request_starts_once:
  assumes "executed s r" "server_steps x cf ldap s s'"
  shows "executed s' r \<and> snd (Request_check e r s') = s' \<and> snd (Request_start e r s') = s'"
  using executed_stays.steps_ok [OF assms(2,1)] executed_idle by blast

theorem request_starts_once_witness:
  "executed check_server 0 \<and> snd (Request_check sample_env 0 check_server) = check_server"
proof -
  have "\<exists>c. get_request check_server 0 = Some c \<and> cr_Executed c"
  by (simp add: check_server_defs)
  then have "executed check_server 0" by (simp add: executed_def)
  with request_starts_once [OF this, of sample_ext sample_conf None check_server sample_env] show ?thesis by blast
qed

section \<open>Delivery\<close>

text \<open>A command that has been handed out keeps its place in the heap and never becomes pending again.\<close>

definition handed_out :: "cmd \<Rightarrow> ref \<Rightarrow> server \<Rightarrow> bool" where
  "handed_out c r s \<longleftrightarrow> (\<exists>d. get_cmd (srv_clients s) r = Some d \<and> same_origin c d \<and> \<not> cmd_Pending d)"

lemma handed_out_heap:
  assumes "handed_out c r s" "\<And>d. get_cmd (srv_clients s) r = Some d \<Longrightarrow>
    \<exists>d'. get_cmd (srv_clients s') r = Some d' \<and> same_origin d d' \<and> (cmd_Pending d' \<longrightarrow> cmd_Pending d)"
  shows "handed_out c r s'"
  using assms unfolding handed_out_def by (meson same_origin_trans)

lemma poll_cmds_heap:
  assumes "poll_cmds timed_out c cs = (rs, cs')" "get_cmd cs r = Some d"
  shows "\<exists>d'. get_cmd cs' r = Some d' \<and> same_origin d d' \<and> (cmd_Pending d' \<longrightarrow> cmd_Pending d)"
proof (cases "\<exists>cl. get_client cs c = Some cl \<and> \<not> timed_out \<and> rc_CmdChan cl \<noteq> 0")
  case True
  then obtain cl where cl: "get_client cs c = Some cl" "\<not> timed_out" "rc_CmdChan cl \<noteq> 0" by blast
  from assms show ?thesis using poll_woken [OF cl]
    by (auto simp: take_pending_heap same_origin_def)
next
  case False
  then have "cs' = cs" using assms(1) by (auto simp: poll_cmds_def split: option.splits)
  with assms(2) show ?thesis by auto
qed

lemma Next_clients: "Next er s = (res, s') \<Longrightarrow> srv_clients s' = srv_clients s"
  by (metis Next_frame(1) snd_conv)

interpretation handed_out_stays: server_property "handed_out c r" x ldap cf for c r x ldap cf
proof unfold_locales
  fix s i rs cs timed_out
  assume "handed_out c r s" "poll_cmds timed_out i (srv_clients s) = (rs, cs)"
  then show "handed_out c r (on_clients (\<lambda>_. cs) s)"
    using poll_cmds_heap by (elim handed_out_heap) simp
next
  fix s d m assume "handed_out c r s"
  then show "handed_out c r (on_clients (upd_cmd d (append_logs m)) s)"
    by (rule handed_out_heap) (auto simp: append_logs_def same_origin_def)
next
  fix s d st assume "handed_out c r s"
  then show "handed_out c r (set_cmd_state d st s)"
    by (rule handed_out_heap) (auto simp: same_origin_def)
next
  fix s ts task us s'
  assume ho: "handed_out c r s" and run: "run_task cf task (s\<lparr>srv_tasks := ts @ us\<rparr>) = Some (Inr (), s')"
  show "handed_out c r s'"
  proof (rule handed_out_heap [OF ho])
    fix d assume d: "get_cmd (srv_clients s) r = Some d"
    have "get_cmd (Submit cl m (srv_clients s)) r = Some d" for cl m
      using d h_get_Some_less [OF d] by (simp add: Submit_def Let_def)
    then have "get_cmd (srv_clients s') r = Some d"
      using run d
      by (cases task) (auto simp: run_task_def run_submit_def run_callback_def Next_clients Let_def
          split: option.splits callback.splits if_splits)
    then show "\<exists>d'. get_cmd (srv_clients s') r = Some d' \<and> same_origin d d' \<and> (cmd_Pending d' \<longrightarrow> cmd_Pending d)"
      by auto
  qed
next
  fix s i assume "handed_out c r s"
  then show "handed_out c r (snd (Request_Delete i s))"
    by (auto simp: Request_Delete_def Let_def handed_out_def split: option.split)
qed (auto simp: handed_out_def Request_AddCallback_def AddRequest_def Let_def GetDispatchedCmds_def
    CleanupClients_def consensus_save_def touch_def on_checks_def split: option.split if_splits)

lemma take_pending_pending:
  "r \<in> set (fst (take_pending m h)) \<Longrightarrow> r \<in> snd ` set m \<and> (\<exists>c. h_get h r = Some c \<and> cmd_Pending c)"
proof (induction m h rule: take_pending.induct)
  case (2 k r' m h)
  then show ?case by (cases "h_get h r'") (auto simp: split_beta split: if_splits)
qed simp

lemma poll_cmds_Some:
  assumes "poll_cmds timed_out c cs = (Some rs, cs')"
  obtains cl where "get_client cs c = Some cl" "rc_CmdChan cl \<noteq> 0" "\<not> timed_out"
    "rs = fst (take_pending (rc_Cmds cl) (cs_cmds cs))"
    "cs' = (upd_client c (\<lambda>d. d\<lparr>rc_CmdChan := rc_CmdChan d - 1\<rparr>) cs)
       \<lparr>cs_cmds := snd (take_pending (rc_Cmds cl) (cs_cmds cs))\<rparr>"
  using assms by (auto simp: poll_cmds_def Let_def split_beta split: option.splits if_splits)

text \<open>
  C15: A command is delivered once: what one poll has returned, no poll of any client returns again,
  whatever the server did in between.
\<close>

theorem delivered_once:
  assumes "poll_cmds timed_out c (srv_clients s) = (Some rs, cs)"
    "server_steps x cf ldap (on_clients (\<lambda>_. cs) s) s'"
    "poll_cmds timed_out' c' (srv_clients s') = (Some rs', cs')"
  shows "set rs \<inter> set rs' = {}"
proof (rule ccontr)
  assume "set rs \<inter> set rs' \<noteq> {}"
  then obtain r where r: "r \<in> set rs" "r \<in> set rs'" by blast
  from assms(1) obtain cl :: registered_client
    where cl: "rs = fst (take_pending (rc_Cmds cl) (cs_cmds (srv_clients s)))"
      "cs_cmds cs = snd (take_pending (rc_Cmds cl) (cs_cmds (srv_clients s)))"
    by (elim poll_cmds_Some) auto
  with r(1) obtain d where "r \<in> snd ` set (rc_Cmds cl)" "get_cmd (srv_clients s) r = Some d"
    using take_pending_pending by blast
  then have "handed_out d r (on_clients (\<lambda>_. cs) s)"
    using cl(2) by (simp add: handed_out_def take_pending_heap same_origin_def)
  from handed_out_stays.steps_ok [OF assms(2) this] obtain d' where
    "get_cmd (srv_clients s') r = Some d'" "\<not> cmd_Pending d'"
    by (auto simp: handed_out_def)
  with assms(3) r(2) show False
    by (elim poll_cmds_Some) (auto dest!: take_pending_pending)
qed

text \<open>A server with one command filed for its client.\<close>

definition filed_server :: server where
  "filed_server = on_clients (Submit 0 (newCmd ''z'' 0 ''uptime'' 10)) sample_server"

lemma filed_server_clients:
  "srv_clients filed_server = \<lparr>cs_clients = [(''c1'', 0)], cs_Tags = [],
     cs_heap = [sample_client\<lparr>rc_Cmds := [(''z'', 0)], rc_DispatchedCmds := [(''z'', 0)], rc_CmdChan := 1\<rparr>],
     cs_cmds = [newCmd ''z'' 0 ''uptime'' 10]\<rparr>"
  by (simp add: filed_server_def Submit_def Let_def sample_client_def newRegisteredClient_def upd_client_def
      h_upd_def newCmd_def)

lemma filed_server_ok: "server_ok filed_server"
proof -
  have h: "h_get [x] r = Some y \<longleftrightarrow> r = 0 \<and> y = x" for x y :: 'a and r by (auto simp: h_get_def)
  have "client_store_ok (srv_clients filed_server)"
    by (auto simp: filed_server_clients client_store_ok_def gm_ok_def h sample_client_def newRegisteredClient_def
        client_ok_def cmd_map_ok_def pending_refs_def newCmd_def)
  moreover have "links_ok filed_server"
    using server_okD(6) [OF sample_server_ok] links_ok_frame [of sample_server filed_server]
    by (simp add: filed_server_def)
  ultimately show ?thesis using sample_server_ok by (simp add: server_ok_def filed_server_def)
qed

theorem delivered_once_witness:
  "\<exists>cs cs'. poll_cmds False 0 (Submit 0 (newCmd ''y'' 0 ''uptime'' 10) (srv_clients filed_server)) = (Some [0, 1], cs) \<and>
    poll_cmds False 0 cs = (Some [], cs') \<and> set [0, 1 :: ref] \<inter> set [] = {}"
proof -
  let ?s = "on_clients (Submit 0 (newCmd ''y'' 0 ''uptime'' 10)) filed_server"
  obtain cs where p: "poll_cmds False 0 (srv_clients ?s) = (Some [0, 1], cs)"
    by (simp add: poll_cmds_def filed_server_clients h_get_def newCmd_def h_upd_def Submit_def Let_def upd_client_def)
  obtain cs' where q: "poll_cmds False 0 cs = (Some [], cs')"
    using p by (auto simp: poll_cmds_def filed_server_clients h_get_def newCmd_def h_upd_def Submit_def Let_def
        upd_client_def)
  from delivered_once [OF p rtranclp.rtrancl_refl, of False 0 "[]" cs'] q p show ?thesis by auto
qed

text \<open>
  C14: No wake-up is lost: in every well-formed state, if a client that has exchanged keys has a
  command it has not fetched, then its poll returns at once, with all such commands, and none
  is left over.
\<close>

theorem poll_delivers_pending:
  assumes "server_ok s" "auth cf r" "request_client r s = Some (i, c)" "rc_AuthToken c \<noteq> []"
    "(k, ref) \<in> set (rc_Cmds c)" "get_cmd (srv_clients s) ref = Some d" "cmd_Pending d"
  shows "\<exists>ds s' c'. ClientCmds False cf r s = (Inr (ROk [(''cmds'', VCmds ds)]), s') \<and>
    d\<lparr>cmd_Pending := False\<rparr> \<in> set ds \<and> get_client (srv_clients s') i = Some c' \<and>
    pending_refs (srv_clients s') c' = []"
proof -
  have i: "get_client (srv_clients s) i = Some c" using assms(3) by (auto simp: request_client_def split: option.splits)
  have ok: "client_ok (srv_clients s) c" using client_store_okD(3) [OF server_okD(1) [OF assms(1)] i] .
  have ref: "ref \<in> set (pending_refs (srv_clients s) c)"
    using assms(5-7) by (force simp: pending_refs_def is_pending_def)
  then have chan: "rc_CmdChan c \<noteq> 0" using ok order.strict_trans2 [OF length_pos_if_in_set [OF ref]] by (simp add: client_ok_def)
  have refs: "fst (take_pending (rc_Cmds c) (cs_cmds (srv_clients s))) = pending_refs (srv_clients s) c"
    using take_pending_refs [OF cmd_map_ok_distinct_refs, of "srv_clients s" "rc_Cmds c"] ok
    by (simp add: client_ok_def pending_refs_def is_pending_def [abs_def])
  let ?h = "snd (take_pending (rc_Cmds c) (cs_cmds (srv_clients s)))"
  let ?c = "c\<lparr>rc_CmdChan := rc_CmdChan c - 1\<rparr>"
  let ?cs = "(upd_client i (\<lambda>d. d\<lparr>rc_CmdChan := rc_CmdChan d - 1\<rparr>) (srv_clients s))\<lparr>cs_cmds := ?h\<rparr>"
  have poll: "poll_cmds False i (srv_clients s) = (Some (pending_refs (srv_clients s) c), ?cs)"
    using i chan refs by (simp add: poll_cmds_def Let_def split_beta)
  have mem: "ref \<in> snd ` set (rc_Cmds c)" using assms(5) by force
  then have "get_cmd ?cs ref = Some (d\<lparr>cmd_Pending := False\<rparr>)" using assms(6) by (simp add: take_pending_heap)
  then have "d\<lparr>cmd_Pending := False\<rparr> \<in> set (List.map_filter (get_cmd ?cs) (pending_refs (srv_clients s) c))"
    using ref by (force simp: List.map_filter_def)
  moreover have "pending_refs ?cs ?c = []"
    by (auto simp: pending_refs_def filter_empty_conv is_pending_def take_pending_heap split: option.split)
  moreover have "get_client ?cs i = Some ?c" using i by simp
  ultimately show ?thesis
    using assms(2-4) poll
    by (intro exI [of _ "List.map_filter (get_cmd ?cs) (pending_refs (srv_clients s) c)"]
        exI [of _ "on_clients (\<lambda>_. ?cs) s"] exI [of _ ?c]) (simp add: ClientCmds_def Suc_le_eq)
qed

definition signed_request :: http_request where
  "signed_request = sample_request\<lparr>rq_XAuth := signedToken sample_conf ''/'', rq_Params := [(''clientId'', ''c1'')]\<rparr>"

theorem poll_delivers_pending_witness:
  "\<exists>ds s'. ClientCmds False sample_conf signed_request filed_server = (Inr (ROk [(''cmds'', VCmds ds)]), s') \<and>
    (newCmd ''z'' 0 ''uptime'' 10)\<lparr>cmd_Pending := False\<rparr> \<in> set ds"
proof -
  let ?c = "sample_client\<lparr>rc_Cmds := [(''z'', 0)], rc_DispatchedCmds := [(''z'', 0)], rc_CmdChan := 1\<rparr>"
  have a: "auth sample_conf signed_request" by (simp add: auth_def signed_request_def sample_request_def)
  have c: "request_client signed_request filed_server = Some (0, ?c)"
    by (simp add: request_client_def signed_request_def value_of_def GetClient_def filed_server_clients h_get_def)
  have "rc_AuthToken ?c \<noteq> []" by (simp add: sample_client_def)
  from poll_delivers_pending [OF filed_server_ok a c this, of "''z''" 0 "newCmd ''z'' 0 ''uptime'' 10"]
  show ?thesis by (auto simp: filed_server_clients h_get_def newCmd_def)
qed

end
