(* ===== verification/Concurrent_Votes.thy ===== *)
theory Concurrent_Votes
  imports Command_Theorems
begin

text \<open>
  Approvals that arrive together. \<open>Approve\<close>, \<open>check\<close> and \<open>start\<close> (consensus.go) cut at their accesses to what threads share, with
  the lock \<open>executeMux\<close>; every interleaving of any number of them with the rest of the server.
\<close>

section \<open>A thread inside Approve\<close>

text \<open>
  Where a thread is that runs \<open>Approve\<close>, with \<open>check\<close> and \<open>start\<close>: before the test of the requester, before the test for
  an earlier vote, before the vote, before the count of \<open>check\<close>, before the template of \<open>start\<close>, before the lock, and inside the lock.
\<close>

datatype stage =
    Arrived | Asking | Recording | Counting | Looking | Waiting
  | Testing | Choosing | Running execution_strategy | Leaving "panic + bool"
  | Finished "panic + bool"

definition inside :: "stage \<Rightarrow> bool" where
  "inside p \<longleftrightarrow> (case p of Testing \<Rightarrow> True | Choosing \<Rightarrow> True | Running _ \<Rightarrow> True | Leaving _ \<Rightarrow> True | _ \<Rightarrow> False)"

definition finished :: "stage \<Rightarrow> bool" where
  "finished p \<longleftrightarrow> (case p of Finished _ \<Rightarrow> True | _ \<Rightarrow> False)"

definition request_field :: "ref \<Rightarrow> server \<Rightarrow> (consensus_request \<Rightarrow> stage \<times> server) \<Rightarrow> stage \<times> server" where
  "request_field crr s f = (case get_request s crr of None \<Rightarrow> (Finished (Inl NilDeref), s) | Some c \<Rightarrow> f c)"

text \<open>One step of the thread. A panic inside the lock runs the deferred unlock.\<close>

fun advance :: "env \<Rightarrow> ref \<Rightarrow> user \<Rightarrow> stage \<Rightarrow> server \<Rightarrow> stage \<times> server" where
  "advance e crr user Arrived s =
     request_field crr s (\<lambda>c. if cr_RequestUserId c = user_Id user then (Finished (Inr False), s) else (Asking, s))"
| "advance e crr user Asking s =
     request_field crr s (\<lambda>c.
       if gm_true (cr_ApproveUserIds c) (user_Id user) then (Finished (Inr False), s) else (Recording, s))"
| "advance e crr user Recording s = request_field crr s (\<lambda>c. (Counting, vote user crr s))"
| "advance e crr user Counting s =
     request_field crr s (\<lambda>c.
       case request_template s c of
         None \<Rightarrow> (Finished (Inr True), s)
       | Some template \<Rightarrow>
           if (of_nat (voteCount c) :: 64 word) < acl_MinAuth (tmpl_Acl template)
           then (Finished (Inr True), s) else (Looking, s))"
| "advance e crr user Looking s =
     request_field crr s (\<lambda>c.
       case request_template s c of None \<Rightarrow> (Finished (Inr True), s) | Some template \<Rightarrow> (Waiting, s))"
| "advance e crr user Waiting s = (Testing, s)"
| "advance e crr user Testing s =
     request_field crr s (\<lambda>c.
       if cr_Executed c then (Leaving (Inr True), s)
       else (Choosing, upd_request crr (\<lambda>c. c\<lparr>cr_Executed := True\<rparr>) s))"
| "advance e crr user Choosing s =
     request_field crr s (\<lambda>c.
       case request_template s c of
         None \<Rightarrow> (Leaving (Inl NilDeref), s)
       | Some template \<Rightarrow>
           (case GetExecutionStrategy template of
              None \<Rightarrow> (Leaving (Inr True), s)
            | Some strategy \<Rightarrow> (Running strategy, upd_request crr (\<lambda>c. c\<lparr>cr_StartTime := unix (env_now e)\<rparr>) s)))"
| "advance e crr user (Running strategy) s =
     (case Execute e strategy crr s of
        (Inl p, s) \<Rightarrow> (Leaving (Inl p), s)
      | (Inr _, s) \<Rightarrow> (Leaving (Inr True), upd_request crr (\<lambda>c. c\<lparr>cr_CompleteTime := unix (env_now e)\<rparr>) s))"
| "advance e crr user (Leaving r) s = (Finished r, s)"
| "advance e crr user (Finished r) s = (Finished r, s)"

definition run_thread :: "nat \<Rightarrow> env \<Rightarrow> ref \<Rightarrow> user \<Rightarrow> stage \<Rightarrow> server \<Rightarrow> stage \<times> server" where
  "run_thread n e crr user p s = ((\<lambda>(p, s). advance e crr user p s) ^^ n) (p, s)"

lemma run_thread_simps [simp]:
  "run_thread 0 e crr user p s = (p, s)"
  "run_thread (Suc n) e crr user p s = (case advance e crr user p s of (p, s) \<Rightarrow> run_thread n e crr user p s)"
  by (simp_all add: run_thread_def funpow_swap1 split: prod.split)

lemma run_thread_Finished [simp]: "run_thread n e crr user (Finished r) s = (Finished r, s)"
  by (induction n) simp_all

text \<open>A thread that nobody interrupts does in ten steps what the handler's \<open>Approve\<close> does in one.\<close>

theorem Approve_in_steps:
  assumes "get_request s crr = Some c" 
  shows "run_thread 10 e crr user Arrived s = (Finished (fst (Request_Approve e user crr s)), snd (Request_Approve e user crr s))"
  by (simp add: assms request_field_def Request_Approve_def Request_check_def Request_start_def request_template_def vote_def Let_def
      eval_nat_numeral split: option.split prod.split sum.split)

section \<open>Many threads\<close>

text \<open>
  The server, who holds the request's lock, the threads with their users and environments, and the threads that have run the strategy.
\<close>

record race =
  ra_server :: server
  ra_lock :: "nat option"
  ra_threads :: "(env \<times> user \<times> stage) list"
  ra_runs :: "nat list"

text \<open>
  A thread makes a step; one that waits needs the lock to be free. Between these steps the rest of the server does what
  \<open>E\<close> allows, as long as it leaves the request alone.
\<close>

inductive thread_step :: "ref \<Rightarrow> race \<Rightarrow> race \<Rightarrow> bool" for crr where
  "i < length (ra_threads R) \<Longrightarrow> ra_threads R ! i = (e, user, p) \<Longrightarrow> \<not> finished p \<Longrightarrow> (p = Waiting \<longrightarrow> ra_lock R = None) \<Longrightarrow>
   advance e crr user p (ra_server R) = (p', s') \<Longrightarrow>
   thread_step crr R
     \<lparr>ra_server = s',
      ra_lock = (if p = Waiting then Some i else if \<exists>r. p = Leaving r then None else ra_lock R),
      ra_threads = (ra_threads R)[i := (e, user, p')],
      ra_runs = (if \<exists>strategy. p = Running strategy then ra_runs R @ [i] else ra_runs R)\<rparr>"

inductive race_step :: "(server \<Rightarrow> server \<Rightarrow> bool) \<Rightarrow> ref \<Rightarrow> race \<Rightarrow> race \<Rightarrow> bool" for E crr where
  thread: "thread_step crr R R' \<Longrightarrow> race_step E crr R R'"
| others: "E (ra_server R) s' \<Longrightarrow> get_request s' crr = get_request (ra_server R) crr \<Longrightarrow>
    race_step E crr R (R\<lparr>ra_server := s'\<rparr>)"

inductive_cases thread_stepE: "thread_step crr R R'"

abbreviation race_steps :: "(server \<Rightarrow> server \<Rightarrow> bool) \<Rightarrow> ref \<Rightarrow> race \<Rightarrow> race \<Rightarrow> bool" where
  "race_steps E crr \<equiv> (race_step E crr)\<^sup>*\<^sup>*"

abbreviation stage_at :: "race \<Rightarrow> nat \<Rightarrow> stage" where
  "stage_at R i \<equiv> snd (snd (ra_threads R ! i))"

text \<open>Threads that are about to start their approval or, from the filing of the request, their check.\<close>

definition race_start :: "ref \<Rightarrow> race \<Rightarrow> bool" where
  "race_start crr R \<longleftrightarrow>
     (\<exists>c. get_request (ra_server R) crr = Some c \<and> \<not> cr_Executed c) \<and> ra_lock R = None \<and> ra_runs R = [] \<and>
     list_all (\<lambda>(e, user, p). p = Arrived \<or> p = Counting) (ra_threads R)"

section \<open>The lock\<close>

definition marked :: "stage \<Rightarrow> bool" where
  "marked p \<longleftrightarrow> (case p of Choosing \<Rightarrow> True | Running _ \<Rightarrow> True | _ \<Rightarrow> False)"

lemma stage_simps [simp]:
  "\<not> inside Arrived" "\<not> inside Asking" "\<not> inside Recording" "\<not> inside Counting" "\<not> inside Looking" "\<not> inside Waiting"
  "inside Testing" "inside Choosing" "inside (Running st)" "inside (Leaving r)" "\<not> inside (Finished r)"
  "\<not> marked Arrived" "\<not> marked Asking" "\<not> marked Recording" "\<not> marked Counting" "\<not> marked Looking" "\<not> marked Waiting"
  "\<not> marked Testing" "marked Choosing" "marked (Running st)" "\<not> marked (Leaving r)" "\<not> marked (Finished r)"
  "\<not> finished Arrived" "\<not> finished Asking" "\<not> finished Recording" "\<not> finished Counting" "\<not> finished Looking" "\<not> finished Waiting"
  "\<not> finished Testing" "\<not> finished Choosing" "\<not> finished (Running st)" "\<not> finished (Leaving r)" "finished (Finished r)"
  by (simp_all add: inside_def marked_def finished_def)

lemma marked_inside: "marked p \<Longrightarrow> inside p"
  by (cases p) simp_all

definition locked :: "race \<Rightarrow> bool" where
  "locked R \<longleftrightarrow> (\<forall>i < length (ra_threads R). inside (stage_at R i) \<longleftrightarrow> ra_lock R = Some i) \<and>
     (\<forall>i. ra_lock R = Some i \<longrightarrow> i < length (ra_threads R))"

text \<open>Once: as long as the request is not executed nobody has got past the mark; then one thread has, before or after its run.\<close>

definition once :: "ref \<Rightarrow> race \<Rightarrow> bool" where
  "once crr R \<longleftrightarrow>
     (\<exists>c. get_request (ra_server R) crr = Some c) \<and>
     (\<not> executed (ra_server R) crr \<longrightarrow> ra_runs R = [] \<and> (\<forall>i < length (ra_threads R). \<not> marked (stage_at R i))) \<and>
     (\<forall>i < length (ra_threads R). marked (stage_at R i) \<longrightarrow> ra_runs R = []) \<and> length (ra_runs R) \<le> 1"

text \<open>What a step of a thread does to the request, by its stage.\<close>

lemma Execute_keeps_request:
  assumes "Execute e strategy crr s = (r, u)"
  shows "srv_consensus u = srv_consensus s" "srv_templateStore u = srv_templateStore s"
  using Execute_frame(3,4) [of e strategy crr s] assms by simp_all

lemma advance_keeps_request:
  assumes "get_request s crr = Some c" "advance e crr user p s = (p', s')"
  shows "\<exists>d. get_request s' crr = Some d \<and> cr_TemplateId d = cr_TemplateId c \<and> cr_RequestUserId d = cr_RequestUserId c \<and>
    (cr_Executed c \<longrightarrow> cr_Executed d) \<and> (cr_Executed d \<longrightarrow> cr_Executed c \<or> p = Testing) \<and>
    cr_ApproveUserIds d = (if p = Recording then gm_set (user_Id user) True (cr_ApproveUserIds c) else cr_ApproveUserIds c)"
proof (cases p)
  case (Running st)
  obtain r u where ex: "Execute e st crr s = (r, u)" by fastforce
  show ?thesis using assms Running ex Execute_keeps_request [OF ex] by (cases r) auto
qed (use assms in \<open>auto simp: request_field_def vote_def split: option.splits if_splits\<close>)

lemma advance_templates: "advance e crr user p s = (p', s') \<Longrightarrow> srv_templateStore s' = srv_templateStore s"
  by (cases p) (auto simp: request_field_def vote_def split: option.splits if_splits prod.splits sum.splits
      dest: Execute_keeps_request)

text \<open>Where a step leads.\<close>

lemma advance_stages:
  assumes "advance e crr user p s = (p', s')" "get_request s crr = Some c" "\<not> finished p"
  shows "inside p' \<longleftrightarrow> p = Waiting \<or> inside p \<and> (\<forall>r. p \<noteq> Leaving r)"
    "marked p' \<Longrightarrow> p = Testing \<and> \<not> cr_Executed c \<and> executed s' crr \<or> p = Choosing"
  using assms
  by (cases p; auto simp: request_field_def executed_def split: option.splits if_splits prod.splits sum.splits)+

lemma locked_thread:
  assumes "thread_step crr R R'" "locked R" "get_request (ra_server R) crr = Some c"
  shows "locked R'"
  using assms(1)
proof cases
  case (1 i e user p p' s')
  note inside = advance_stages(1) [OF 1(6) assms(3) 1(4)]
  have p: "stage_at R i = p" using 1(3) by simp
  have holds: "inside p \<longleftrightarrow> ra_lock R = Some i" using assms(2) 1(2) p by (auto simp: locked_def)
  show ?thesis
    unfolding locked_def
  proof (intro conjI allI impI)
    fix j assume j: "j < length (ra_threads R')"
    show "inside (stage_at R' j) \<longleftrightarrow> ra_lock R' = Some j"
    proof (cases "j = i")
      case True
      then show ?thesis using 1 inside holds by (cases p) auto
    next
      case False
      then have "inside (stage_at R' j) \<longleftrightarrow> ra_lock R = Some j" using assms(2) 1 j by (auto simp: locked_def)
      then show ?thesis using False 1 holds by (cases p) auto
    qed
  next
    fix j assume "ra_lock R' = Some j"
    then show "j < length (ra_threads R')" using assms(2) 1 by (auto simp: locked_def split: if_splits)
  qed
qed

lemma once_thread:
  assumes "thread_step crr R R'" "locked R" "once crr R"
  shows "once crr R'"
  using assms(1)
proof cases
  case (1 i e user p p' s')
  obtain c where c: "get_request (ra_server R) crr = Some c" using assms(3) by (auto simp: once_def)
  obtain d where d: "get_request s' crr = Some d" "cr_Executed c \<Longrightarrow> cr_Executed d" "cr_Executed d \<Longrightarrow> cr_Executed c \<or> p = Testing"
    using advance_keeps_request [OF c 1(6)] by blast
  have p: "stage_at R i = p" using 1(3) by simp
  have alone: "\<not> inside (stage_at R j)" if "inside p" "j < length (ra_threads R)" "j \<noteq> i" for j
    using assms(2) that 1(2) p by (auto simp: locked_def)
  have ex: "executed (ra_server R) crr = cr_Executed c" "executed s' crr = cr_Executed d"
    using c d(1) by (auto simp: executed_def)
  have runs: "ra_runs R = []" if "marked p" using assms(3) 1(2) p that by (auto simp: once_def)
  have others: "marked (stage_at R' j) \<longleftrightarrow> marked (stage_at R j)" if "j \<noteq> i" for j using 1 that by simp
  have here: "stage_at R' i = p'" using 1 by simp
  have idle: "ra_runs R = []" "\<forall>j < length (ra_threads R). \<not> marked (stage_at R j)" if "\<not> cr_Executed c"
    using that assms(3) ex(1) by (simp_all add: once_def)
  have fresh: "ra_runs R = []" "\<not> (\<exists>st. p = Running st)" if "marked p'"
    using advance_stages(2) [OF 1(6) c 1(4)] that runs idle(1) by auto
  show ?thesis
    unfolding once_def
  proof (intro conjI allI impI)
    show "\<exists>c. get_request (ra_server R') crr = Some c" using d 1 by simp
  next
    assume "\<not> executed (ra_server R') crr"
    then have n: "\<not> cr_Executed d" "\<not> cr_Executed c" using 1 ex d(2) by auto
    then have "\<not> marked p" using idle(2) 1(2) p by auto
    then show "ra_runs R' = []" using idle(1) n 1 by auto
    show "\<not> marked (stage_at R' j)" if "j < length (ra_threads R')" for j
    proof (cases "j = i")
      case True
      have "\<not> marked p'" using advance_stages(2) [OF 1(6) c 1(4)] \<open>\<not> marked p\<close> n(1) ex(2) by auto
      then show ?thesis using True here by simp
    next
      case False
      then show ?thesis using others idle(2) n that 1 by simp
    qed
  next
    fix j assume j: "j < length (ra_threads R')" "marked (stage_at R' j)"
    show "ra_runs R' = []"
    proof (cases "j = i")
      case True
      then show ?thesis using fresh j(2) here 1 by simp
    next
      case False
      then have "marked (stage_at R j)" "j < length (ra_threads R)" using others j 1 by simp_all
      then have "ra_runs R = []" "\<not> inside p" using assms(3) alone False marked_inside by (auto simp: once_def)
      then show ?thesis using 1 by auto
    qed
  next
    show "length (ra_runs R') \<le> 1" using runs assms(3) 1 by (auto simp: once_def)
  qed
qed

section \<open>The votes\<close>

text \<open>The votes of the request are as many as its template asks for.\<close>

definition enough :: "ref \<Rightarrow> server \<Rightarrow> bool" where
  "enough crr s \<longleftrightarrow>
     (\<exists>c t. get_request s crr = Some c \<and> request_template s c = Some t \<and>
        \<not> (of_nat (voteCount c) :: 64 word) < acl_MinAuth (tmpl_Acl t))"

definition may_still_vote :: "stage \<Rightarrow> bool" where
  "may_still_vote p \<longleftrightarrow> p = Arrived \<or> p = Asking \<or> p = Recording"

definition past_check :: "stage \<Rightarrow> bool" where
  "past_check p \<longleftrightarrow> p = Looking \<or> p = Waiting \<or> p = Testing \<or> marked p"

definition on_the_way :: "stage \<Rightarrow> bool" where
  "on_the_way p \<longleftrightarrow> p = Counting \<or> p = Looking \<or> p = Waiting \<or> p = Testing"

definition votes_left :: "race \<Rightarrow> nat" where
  "votes_left R = length (filter (\<lambda>(e, user, p). may_still_vote p) (ra_threads R))"

definition counted :: "ref \<Rightarrow> race \<Rightarrow> bool" where
  "counted crr R \<longleftrightarrow>
     (\<forall>c. get_request (ra_server R) crr = Some c \<longrightarrow> voteCount c + votes_left R < 2 ^ 64) \<and>
     ((\<exists>i < length (ra_threads R). past_check (stage_at R i)) \<or> ra_runs R \<noteq> [] \<or> executed (ra_server R) crr \<longrightarrow>
        enough crr (ra_server R)) \<and>
     (enough crr (ra_server R) \<longrightarrow>
        executed (ra_server R) crr \<or> (\<exists>i < length (ra_threads R). on_the_way (stage_at R i))) \<and>
     (executed (ra_server R) crr \<longrightarrow> ra_runs R \<noteq> [] \<or> (\<exists>i < length (ra_threads R). marked (stage_at R i)))"

lemma length_gm_set: "length m \<le> length (gm_set k v m)" "length (gm_set k v m) \<le> length m + 1"
  by (induction m) auto

lemma enough_after:
  assumes "advance e crr user p s = (p', s')" "get_request s crr = Some c" "p = Recording \<longrightarrow> voteCount c + 1 < 2 ^ 64"
  shows "enough crr s \<Longrightarrow> enough crr s'" "p \<noteq> Recording \<Longrightarrow> enough crr s' \<Longrightarrow> enough crr s"
proof -
  obtain d where d: "get_request s' crr = Some d" "cr_TemplateId d = cr_TemplateId c"
    "cr_ApproveUserIds d = (if p = Recording then gm_set (user_Id user) True (cr_ApproveUserIds c) else cr_ApproveUserIds c)"
    using advance_keeps_request [OF assms(2,1)] by blast
  have t: "request_template s' d = request_template s c"
    using advance_templates [OF assms(1)] d(2) by (simp add: request_template_def)
  have more: "voteCount c \<le> voteCount d" "p = Recording \<Longrightarrow> voteCount d < 2 ^ 64" "p \<noteq> Recording \<Longrightarrow> voteCount d = voteCount c"
    using d(3) length_gm_set [where m = "cr_ApproveUserIds c" and k = "user_Id user" and v = True] assms(3) by (auto simp: voteCount_def)
  have "(of_nat (voteCount c) :: 64 word) \<le> of_nat (voteCount d)"
  proof (cases "p = Recording")
    case True
    then have "voteCount c < 2 ^ 64" "voteCount d < 2 ^ 64" using more by simp_all
    with more(1) show ?thesis by (simp add: word_le_nat_alt unat_of_nat take_bit_nat_eq_self)
  qed (simp add: more(3))
  note le = this
  show "enough crr s'" if "enough crr s"
  proof -
    from that obtain tm where tm: "request_template s c = Some tm" "\<not> (of_nat (voteCount c) :: 64 word) < acl_MinAuth (tmpl_Acl tm)"
      using assms(2) by (auto simp: enough_def)
    then have "\<not> (of_nat (voteCount d) :: 64 word) < acl_MinAuth (tmpl_Acl tm)" using le by simp
    with d(1) t tm(1) show ?thesis by (auto simp: enough_def)
  qed
  show "p \<noteq> Recording \<Longrightarrow> enough crr s' \<Longrightarrow> enough crr s"
    using assms(2) d(1) t more(3) unfolding enough_def by auto
qed

lemma stage_sets [simp]:
  "past_check Looking" "past_check Waiting" "past_check Testing" "past_check Choosing" "past_check (Running st)"
  "\<not> past_check Arrived" "\<not> past_check Asking" "\<not> past_check Recording" "\<not> past_check Counting" "\<not> past_check (Leaving r)"
  "\<not> past_check (Finished r)"
  "on_the_way Counting" "on_the_way Looking" "on_the_way Waiting" "on_the_way Testing" "\<not> on_the_way Arrived" "\<not> on_the_way Asking"
  "\<not> on_the_way Recording" "\<not> on_the_way Choosing" "\<not> on_the_way (Running st)" "\<not> on_the_way (Leaving r)" "\<not> on_the_way (Finished r)"
  "may_still_vote Arrived" "may_still_vote Asking" "may_still_vote Recording" "\<not> may_still_vote Counting" "\<not> may_still_vote Looking"
  "\<not> may_still_vote Waiting" "\<not> may_still_vote Testing" "\<not> may_still_vote Choosing" "\<not> may_still_vote (Running st)"
  "\<not> may_still_vote (Leaving r)" "\<not> may_still_vote (Finished r)"
  by (simp_all add: past_check_def on_the_way_def may_still_vote_def)

lemma advance_votes:
  assumes "advance e crr user p s = (p', s')" "get_request s crr = Some c" "\<not> finished p"
  shows "past_check p' \<Longrightarrow> past_check p \<or> p = Counting \<and> enough crr s"
    "enough crr s \<Longrightarrow> on_the_way p \<Longrightarrow> on_the_way p' \<or> executed s' crr"
    "p = Recording \<Longrightarrow> p' = Counting"
    "enough crr s \<Longrightarrow> p = Choosing \<Longrightarrow> marked p'"
    "executed s' crr \<Longrightarrow> \<not> executed s crr \<Longrightarrow> p = Testing \<and> marked p'"
    "may_still_vote p' \<Longrightarrow> may_still_vote p \<and> p \<noteq> Recording"
proof -
  note defs = request_field_def enough_def executed_def
  show "past_check p' \<Longrightarrow> past_check p \<or> p = Counting \<and> enough crr s"
    using assms by (cases p) (auto simp: defs split: option.splits if_splits prod.splits sum.splits)
  show "enough crr s \<Longrightarrow> on_the_way p \<Longrightarrow> on_the_way p' \<or> executed s' crr"
    using assms by (cases p) (auto simp: defs split: option.splits if_splits)
  show "p = Recording \<Longrightarrow> p' = Counting" using assms by (auto simp: defs)
  show "enough crr s \<Longrightarrow> p = Choosing \<Longrightarrow> marked p'"
  proof -
    assume "enough crr s" "p = Choosing"
    then obtain t where "request_template s c = Some t" using assms(2) by (auto simp: enough_def)
    moreover obtain st where "GetExecutionStrategy t = Some st" using GetExecutionStrategy_Some by blast
    ultimately show ?thesis using assms(1,2) \<open>p = Choosing\<close> by (auto simp: request_field_def)
  qed
  show "executed s' crr \<Longrightarrow> \<not> executed s crr \<Longrightarrow> p = Testing \<and> marked p'"
    using advance_keeps_request [OF assms(2,1)] assms by (auto simp: executed_def request_field_def split: if_splits)
  show "may_still_vote p' \<Longrightarrow> may_still_vote p \<and> p \<noteq> Recording"
    using assms by (cases p) (auto simp: defs split: option.splits if_splits prod.splits sum.splits)
qed

lemma votes_left_thread:
  assumes "i < length (ra_threads R)" "ra_threads R ! i = (e, user, p)" "ra_threads R' = (ra_threads R)[i := (e, user, p')]"
    "may_still_vote p' \<longrightarrow> may_still_vote p"
  shows "votes_left R' + (if may_still_vote p \<and> \<not> may_still_vote p' then 1 else 0) = votes_left R"
proof -
  let ?f = "\<lambda>(e :: env, user :: user, p). may_still_vote p"
  have ts: "ra_threads R = take i (ra_threads R) @ (e, user, p) # drop (Suc i) (ra_threads R)"
    using assms(1,2) id_take_nth_drop by metis
  have ts': "ra_threads R' = take i (ra_threads R) @ (e, user, p') # drop (Suc i) (ra_threads R)"
    unfolding assms(3) using assms(1) by (rule upd_conv_take_nth_drop)
  show ?thesis
    unfolding votes_left_def ts' using assms(4) by (subst (3) ts) (simp split: prod.split)
qed

lemma counted_thread:
  assumes "thread_step crr R R'" "once crr R" "counted crr R"
  shows "counted crr R'"
  using assms(1)
proof cases
  case (1 i e user p p' s')
  obtain c where c: "get_request (ra_server R) crr = Some c" using assms(2) by (auto simp: once_def)
  obtain d where d: "get_request s' crr = Some d" "cr_Executed c \<Longrightarrow> cr_Executed d"
    "cr_ApproveUserIds d = (if p = Recording then gm_set (user_Id user) True (cr_ApproveUserIds c) else cr_ApproveUserIds c)"
    using advance_keeps_request [OF c 1(6)] by blast
  have p: "stage_at R i = p" and p': "stage_at R' i = p'" and others: "\<And>j. j \<noteq> i \<Longrightarrow> stage_at R' j = stage_at R j"
    and len: "length (ra_threads R') = length (ra_threads R)"
    using 1 by auto
  note votes = advance_votes [OF 1(6) c 1(4)]
  have left: "votes_left R' + (if may_still_vote p \<and> \<not> may_still_vote p' then 1 else 0) = votes_left R"
    using votes_left_thread [OF 1(2,3)] votes(6) 1(1) by simp
  have bound: "voteCount c + votes_left R < 2 ^ 64" using assms(3) c by (simp add: counted_def)
  have one: "p = Recording \<longrightarrow> voteCount c + 1 < 2 ^ 64" using left votes(3) bound by auto
  note enough = enough_after [OF 1(6) c one]
  have still: "executed (ra_server R) crr \<Longrightarrow> executed s' crr" using c d by (auto simp: executed_def)
  have ra: "ra_server R' = s'" "ra_runs R \<noteq> [] \<Longrightarrow> ra_runs R' \<noteq> []" using 1 by auto
  show ?thesis
    unfolding counted_def ra(1)
  proof (intro conjI allI impI)
    fix c' assume "get_request s' crr = Some c'"
    then have "c' = d" using d by simp
    moreover have "voteCount d \<le> voteCount c + (if p = Recording then 1 else 0)"
      using d(3) length_gm_set(2) [where m = "cr_ApproveUserIds c" and k = "user_Id user" and v = True] by (auto simp: voteCount_def)
    ultimately show "voteCount c' + votes_left R' < 2 ^ 64" using left votes(3) bound by (auto split: if_splits)
  next
    assume a: "(\<exists>i < length (ra_threads R'). past_check (stage_at R' i)) \<or> ra_runs R' \<noteq> [] \<or> executed s' crr"
    have "past_check p \<Longrightarrow> enough crr (ra_server R)" using assms(3) 1(2) p by (auto simp: counted_def)
    moreover have "past_check (stage_at R j) \<Longrightarrow> j < length (ra_threads R) \<Longrightarrow> enough crr (ra_server R)" for j
      using assms(3) by (auto simp: counted_def)
    moreover have "ra_runs R' \<noteq> [] \<Longrightarrow> ra_runs R \<noteq> [] \<or> past_check p" using 1 by (auto split: if_splits)
    moreover have "executed s' crr \<Longrightarrow> executed (ra_server R) crr \<or> past_check p" using votes(5) stage_sets(3) by metis
    ultimately have "enough crr (ra_server R)"
      using a assms(3) votes(1) others p' len unfolding counted_def by metis
    then show "enough crr s'" by (rule enough(1))
  next
    assume a: "enough crr s'"
    show "executed s' crr \<or> (\<exists>i < length (ra_threads R'). on_the_way (stage_at R' i))"
    proof (cases "p = Recording")
      case True
      then show ?thesis using votes(3) p' 1(2) len by auto
    next
      case False
      then have e: "enough crr (ra_server R)" using enough(2) a by blast
      then consider "executed (ra_server R) crr" | j where "j < length (ra_threads R)" "on_the_way (stage_at R j)"
        using assms(3) by (auto simp: counted_def)
      then show ?thesis
      proof cases
        case (2 j)
        then show ?thesis using votes(2) [OF e] p p' others len by (cases "j = i") auto
      qed (use still in blast)
    qed
  next
    assume "executed s' crr"
    then consider "executed (ra_server R) crr" | "p = Testing" "marked p'" using votes(5) by blast
    then show "ra_runs R' \<noteq> [] \<or> (\<exists>i < length (ra_threads R'). marked (stage_at R' i))"
    proof cases
      case ex: 1
      then consider "ra_runs R \<noteq> []" | j where "j < length (ra_threads R)" "marked (stage_at R j)"
        using assms(3) by (auto simp: counted_def)
      then show ?thesis
      proof cases
        case (2 j)
        show ?thesis
        proof (cases "j = i")
          case True
          have "enough crr (ra_server R)" using ex assms(3) by (simp add: counted_def)
          then show ?thesis using True 2 p p' votes(4) 1(1,2) len by (cases p) auto
        qed (use 2 others len in auto)
      qed (use ra in blast)
    qed (use p' 1(2) len in auto)
  qed
qed

section \<open>Rest\<close>

text \<open>Every step of a thread brings it nearer to its end.\<close>

fun steps_left :: "stage \<Rightarrow> nat" where
  "steps_left Arrived = 10"
| "steps_left Asking = 9"
| "steps_left Recording = 8"
| "steps_left Counting = 7"
| "steps_left Looking = 6"
| "steps_left Waiting = 5"
| "steps_left Testing = 4"
| "steps_left Choosing = 3"
| "steps_left (Running strategy) = 2"
| "steps_left (Leaving r) = 1"
| "steps_left (Finished r) = 0"

definition race_left :: "race \<Rightarrow> nat" where
  "race_left R = sum_list (map (\<lambda>(e, user, p). steps_left p) (ra_threads R))"

lemma advance_nearer: "advance e crr user p s = (p', s') \<Longrightarrow> \<not> finished p \<Longrightarrow> steps_left p' < steps_left p"
  by (cases p) (auto simp: request_field_def split: option.splits if_splits prod.splits sum.splits)

lemma race_nearer: "thread_step crr R R' \<Longrightarrow> race_left R' < race_left R"
proof (erule thread_step.cases, goal_cases)
  case (1 i Q e user p p' s')
  let ?f = "\<lambda>(e :: env, user :: user, p). steps_left p"
  let ?ts = "ra_threads Q"
  have "?ts = take i ?ts @ (e, user, p) # drop (Suc i) ?ts" using 1(3,4) id_take_nth_drop by metis
  then have "sum_list (map ?f ?ts) = sum_list (map ?f (take i ?ts @ (e, user, p) # drop (Suc i) ?ts))" by simp
  moreover have "?ts[i := (e, user, p')] = take i ?ts @ (e, user, p') # drop (Suc i) ?ts"
    using 1(3) by (rule upd_conv_take_nth_drop)
  moreover have "steps_left p' < steps_left p" using advance_nearer 1(5,7) by blast
  ultimately show ?case unfolding 1(1,2) race_left_def by simp
qed

definition at_rest :: "ref \<Rightarrow> race \<Rightarrow> bool" where
  "at_rest crr R \<longleftrightarrow> \<not> (\<exists>R'. thread_step crr R R')"

lemma comes_to_rest: "\<exists>R'. race_steps E crr R R' \<and> at_rest crr R'"
proof (induction "race_left R" arbitrary: R rule: less_induct)
  case less
  show ?case
  proof (cases "at_rest crr R")
    case False
    then obtain R1 where R1: "thread_step crr R R1" by (auto simp: at_rest_def)
    from less [OF race_nearer [OF R1]] obtain R' where "race_steps E crr R1 R'" "at_rest crr R'" by blast
    with R1 show ?thesis by (meson converse_rtranclp_into_rtranclp race_step.thread)
  qed blast
qed

lemma rest_finished:
  assumes "locked R" "at_rest crr R" "i < length (ra_threads R)"
  shows "finished (stage_at R i)"
proof -
  have step: "\<exists>R'. thread_step crr R R'"
    if "j < length (ra_threads R)" "\<not> finished (stage_at R j)" "stage_at R j = Waiting \<longrightarrow> ra_lock R = None" for j
  proof -
    obtain e user p where j: "ra_threads R ! j = (e, user, p)" by (cases "ra_threads R ! j")
    obtain p' s' where "advance e crr user p (ra_server R) = (p', s')" by fastforce
    from thread_step.intros [OF that(1) j _ _ this] that j show ?thesis by auto
  qed
  have done_: "finished (stage_at R j)" if "j < length (ra_threads R)" "stage_at R j = Waiting \<longrightarrow> ra_lock R = None" for j
    using step [OF that(1)] that(2) assms(2) by (auto simp: at_rest_def)
  have "ra_lock R = None"
  proof (rule ccontr)
    assume "ra_lock R \<noteq> None"
    then obtain j where "ra_lock R = Some j" by blast
    then have j: "j < length (ra_threads R)" "inside (stage_at R j)" using assms(1) by (auto simp: locked_def)
    then have "finished (stage_at R j)" by (intro done_) auto
    with j(2) show False by (cases "stage_at R j") auto
  qed
  with done_ [OF assms(3)] show ?thesis by simp
qed

section \<open>Every interleaving\<close>

lemma finished_idle: "finished p \<Longrightarrow> \<not> marked p \<and> \<not> on_the_way p \<and> \<not> inside p"
  by (cases p) simp_all

lemma race_start_stages:
  assumes "race_start crr R" "i < length (ra_threads R)"
  shows "stage_at R i = Arrived \<or> stage_at R i = Counting"
proof -
  have "\<forall>x \<in> set (ra_threads R). snd (snd x) = Arrived \<or> snd (snd x) = Counting"
    using assms(1) by (simp add: race_start_def list_all_iff split_beta)
  then show ?thesis using assms(2) by simp
qed

lemma race_start_ok:
  assumes "race_start crr R"
  shows "locked R" "once crr R"
proof -
  have out: "\<not> inside (stage_at R i)" if "i < length (ra_threads R)" for i
    using race_start_stages [OF assms that] by auto
  then have "\<not> marked (stage_at R i)" if "i < length (ra_threads R)" for i
    using that marked_inside by blast
  then show "locked R" "once crr R" using out assms unfolding locked_def once_def race_start_def by auto
qed

lemma race_step_ok:
  assumes "race_step E crr R R'" "locked R" "once crr R"
  shows "locked R' \<and> once crr R'"
  using assms(1)
proof cases
  case thread
  then show ?thesis using assms locked_thread once_thread by (meson once_def)
next
  case (others s')
  then show ?thesis using assms(2,3) by (simp add: locked_def once_def executed_def)
qed

lemma race_steps_ok: "race_steps E crr R R' \<Longrightarrow> locked R \<Longrightarrow> once crr R \<Longrightarrow> locked R' \<and> once crr R'"
  by (induction rule: rtranclp_induct) (auto dest: race_step_ok)

lemma race_steps_counted:
  assumes "race_steps E crr R R'" "locked R" "once crr R" "counted crr R"
    "\<And>s s'. E s s' \<Longrightarrow> srv_templateStore s' = srv_templateStore s"
  shows "counted crr R'"
  using assms(1)
proof (induction rule: rtranclp_induct)
  case (step Q Q')
  have "once crr Q" using race_steps_ok [OF step(1) assms(2,3)] by blast
  from step(2) show ?case
  proof cases
    case thread
    then show ?thesis using counted_thread \<open>once crr Q\<close> step.IH by blast
  next
    case (others s')
    then have "enough crr s' = enough crr (ra_server Q)" "executed s' crr = executed (ra_server Q) crr"
      using assms(5) [OF others(2)] by (simp_all add: enough_def executed_def request_template_def)
    then show ?thesis using step.IH others by (simp add: counted_def votes_left_def)
  qed
qed (use assms in blast)

text \<open>
  C12: However the threads that approve a request, the check at its filing and the rest of the server interleave, the
  strategy of the request is run at most once, and no thread waits for ever. As long as nobody changes the templates, when all threads are
  through, it has been run if and only if the votes suffice: no start is lost between two votes that arrive together.
\<close>

theorem approvals_in_any_order:
  assumes "race_start crr R" "race_steps E crr R R'"
  shows "length (ra_runs R') \<le> 1 \<and>
    (at_rest crr R' \<longrightarrow> (\<forall>i < length (ra_threads R'). finished (stage_at R' i))) \<and>
    ((\<forall>s s'. E s s' \<longrightarrow> srv_templateStore s' = srv_templateStore s) \<and>
     (\<forall>c. get_request (ra_server R) crr = Some c \<longrightarrow> voteCount c + votes_left R < 2 ^ 64) \<and>
     (enough crr (ra_server R) \<longrightarrow> (\<exists>i < length (ra_threads R). stage_at R i = Counting)) \<and> at_rest crr R' \<longrightarrow>
       (length (ra_runs R') = 1 \<longleftrightarrow> enough crr (ra_server R')))"
proof (intro conjI impI)
  have ok: "locked R'" "once crr R'" using race_steps_ok [OF assms(2)] race_start_ok [OF assms(1)] by blast+
  show "length (ra_runs R') \<le> 1" using ok(2) by (simp add: once_def)
  show "\<forall>i < length (ra_threads R'). finished (stage_at R' i)" if "at_rest crr R'"
    using rest_finished [OF ok(1) that] by blast
  assume a: "(\<forall>s s'. E s s' \<longrightarrow> srv_templateStore s' = srv_templateStore s) \<and>
     (\<forall>c. get_request (ra_server R) crr = Some c \<longrightarrow> voteCount c + votes_left R < 2 ^ 64) \<and>
     (enough crr (ra_server R) \<longrightarrow> (\<exists>i < length (ra_threads R). stage_at R i = Counting)) \<and> at_rest crr R'"
  have "\<not> past_check (stage_at R i)" if "i < length (ra_threads R)" for i
    using race_start_stages [OF assms(1) that] by auto
  then have "counted crr R" using a assms(1) by (auto simp: counted_def race_start_def executed_def intro: stage_sets)
  then have "counted crr R'" using race_steps_counted [OF assms(2) race_start_ok [OF assms(1)]] a by blast
  moreover have "\<not> marked (stage_at R' i)" "\<not> on_the_way (stage_at R' i)" if "i < length (ra_threads R')" for i
    using finished_idle [OF rest_finished [OF ok(1) _ that]] a by blast+
  ultimately have "ra_runs R' \<noteq> [] \<longleftrightarrow> enough crr (ra_server R')" unfolding counted_def by blast
  moreover have "length (ra_runs R') = 1 \<longleftrightarrow> ra_runs R' \<noteq> []" using ok(2) by (cases "ra_runs R'") (auto simp: once_def)
  ultimately show "length (ra_runs R') = 1 \<longleftrightarrow> enough crr (ra_server R')" by simp
qed

text \<open>A request of a user who is not the sample user, one vote short of nothing: its template asks for the requester's vote only.\<close>

definition racing_server :: server where
  "racing_server = sample_server\<lparr>srv_consensus :=
     \<lparr>con_Pending = [(''id'', 0)],
      con_heap = [(newConsensusRequest ''id'' 0)\<lparr>cr_TemplateId := ''t1'', cr_RequestUserId := ''sys''\<rparr>], con_file = NoFile\<rparr>\<rparr>"

lemma racing_server_simps [simp]:
  "get_request racing_server 0 =
     Some ((newConsensusRequest ''id'' 0)\<lparr>cr_TemplateId := ''t1'', cr_RequestUserId := ''sys''\<rparr>)"
  "request_template racing_server c = (if cr_TemplateId c = ''t1'' then Some sample_template else None)"
  by (simp_all add: racing_server_def h_get_def request_template_def)

theorem Approve_in_steps_witness:
  "fst (run_thread 10 sample_env 0 sample_user Arrived racing_server) = Finished (fst (Request_Approve sample_env sample_user 0 racing_server))"
  by (simp only: Approve_in_steps [OF racing_server_simps(1)] fst_conv)

theorem approvals_in_any_order_witness:
  "\<exists>R. race_steps (\<lambda>_ _. False) 0
     \<lparr>ra_server = racing_server, ra_lock = None,
      ra_threads = [(sample_env, sample_user, Counting), (sample_env, sample_user, Arrived)], ra_runs = []\<rparr> R \<and>
     length (ra_runs R) \<le> 1 \<and> (length (ra_runs R) = 1 \<longleftrightarrow> enough 0 (ra_server R))"
proof -
  let ?R = "\<lparr>ra_server = racing_server, ra_lock = None,
      ra_threads = [(sample_env, sample_user, Counting), (sample_env, sample_user, Arrived)], ra_runs = []\<rparr>"
  obtain R where R: "race_steps (\<lambda>_ _. False) 0 ?R R" "at_rest 0 R" using comes_to_rest by blast
  have "race_start 0 ?R" by (simp add: race_start_def newConsensusRequest_def)
  note this = approvals_in_any_order [OF this R(1)]
  moreover have "voteCount ((newConsensusRequest ''id'' 0)\<lparr>cr_TemplateId := ''t1'', cr_RequestUserId := ''sys''\<rparr>) + votes_left ?R < 2 ^ 64"
    by (simp add: voteCount_def votes_left_def newConsensusRequest_def)
  moreover have "\<exists>i < length (ra_threads ?R). stage_at ?R i = Counting" by (intro exI [of _ 0]) simp
  ultimately show ?thesis using R by (intro exI [of _ R]) simp
qed

section \<open>A start that is lost\<close>

lemma lone_step:
  assumes "advance e crr user p s = (p', s')" "\<not> finished p" "p = Waiting \<Longrightarrow> l = None" "\<nexists>strategy. p = Running strategy"
  shows "race_step E crr \<lparr>ra_server = s, ra_lock = l, ra_threads = [(e, user, p)], ra_runs = rs\<rparr>
    \<lparr>ra_server = s', ra_lock = (if p = Waiting then Some 0 else if \<exists>r. p = Leaving r then None else l),
     ra_threads = [(e, user, p')], ra_runs = rs\<rparr>"
  using thread_step.intros [of 0 "\<lparr>ra_server = s, ra_lock = l, ra_threads = [(e, user, p)], ra_runs = rs\<rparr>" e user p crr p' s'] assms
  by (intro race_step.thread) (auto split: if_splits)

text \<open>
  C13: A start can be lost for good. \<open>start\<close> marks the request as executed and then looks its template up a second time without asking
  whether it is still there: when the template is deleted in between, the handler panics, nothing is run, and the mark keeps
  every later check or start from running it.
\<close>

theorem deleted_template_loses_request:
  assumes "get_request s crr = Some c" "\<not> cr_Executed c" "enough crr s"
  shows "\<exists>R. race_steps (\<lambda>s s'. s' = on_templates (TemplateStore_Remove (cr_TemplateId c)) s) crr
       \<lparr>ra_server = s, ra_lock = None, ra_threads = [(e, user, Counting)], ra_runs = []\<rparr> R \<and>
     stage_at R 0 = Finished (Inl NilDeref) \<and> ra_runs R = [] \<and> executed (ra_server R) crr \<and>
     snd (Request_check e' crr (ra_server R)) = ra_server R"
proof -
  let ?E = "\<lambda>s s'. s' = on_templates (TemplateStore_Remove (cr_TemplateId c)) s"
  let ?R = "\<lambda>s l p. \<lparr>ra_server = s, ra_lock = l, ra_threads = [(e, user, p)], ra_runs = []\<rparr>"
  let ?mark = "upd_request crr (\<lambda>c. c\<lparr>cr_Executed := True\<rparr>) s"
  let ?gone = "on_templates (TemplateStore_Remove (cr_TemplateId c)) ?mark"
  obtain t where t: "request_template s c = Some t" "\<not> (of_nat (voteCount c) :: 64 word) < acl_MinAuth (tmpl_Acl t)"
    using assms(1,3) by (auto simp: enough_def)
  have m: "get_request ?gone crr = Some (c\<lparr>cr_Executed := True\<rparr>)" "get_request ?mark crr = Some (c\<lparr>cr_Executed := True\<rparr>)"
    using assms(1) by (simp_all add: on_templates_def)
  have g: "request_template ?gone (c\<lparr>cr_Executed := True\<rparr>) = None"
    by (simp add: request_template_def on_templates_def TemplateStore_Remove_def)
  note step = converse_rtranclp_into_rtranclp [where r = "race_step ?E crr"]
  have 1: "race_step ?E crr (?R s None Counting) (?R s None Looking)"
    using lone_step [of e crr user Counting s Looking s None] assms(1) t by (simp add: request_field_def)
  have 2: "race_step ?E crr (?R s None Looking) (?R s None Waiting)"
    using lone_step [of e crr user Looking s Waiting s None] assms(1) t by (simp add: request_field_def)
  have 3: "race_step ?E crr (?R s None Waiting) (?R s (Some 0) Testing)"
    using lone_step [of e crr user Waiting s Testing s None] by simp
  have 4: "race_step ?E crr (?R s (Some 0) Testing) (?R ?mark (Some 0) Choosing)"
    using lone_step [of e crr user Testing s Choosing ?mark "Some 0"] assms(1,2) by (simp add: request_field_def)
  have 5: "race_step ?E crr (?R ?mark (Some 0) Choosing) (?R ?gone (Some 0) Choosing)"
    using race_step.others [of ?E "?R ?mark (Some 0) Choosing" ?gone crr] m by simp
  have 6: "race_step ?E crr (?R ?gone (Some 0) Choosing) (?R ?gone (Some 0) (Leaving (Inl NilDeref)))"
    using lone_step [of e crr user Choosing ?gone "Leaving (Inl NilDeref)" ?gone "Some 0"]
    by (simp only: advance.simps request_field_def m g option.case stage_simps stage.distinct simp_thms if_False)
  have 7: "race_step ?E crr (?R ?gone (Some 0) (Leaving (Inl NilDeref))) (?R ?gone None (Finished (Inl NilDeref)))"
    using lone_step [of e crr user "Leaving (Inl NilDeref)" ?gone "Finished (Inl NilDeref)" ?gone "Some 0"] by simp
  have "race_steps ?E crr (?R s None Counting) (?R ?gone None (Finished (Inl NilDeref)))"
    by (rule step [OF 1], rule step [OF 2], rule step [OF 3], rule step [OF 4], rule step [OF 5], rule step [OF 6],
        rule r_into_rtranclp [of "race_step ?E crr", OF 7])
  moreover have "executed ?gone crr" 
    unfolding executed_def by (rule exI [of _ "c\<lparr>cr_Executed := True\<rparr>"], rule conjI, rule m(1)) simp
  ultimately show ?thesis using executed_idle by (intro exI [of _ "?R ?gone None (Finished (Inl NilDeref))"]) simp
qed

theorem deleted_template_loses_request_witness:
  "\<exists>R. stage_at R 0 = Finished (Inl NilDeref) \<and> ra_runs R = [] \<and> executed (ra_server R) 0"
proof -
  have "enough 0 racing_server"
    by (simp add: enough_def newConsensusRequest_def voteCount_def sample_template_def)
  moreover have "\<not> cr_Executed ((newConsensusRequest ''id'' 0)\<lparr>cr_TemplateId := ''t1'', cr_RequestUserId := ''sys''\<rparr>)"
    by (simp add: newConsensusRequest_def)
  ultimately show ?thesis
    using deleted_template_loses_request [OF racing_server_simps(1), of sample_env sample_user sample_env] by blast
qed

end
