(* ===== verification/Report_Theorems.thy ===== *)
theory Report_Theorems
  imports Command_Theorems
begin

text \<open>
  What the reports of a client lead to, what cancelling a request does, and the external http check.
\<close>

section \<open>Reports\<close>

text \<open>
  C17: The verdict: when the client of a command that ran to its end reports that all its output is
  transferred, the command is finished if the output satisfies every validation rule of its
  template, and fails validation otherwise; and exactly in the first case the coordinator is
  called, if it knows the command's request.
\<close>

theorem verdict_on_flushed_logs:
  assumes "conf_ServerEnabled cf" "get_cmd (srv_clients s) r = Some c" "cmd_State c = ''finished_execution''"
    "TemplateStore_Get (srv_templateStore s) (cmd_TemplateId c) = Some t"
  shows "cmd_state (SetState cf r ''flushed_logs'' s) r =
      Some (if \<forall>v \<in> set (tmpl_ValidationRules t). rule_satisfied c v then ''finished'' else ''failed_validation'') \<and>
    srv_tasks (SetState cf r ''flushed_logs'' s) = srv_tasks s @
      (case Coordinator_Get s (cmd_ConsensusRequestId c) of
         Some er \<Rightarrow> if \<forall>v \<in> set (tmpl_ValidationRules t). rule_satisfied c v then [TNext er] else []
       | None \<Rightarrow> [])"
proof -
  let ?s = "set_cmd_state r ''flushed_logs'' s" and ?c = "c\<lparr>cmd_State := ''flushed_logs''\<rparr>"
  have "get_cmd (srv_clients ?s) r = Some ?c" using assms(2) by simp
  from validate_eq [OF assms(1) this, of t] assms(4)
  have "SetState cf r ''flushed_logs'' s =
    (if failed_validation (tmpl_ValidationRules t) c then set_cmd_state r ''failed_validation'' ?s
     else case Coordinator_Get s (cmd_ConsensusRequestId c) of
            None \<Rightarrow> set_cmd_state r ''finished'' ?s
          | Some er \<Rightarrow> start_tasks [TNext er] (set_cmd_state r ''finished'' ?s))"
    by (simp add: SetState_judged [OF assms(2,3)] Coordinator_Get_def Let_def)
  then show ?thesis
    using assms(2) by (auto simp: failed_validation_iff split: option.split)
qed

text \<open>A server on which a command of the sample template has run.\<close>

definition ran_server :: server where
  "ran_server = on_clients (Submit 0 ((newCmd ''z'' 0 ''uptime'' 10)
     \<lparr>cmd_TemplateId := ''t1'', cmd_State := ''finished_execution''\<rparr>)) sample_server"

lemma ran_server_cmd: "get_cmd (srv_clients ran_server) 0 = Some ((newCmd ''z'' 0 ''uptime'' 10)
    \<lparr>cmd_TemplateId := ''t1'', cmd_State := ''finished_execution''\<rparr>)"
  by (simp add: ran_server_def Submit_def Let_def h_get_def)

theorem verdict_on_flushed_logs_witness:
  "cmd_state (SetState sample_conf 0 ''flushed_logs'' ran_server) 0 = Some ''finished''"
  using verdict_on_flushed_logs [OF _ ran_server_cmd, of sample_conf sample_template]
  by (simp add: sample_conf_def TemplateStore_Get_def ran_server_def sample_template_def)

text \<open>
  C30: The final report is not idempotent: a client that sends it again, as it does when the answer to
  the first was lost, turns a finished command back into \<open>flushed_logs\<close>, and then the batch of the
  command's request never counts as finished.
\<close>

theorem repeated_flush_report_undoes_verdict:
  assumes "get_cmd (srv_clients s) r = Some c" "cmd_State c = ''finished'' \<or> cmd_State c = ''failed'' \<or>
      cmd_State c = ''failed_validation'' \<or> cmd_State c = ''killed_execution''"
  shows "cmd_state (SetState cf r ''flushed_logs'' s) r = Some ''flushed_logs'' \<and>
    srv_tasks (SetState cf r ''flushed_logs'' s) = srv_tasks s \<and>
    (\<forall>k cl j client ece. (k, cl) \<in> set (cs_clients (srv_clients s)) \<longrightarrow>
       get_client (srv_clients s) cl = Some client \<longrightarrow> (j, r) \<in> set (rc_DispatchedCmds client) \<longrightarrow>
       in_batch ece c \<longrightarrow> \<not> allFinished ece (srv_clients (SetState cf r ''flushed_logs'' s)))"
proof -
  have s: "SetState cf r ''flushed_logs'' s = set_cmd_state r ''flushed_logs'' s"
    by (rule SetState_open [OF assms(1)]) (use assms(2) in auto)
  have "\<not> allFinished ece (srv_clients (set_cmd_state r ''flushed_logs'' s))"
    if "(k, cl) \<in> set (cs_clients (srv_clients s))" "get_client (srv_clients s) cl = Some client"
      "(j, r) \<in> set (rc_DispatchedCmds client)" "in_batch ece c" for k cl j client ece
  proof
    assume "allFinished ece (srv_clients (set_cmd_state r ''flushed_logs'' s))"
    moreover have "get_client (srv_clients (set_cmd_state r ''flushed_logs'' s)) cl = Some client"
      "(k, cl) \<in> set (cs_clients (srv_clients (set_cmd_state r ''flushed_logs'' s)))" using that by simp_all
    moreover have "get_cmd (srv_clients (set_cmd_state r ''flushed_logs'' s)) r = Some (c\<lparr>cmd_State := ''flushed_logs''\<rparr>)"
      using assms(1) by simp
    moreover have "in_batch ece (c\<lparr>cmd_State := ''flushed_logs''\<rparr>)" using that(4) by (simp add: in_batch_def)
    ultimately have "cmd_State (c\<lparr>cmd_State := ''flushed_logs''\<rparr>) = ''finished''"
      using that(3) unfolding allFinished_iff by fast
    then show False by simp
  qed
  then show ?thesis unfolding s using assms(1) by simp
qed

definition finished_server :: server where
  "finished_server = set_cmd_state 0 ''finished'' ran_server"

theorem repeated_flush_report_undoes_verdict_witness:
  "cmd_state finished_server 0 = Some ''finished'' \<and>
   cmd_state (SetState sample_conf 0 ''flushed_logs'' finished_server) 0 = Some ''flushed_logs''"
proof -
  have c: "get_cmd (srv_clients finished_server) 0 = Some ((newCmd ''z'' 0 ''uptime'' 10)
      \<lparr>cmd_TemplateId := ''t1'', cmd_State := ''finished''\<rparr>)"
    using ran_server_cmd by (simp add: finished_server_def)
  from repeated_flush_report_undoes_verdict [OF c] c show ?thesis by simp
qed

section \<open>Cancelling\<close>

lemma poll_after_delete: "fst (poll_cmds b i (delete_child_cmds j cs)) = fst (poll_cmds b i cs)"
proof (cases "get_client (delete_child_cmds j cs) i")
  case None
  have "length (cs_heap (delete_child_cmds j cs)) = length (cs_heap cs)"
    unfolding delete_child_cmds_def
  proof -
    have "length (cs_heap (foldl (\<lambda>s (_, r). upd_client r (\<lambda>c. c\<lparr>rc_DispatchedCmds :=
        filter (\<lambda>(_, d). \<not> cmd_of_request s j d) (rc_DispatchedCmds c)\<rparr>) s) s m)) = length (cs_heap s)"
      for s and m :: "(string \<times> ref) list"
      by (induction m arbitrary: s) (auto simp: split_beta)
    then show "length (cs_heap (foldl (\<lambda>s (_, r). upd_client r (\<lambda>c. c\<lparr>rc_DispatchedCmds :=
        filter (\<lambda>(_, d). \<not> cmd_of_request s j d) (rc_DispatchedCmds c)\<rparr>) s) cs (cs_clients cs))) = length (cs_heap cs)" .
  qed
  with None have "get_client cs i = None" by (simp add: h_get_def split: if_splits)
  with None show ?thesis by (simp add: poll_cmds_def)
next
  case (Some c')
  with delete_child_cmds_clients [of cs j] obtain c where
    c: "get_client cs i = Some c" "rc_Cmds c' = rc_Cmds c" "rc_CmdChan c' = rc_CmdChan c"
    unfolding less_dispatched_def by blast
  with Some show ?thesis by (simp add: poll_cmds_def Let_def split_beta)
qed

text \<open>
  Cancelling a request does not recall its commands: a command that the client has not fetched yet
  is delivered by the next poll as if nothing had happened. (Its reports are then refused, since
  the command is no longer among the dispatched ones.)
\<close>

theorem cancelled_commands_still_delivered:
  "fst (poll_cmds timed_out i (srv_clients (snd (Request_Cancel user crr s)))) = fst (poll_cmds timed_out i (srv_clients s))"
  by (simp add: Request_Cancel_def Request_Delete_def Let_def poll_after_delete split: option.split)

section \<open>The external http check\<close>

text \<open>The request that a check files, once it has been checked.\<close>

lemma filed_check_request:
  assumes add: "AddRequest cf e tid cids user [] s = (Some cr, s1)"
    and check: "Request_check e cr (Request_AddCallback (HttpCheckDone (length (srv_done s1))) cr
       (s1\<lparr>srv_done := srv_done s1 @ [0]\<rparr>)) = (b, s')" (is "Request_check e cr ?t = _")
  shows "cr = length (con_heap (srv_consensus s)) \<and> length (con_heap (srv_consensus s')) = cr + 1 \<and>
    (\<exists>req. get_request s' cr = Some req \<and> cr_TemplateId req = tid \<and> cr_ClientIds req = cids \<and>
       cr_RequestUserId req = user_Id user \<and>
       (cr_Executed req \<longleftrightarrow> (\<exists>t. TemplateStore_Get (srv_templateStore s) tid = Some t \<and> acl_MinAuth (tmpl_Acl t) \<le> 1)))"
proof -
  let ?q = "new_request e tid cids user []"
  let ?d = "?q\<lparr>cr_Callbacks := [HttpCheckDone (length (srv_done s1))]\<rparr>"
  from add have s1: "cr = length (con_heap (srv_consensus s))" "get_request s1 cr = Some ?q"
      "length (con_heap (srv_consensus s1)) = cr + 1" "srv_templateStore s1 = srv_templateStore s"
    by (cases rule: AddRequest_cases; simp)+
  have t: "get_request ?t cr = Some ?d" "length (con_heap (srv_consensus ?t)) = cr + 1"
    "srv_templateStore ?t = srv_templateStore s"
    using s1 by (simp_all add: Request_AddCallback_def new_request_def)
  have passes: "check_passes ?t ?d \<longleftrightarrow> (\<exists>tm. TemplateStore_Get (srv_templateStore s) tid = Some tm \<and>
      acl_MinAuth (tmpl_Acl tm) \<le> 1)"
    by (simp add: check_passes_def request_template_def t(3) new_request_def voteCount_def TemplateStore_Get_def not_less
        split: option.split)
  have "\<exists>req. get_request s' cr = Some req \<and> cr_TemplateId req = tid \<and> cr_ClientIds req = cids \<and>
      cr_RequestUserId req = user_Id user \<and> (cr_Executed req \<longleftrightarrow> check_passes ?t ?d)"
    using t(1)
  proof (cases rule: check_request [where e = e])
    case same
    then show ?thesis using t(1) check by (intro exI [of _ ?d]) (simp add: new_request_def)
  next
    case (started d)
    have "cr_TemplateId d = tid" "cr_ClientIds d = cids" "cr_Executed d"
      "cr_RequestUserId d = user_Id user"
      using started_from_fields [OF started(3)] by (simp_all add: new_request_def)
    with started check show ?thesis by auto
  qed
  moreover have "length (con_heap (srv_consensus s')) = cr + 1"
    using check_frame(6) [of e cr ?t] t(2) check by simp
  ultimately show ?thesis using s1(1) passes by auto
qed

text \<open>
  C38: An http check starts nothing unless it exists, is enabled and the caller knows its token; and
  when it starts, it files exactly one request, for the template and clients of the check, in the
  name of the system user.
\<close>

theorem http_check_guard:
  assumes "GetHttpCheck_start cf e r s = (Inr res, s')"
  shows "case res of
      Inl reply \<Rightarrow> s' = s \<and> (\<exists>msg. reply = RError msg)
    | Inr (cr, ch) \<Rightarrow> \<exists>c req. HttpCheckStore_Get (srv_httpCheckStore s) (ParamByName r ''id'') = Some c \<and>
        hc_Enabled c \<and> hc_SecureToken c \<noteq> [] \<and> QueryGet r ''token'' = hc_SecureToken c \<and>
        cr = length (con_heap (srv_consensus s)) \<and> length (con_heap (srv_consensus s')) = cr + 1 \<and>
        get_request s' cr = Some req \<and> cr_TemplateId req = hc_TemplateId c \<and> cr_ClientIds req = hc_ClientIds c \<and>
        cr_RequestUserId req = user_Id (hs_SystemUser (srv_httpCheckStore s)) \<and>
        (cr_Executed req \<longleftrightarrow> (\<exists>t. TemplateStore_Get (srv_templateStore s) (hc_TemplateId c) = Some t \<and>
           acl_MinAuth (tmpl_Acl t) \<le> 1))"
proof (cases res)
  case (Inl reply)
  with assms show ?thesis
    by (auto simp: GetHttpCheck_start_def Let_def AddRequest_def split: option.splits prod.splits sum.splits if_splits)
next
  case (Inr p)
  then obtain cr ch where p: "res = Inr (cr, ch)" by (cases p) auto
  with assms obtain c s1 b where c: "HttpCheckStore_Get (srv_httpCheckStore s) (ParamByName r ''id'') = Some c"
      "hc_Enabled c" "hc_SecureToken c \<noteq> []" "QueryGet r ''token'' = hc_SecureToken c"
    and add: "AddRequest cf e (hc_TemplateId c) (hc_ClientIds c) (hs_SystemUser (srv_httpCheckStore s)) [] s = (Some cr, s1)"
    and check: "Request_check e cr (Request_AddCallback (HttpCheckDone (length (srv_done s1))) cr
       (s1\<lparr>srv_done := srv_done s1 @ [0]\<rparr>)) = (b, s')"
    unfolding GetHttpCheck_start_def
    by (auto simp: Let_def split: option.splits prod.splits sum.splits if_splits)
  from filed_check_request [OF add check] c p show ?thesis by auto
qed

theorem http_check_guard_witness:
  "\<exists>cr ch. fst (GetHttpCheck_start sample_conf sample_env sample_request sample_server) = Inr (Inr (cr, ch)) \<and>
    cr = 0 \<and> executed check_server 0"
proof -
  have "\<exists>cr ch. fst (GetHttpCheck_start sample_conf sample_env sample_request sample_server) = Inr (Inr (cr, ch))"
  by (simp add: check_server_defs)
  then obtain cr ch where r: "GetHttpCheck_start sample_conf sample_env sample_request sample_server
      = (Inr (Inr (cr, ch)), check_server)" by (metis prod.collapse)
  from http_check_guard [OF r] have "cr = 0" "executed check_server 0"
    by (auto simp: executed_def HttpCheckStore_Get_def sample_check_def value_of_def sample_request_def
        TemplateStore_Get_def sample_template_def)
  with r show ?thesis by (metis fst_conv)
qed

end
