(* ===== verification/Client_Process.thy ===== *)
theory Client_Process
  imports Report_Theorems
begin

text \<open>
  The client process: client.go, and NotifyServer, the log buffers and Execute of cmd.go. The process that
  is on a machine polls the server, verifies what it gets, runs it and reports. Running a process, the
  network and the parser of replies (package jason) are parameters.
\<close>

section \<open>The world of the client\<close>

text \<open>\<open>url.QueryEscape\<close>: unreserved bytes stay, a blank becomes a plus, the rest is written in hexadecimal.\<close>

definition query_char :: "char \<Rightarrow> string" where
  "query_char c =
     (let n = (of_char c :: nat)
      in if alnum c \<or> c \<in> {CHR ''-'', CHR ''_'', CHR ''.'', CHR ''~''} then [c]
         else if c = CHR '' '' then ''+''
         else [CHR ''%'', ''0123456789ABCDEF'' ! (n div 16), ''0123456789ABCDEF'' ! (n mod 16)])"

definition QueryEscape :: "string \<Rightarrow> string" where
  "QueryEscape s = concat (map query_char s)"

text \<open>A request as \<open>_reqUnsafe\<close> sends it. The body is the encoding of two lists of lines, or empty.\<close>

record out_request =
  or_Method :: string
  or_Url :: string
  or_XAuth :: string
  or_Body :: "log_struct option"

text \<open>
  How the process of a command ends: bash does not start, it runs into the timeout (and can be
  killed or not), or it ends by itself with or without an error; with what it wrote to the two
  streams.
\<close>

datatype process =
    NotStarted
  | KillFailed
  | Killed string string
  | Exited "string option" string string

text \<open>
  \<^item> \<open>net_rand\<close>: the bytes that crypto/rand yields, \<open>None\<close> for an error.
  \<^item> \<open>net_send\<close>: one request; the body of the answer, \<open>None\<close> for an error of any kind.
  \<^item> \<open>net_run\<close>: the file with the command's text is run by bash, with the timeout in seconds.
\<close>

record 'w net =
  net_rand :: "'w \<Rightarrow> string option \<times> 'w"
  net_send :: "out_request \<Rightarrow> 'w \<Rightarrow> string option \<times> 'w"
  net_run :: "string \<Rightarrow> int \<Rightarrow> 'w \<Rightarrow> process \<times> 'w"

text \<open>
  What package jason reads from the body of an answer: whether it is an object, its strings, and
  the objects of the array \<open>cmds\<close> with the fields that the client reads (a missing field yields the
  zero value).
\<close>

record json_cmd =
  jc_Id :: string
  jc_Command :: string
  jc_Signature :: string
  jc_TemplateId :: string
  jc_Timeout :: int

record json =
  js_object :: "string \<Rightarrow> bool"
  js_string :: "string \<Rightarrow> string \<Rightarrow> string option"
  js_cmds :: "string \<Rightarrow> json_cmd list"

section \<open>Requests\<close>

definition request_uri :: "string option \<Rightarrow> string \<Rightarrow> string" where
  "request_uri rand uri =
     (let uri = ''/'' @ TrimLeft (CHR ''/'') uri;
          randStr = secureRandomString_ignoring 32 rand
      in if \<not> Contains uri ''?'' then uri @ ''?_rand='' @ randStr else uri @ ''&_rand='' @ randStr)"

definition signed_request_of :: "conf \<Rightarrow> string \<Rightarrow> string \<Rightarrow> log_struct option \<Rightarrow> out_request" where
  "signed_request_of cf verb uri data =
     \<lparr>or_Method = verb, or_Url = ServerRequest cf uri,
      or_XAuth = b64_encode (sha256 (uri @ conf_Token cf)), or_Body = data\<rparr>"

definition reqUnsafe ::
  "'w net \<Rightarrow> conf \<Rightarrow> string \<Rightarrow> string \<Rightarrow> log_struct option \<Rightarrow> 'w \<Rightarrow> string option \<times> 'w"
where
  "reqUnsafe net cf verb uri data w =
     (case net_rand net w of (rand, w) \<Rightarrow> net_send net (signed_request_of cf verb (request_uri rand uri) data) w)"

text \<open>The loop of \<open>_req\<close>: \<open>n\<close> attempts are left; the waits between them are not modelled.\<close>

fun req_loop ::
  "nat \<Rightarrow> 'w net \<Rightarrow> conf \<Rightarrow> string \<Rightarrow> string \<Rightarrow> log_struct option \<Rightarrow> string option \<Rightarrow> 'w \<Rightarrow> string option \<times> 'w"
where
  "req_loop 0 net cf verb uri data bytes w = (bytes, w)"
| "req_loop (Suc n) net cf verb uri data bytes w =
     (case reqUnsafe net cf verb uri data w of
        (Some b, w) \<Rightarrow> if length b > 0 then (Some b, w) else req_loop n net cf verb uri data (Some b) w
      | (None, w) \<Rightarrow> req_loop n net cf verb uri data None w)"

definition req ::
  "'w net \<Rightarrow> conf \<Rightarrow> string \<Rightarrow> string \<Rightarrow> log_struct option \<Rightarrow> 'w \<Rightarrow> string option \<times> 'w"
where
  "req net cf verb uri data w = req_loop 10 net cf verb uri data None w"

definition get_req :: "'w net \<Rightarrow> conf \<Rightarrow> string \<Rightarrow> 'w \<Rightarrow> string option \<times> 'w" where
  "get_req net cf uri w = req net cf ''GET'' uri None w"

section \<open>The client\<close>

record client =
  cl_Id :: string
  cl_Hostname :: string
  cl_AuthToken :: string
  cl_ConnectedServerInstanceId :: string

definition newClient :: "conf \<Rightarrow> client" where
  "newClient cf =
     \<lparr>cl_Id = conf_Hostname cf, cl_Hostname = conf_Hostname cf, cl_AuthToken = [],
      cl_ConnectedServerInstanceId = []\<rparr>"

text \<open>The token is stored only if its signature with the shared token is right.\<close>

definition take_token :: "conf \<Rightarrow> json \<Rightarrow> string \<Rightarrow> client \<Rightarrow> client" where
  "take_token cf js b s =
     (if \<not> js_object js b then s
      else case js_string js b ''token'' of
        None \<Rightarrow> s
      | Some token \<Rightarrow>
          if length token < 1 then s
          else case js_string js b ''token_signature'' of
            None \<Rightarrow> s
          | Some tokenSignature \<Rightarrow>
              if length tokenSignature < 1 then s
              else
                let expectedTokenSignature = b64_encode (sha256 (token @ conf_Token cf))
                in if tokenSignature \<noteq> expectedTokenSignature then s else s\<lparr>cl_AuthToken := token\<rparr>)"

definition AuthServer :: "'w net \<Rightarrow> conf \<Rightarrow> json \<Rightarrow> client \<Rightarrow> 'w \<Rightarrow> client \<times> 'w" where
  "AuthServer net cf js s w =
     (case req net cf ''POST'' (''client/'' @ QueryEscape (cl_Id s) @ ''/auth'') None w of
        (None, w) \<Rightarrow> (s, w)
      | (Some b, w) \<Rightarrow> (take_token cf js b s, w))"

definition PingServer :: "'w net \<Rightarrow> conf \<Rightarrow> json \<Rightarrow> bool \<Rightarrow> client \<Rightarrow> 'w \<Rightarrow> client \<times> 'w" where
  "PingServer net cf js useautotag s w =
     (case get_req net cf (''client/'' @ QueryEscape (cl_Id s) @ ''/ping?tags=''
            @ QueryEscape (Join (Conf_GetTags useautotag cf) '','') @ ''&hostname='' @ QueryEscape (cl_Hostname s)) w of
        (None, w) \<Rightarrow> (s, w)
      | (Some b, w) \<Rightarrow>
          if \<not> js_object js b then (s, w)
          else
            let serverInstanceId = (case js_string js b ''server_instance_id'' of None \<Rightarrow> [] | Some i \<Rightarrow> i)
            in if js_string js b ''status'' \<noteq> Some ''OK'' then AuthServer net cf js s w
               else if length (cl_ConnectedServerInstanceId s) = 0 \<or> cl_ConnectedServerInstanceId s \<noteq> serverInstanceId
               then (s\<lparr>cl_ConnectedServerInstanceId := serverInstanceId\<rparr>, w)
               else (s, w))"

text \<open>One turn of the ticker that \<open>Start\<close> sets up.\<close>

definition tick :: "'w net \<Rightarrow> conf \<Rightarrow> json \<Rightarrow> bool \<Rightarrow> client \<Rightarrow> 'w \<Rightarrow> client \<times> 'w" where
  "tick net cf js useautotag s w =
     (case PingServer net cf js useautotag s w of
        (s, w) \<Rightarrow> if length (cl_AuthToken s) < 1 then AuthServer net cf js s w else (s, w))"

definition Client_Start :: "'w net \<Rightarrow> conf \<Rightarrow> json \<Rightarrow> bool \<Rightarrow> client \<Rightarrow> 'w \<Rightarrow> client \<times> 'w" where
  "Client_Start net cf js useautotag s w =
     (case PingServer net cf js useautotag s w of (s, w) \<Rightarrow> AuthServer net cf js s w)"

section \<open>Executing a command\<close>

text \<open>
  \<open>SetState\<close> as it acts on the client's own copy: the judgement of the output is the server's (\<open>_validate\<close>
  returns at once where the server is not enabled).
\<close>

definition local_state :: "string \<Rightarrow> cmd \<Rightarrow> cmd" where
  "local_state state c =
     (if cmd_State c = ''failed_execution'' \<and> state = ''flushed_logs''
      then c\<lparr>cmd_State := ''failed''\<rparr> else c\<lparr>cmd_State := state\<rparr>)"

definition NotifyServer :: "'w net \<Rightarrow> conf \<Rightarrow> client \<Rightarrow> string \<Rightarrow> cmd \<times> 'w \<Rightarrow> cmd \<times> 'w" where
  "NotifyServer net cf client state cw =
     (case cw of (c, w) \<Rightarrow>
        let c = local_state state c
        in if length (cmd_Signature c) > 0 then
             (c, snd (req net cf ''PUT'' (''client/'' @ QueryEscape (cl_Id client) @ ''/cmd/'' @ QueryEscape (cmd_Id c)
                        @ ''/state?state='' @ QueryEscape state) None w))
           else (c, w))"

definition flushLogs :: "'w net \<Rightarrow> conf \<Rightarrow> client \<Rightarrow> cmd \<times> 'w \<Rightarrow> cmd \<times> 'w" where
  "flushLogs net cf client cw =
     (case cw of (c, w) \<Rightarrow>
        if length (cmd_Signature c) < 1 then (c, w)
        else
          let m = \<lparr>ls_Output = cmd_BufOutput c, ls_Error = cmd_BufOutputErr c\<rparr>;
              uri = ''client/'' @ QueryEscape (cl_Id client) @ ''/cmd/'' @ QueryEscape (cmd_Id c) @ ''/logs'';
              w = snd (req net cf ''PUT'' uri (Some m) w)
          in (c\<lparr>cmd_BufOutput := [], cmd_BufOutputErr := []\<rparr>, w))"

definition checkFlushLogs :: "'w net \<Rightarrow> conf \<Rightarrow> client \<Rightarrow> cmd \<times> 'w \<Rightarrow> cmd \<times> 'w" where
  "checkFlushLogs net cf client cw =
     (if length (cmd_BufOutput (fst cw)) > 10 \<or> length (cmd_BufOutputErr (fst cw)) > 10
      then flushLogs net cf client cw else cw)"

definition LogOutput :: "'w net \<Rightarrow> conf \<Rightarrow> client \<Rightarrow> string \<Rightarrow> cmd \<times> 'w \<Rightarrow> cmd \<times> 'w" where
  "LogOutput net cf client line cw =
     (case cw of (c, w) \<Rightarrow> checkFlushLogs net cf client (c\<lparr>cmd_BufOutput := cmd_BufOutput c @ [line]\<rparr>, w))"

definition LogError :: "'w net \<Rightarrow> conf \<Rightarrow> client \<Rightarrow> string \<Rightarrow> cmd \<times> 'w \<Rightarrow> cmd \<times> 'w" where
  "LogError net cf client line cw =
     (case cw of (c, w) \<Rightarrow> checkFlushLogs net cf client (c\<lparr>cmd_BufOutputErr := cmd_BufOutputErr c @ [line]\<rparr>, w))"

text \<open>The end of \<open>Execute\<close>: the captured streams line by line, then the last flush and the last report.\<close>

definition transfer_logs :: "'w net \<Rightarrow> conf \<Rightarrow> client \<Rightarrow> string \<Rightarrow> string \<Rightarrow> cmd \<times> 'w \<Rightarrow> cmd \<times> 'w" where
  "transfer_logs net cf client out outerr cw =
     (let cw = foldl (\<lambda>cw line. LogOutput net cf client line cw) cw (Split (CHR 0x0A) out);
          cw = foldl (\<lambda>cw line. LogError net cf client line cw) cw (Split (CHR 0x0A) outerr);
          cw = flushLogs net cf client cw
      in NotifyServer net cf client ''flushed_logs'' cw)"

definition run_process :: "'w net \<Rightarrow> conf \<Rightarrow> client \<Rightarrow> cmd \<times> 'w \<Rightarrow> cmd \<times> 'w" where
  "run_process net cf client cw =
     (case cw of (c, w) \<Rightarrow>
        (case net_run net (''#!/bin/bash'' @ [CHR 0x0A] @ cmd_Command c) (cmd_Timeout c) w of
           (NotStarted, w) \<Rightarrow> NotifyServer net cf client ''failed_execution'' (c, w)
         | (KillFailed, w) \<Rightarrow> NotifyServer net cf client ''started_execution'' (c, w)
         | (Killed out outerr, w) \<Rightarrow>
             transfer_logs net cf client out outerr (NotifyServer net cf client ''killed_execution''
               (NotifyServer net cf client ''started_execution'' (c, w)))
         | (Exited None out outerr, w) \<Rightarrow>
             transfer_logs net cf client out outerr (NotifyServer net cf client ''finished_execution''
               (NotifyServer net cf client ''started_execution'' (c, w)))
         | (Exited (Some err) out outerr, w) \<Rightarrow>
             transfer_logs net cf client out outerr (LogError net cf client err
               (NotifyServer net cf client ''failed_execution''
                 (NotifyServer net cf client ''started_execution'' (c, w))))))"

text \<open>
  \<open>Execute\<close> for a command that came from a poll: a command with a wrong signature is not run, and the
  client asks for a new token.
\<close>

definition Execute_cmd :: "'w net \<Rightarrow> conf \<Rightarrow> json \<Rightarrow> client \<Rightarrow> cmd \<Rightarrow> 'w \<Rightarrow> client \<times> 'w" where
  "Execute_cmd net cf js client c w =
     (let (c, w) = NotifyServer net cf client ''validating'' (c, w);
          expectedMac = ComputeHmac c (cl_AuthToken client)
      in if expectedMac \<noteq> cmd_Signature c \<or> length (cmd_Signature c) < 1
         then let (c, w) = NotifyServer net cf client ''invalid_signature'' (c, w)
              in AuthServer net cf js client w
         else (client, snd (run_process net cf client (NotifyServer net cf client ''starting'' (c, w)))))"

definition received_cmd :: "time \<Rightarrow> client \<Rightarrow> json_cmd \<Rightarrow> cmd" where
  "received_cmd now s j =
     (newCmd [] now (jc_Command j) (jc_Timeout j))
       \<lparr>cmd_ClientId := cl_Id s, cmd_TemplateId := jc_TemplateId j, cmd_Id := jc_Id j,
        cmd_Signature := jc_Signature j\<rparr>"

fun execute_all :: "'w net \<Rightarrow> conf \<Rightarrow> json \<Rightarrow> time \<Rightarrow> json_cmd list \<Rightarrow> client \<Rightarrow> 'w \<Rightarrow> client \<times> 'w" where
  "execute_all net cf js now [] s w = (s, w)"
| "execute_all net cf js now (j # cmds) s w =
     (case Execute_cmd net cf js s (received_cmd now s j) w of (s, w) \<Rightarrow> execute_all net cf js now cmds s w)"

definition PollCmds :: "'w net \<Rightarrow> conf \<Rightarrow> json \<Rightarrow> time \<Rightarrow> client \<Rightarrow> 'w \<Rightarrow> client \<times> 'w" where
  "PollCmds net cf js now s w =
     (case get_req net cf (''client/'' @ QueryEscape (cl_Id s) @ ''/cmds'') w of
        (None, w) \<Rightarrow> (s, w)
      | (Some b, w) \<Rightarrow>
          if \<not> js_object js b then (s, w)
          else if js_string js b ''status'' \<noteq> Some ''OK'' then AuthServer net cf js s w
          else execute_all net cf js now (js_cmds js b) s w)"

lemma local_state_fields [simp]:
  "cmd_Signature (local_state st c) = cmd_Signature c" "cmd_Id (local_state st c) = cmd_Id c"
  "cmd_Command (local_state st c) = cmd_Command c" "cmd_Timeout (local_state st c) = cmd_Timeout c"
  "cmd_BufOutput (local_state st c) = cmd_BufOutput c" "cmd_BufOutputErr (local_state st c) = cmd_BufOutputErr c"
  by (simp_all add: local_state_def)

end
