(* ===== verification/Wire.thy ===== *)
theory Wire
  imports Client_Process
begin

text \<open>
  The network between client and server: what package url makes of an address, the table of routes that \<open>Start\<close>
  (server.go) registers, and how a request of the client process becomes a call of a handler. Matching a path against
  the routes is package httprouter's, a parameter.
\<close>

section \<open>Escaped bytes\<close>

text \<open>
  \<open>url.PathUnescape\<close> and \<open>url.QueryUnescape\<close>: a percent sign needs two hexadecimal digits; a plus is a blank
  in a query only.
\<close>

definition unhex :: "char \<Rightarrow> nat option" where
  "unhex c =
     (let n = (of_char c :: nat)
      in if 48 \<le> n \<and> n \<le> 57 then Some (n - 48)
         else if 97 \<le> n \<and> n \<le> 102 then Some (n - 87)
         else if 65 \<le> n \<and> n \<le> 70 then Some (n - 55)
         else None)"

definition unplus :: "bool \<Rightarrow> char \<Rightarrow> char" where
  "unplus query c = (if query \<and> c = CHR ''+'' then CHR '' '' else c)"

fun unescape :: "bool \<Rightarrow> string \<Rightarrow> string option" where
  "unescape query [] = Some []"
| "unescape query (c # s) =
     (if c = CHR ''%'' then
        (case s of
           a # b # t \<Rightarrow>
             (case (unhex a, unhex b) of
                (Some m, Some n) \<Rightarrow> map_option (Cons (char_of (16 * m + n))) (unescape query t)
              | _ \<Rightarrow> None)
         | _ \<Rightarrow> None)
      else map_option (Cons (unplus query c)) (unescape query s))"

text \<open>What escaping a byte yields, and how it is read again.\<close>

lemma unhex_hex: "n < 16 \<Longrightarrow> unhex (''0123456789ABCDEF'' ! n) = Some n"
proof -
  assume "n < 16"
  then consider "n = 0" | "n = 1" | "n = 2" | "n = 3" | "n = 4" | "n = 5" | "n = 6" | "n = 7" | "n = 8"
    | "n = 9" | "n = 10" | "n = 11" | "n = 12" | "n = 13" | "n = 14" | "n = 15" by atomize_elim arith
  then show ?thesis by cases (simp_all add: unhex_def)
qed

lemma query_char_cases:
  obtains (plain) "query_char c = [c]" "c \<noteq> CHR ''%''" "c \<noteq> CHR ''+''" "c \<noteq> CHR '' ''"
  | (blank) "c = CHR '' ''" "query_char c = ''+''"
  | (coded) m n where "m < 16" "n < 16" "c = char_of (16 * m + n)" "c \<noteq> CHR '' ''"
      "query_char c = [CHR ''%'', ''0123456789ABCDEF'' ! m, ''0123456789ABCDEF'' ! n]"
proof (cases "alnum c \<or> c \<in> {CHR ''-'', CHR ''_'', CHR ''.'', CHR ''~''}")
  case True
  then have "c \<noteq> CHR ''%''" "c \<noteq> CHR ''+''" "c \<noteq> CHR '' ''" by (auto simp: alnum_def)
  with True show ?thesis by (intro plain) (simp_all add: query_char_def Let_def)
next
  case False
  show ?thesis
  proof (cases "c = CHR '' ''")
    case True
    then show ?thesis by (intro blank) (simp_all add: query_char_def Let_def alnum_def)
  next
    case blank: False
    let ?n = "of_char c :: nat"
    show ?thesis
    proof (rule coded)
      show "query_char c = [CHR ''%'', ''0123456789ABCDEF'' ! (?n div 16), ''0123456789ABCDEF'' ! (?n mod 16)]"
        using False blank by (simp add: query_char_def Let_def)
      have "?n < 256" by simp
      then show "?n div 16 < 16" by linarith
      show "c = char_of (16 * (?n div 16) + ?n mod 16)" by simp
    qed (use blank in simp_all)
  qed
qed

lemma unescape_char [simp]:
  "unescape query (query_char c @ s) =
     map_option (Cons (if c = CHR '' '' \<and> \<not> query then CHR ''+'' else c)) (unescape query s)"
proof (cases c rule: query_char_cases)
  case (coded m n)
  then show ?thesis by (simp add: unhex_hex split: option.split)
qed (simp_all add: unplus_def)

text \<open>A path turns blanks into plus signs, a query gives every byte back.\<close>

definition path_name :: "string \<Rightarrow> string" where
  "path_name = map (\<lambda>c. if c = CHR '' '' then CHR ''+'' else c)"

lemma unescape_QueryEscape_append:
  "unescape query (QueryEscape s @ t) = map_option ((@) (if query then s else path_name s)) (unescape query t)"
proof (induction s)
  case Nil
  then show ?case by (simp add: QueryEscape_def path_name_def option.map_ident)
next
  case (Cons c s)
  then show ?case
    by (cases "unescape query t") (simp_all add: QueryEscape_def path_name_def)
qed

lemma unescape_QueryEscape [simp]:
  "unescape True (QueryEscape s) = Some s" "unescape False (QueryEscape s) = Some (path_name s)"
  using unescape_QueryEscape_append [of _ s "[]"] by simp_all

text \<open>An escaped string holds none of the characters that structure an address.\<close>

definition special :: "char \<Rightarrow> bool" where
  "special c \<longleftrightarrow> c \<in> {CHR ''/'', CHR ''?'', CHR ''&'', CHR '';'', CHR ''='', CHR ''#'', CHR '':''}"

lemma hex_not_special: "n < 16 \<Longrightarrow> \<not> special (''0123456789ABCDEF'' ! n)"
proof -
  assume "n < 16"
  then have "unhex (''0123456789ABCDEF'' ! n) \<noteq> None" by (simp add: unhex_hex)
  then show ?thesis unfolding special_def by (auto simp: unhex_def)
qed

lemma query_char_not_special: "d \<in> set (query_char c) \<Longrightarrow> \<not> special d"
proof (cases c rule: query_char_cases)
  case plain
  assume "d \<in> set (query_char c)"
  moreover have "\<not> special c" if "query_char c = [c]"
    using that by (auto simp: special_def query_char_def Let_def alnum_def split: if_splits)
  ultimately show ?thesis using plain by simp
next
  case (coded m n)
  assume "d \<in> set (query_char c)"
  with coded show ?thesis by (auto simp: hex_not_special) (simp add: special_def)
qed (simp_all add: special_def)

lemma QueryEscape_not_special: "d \<in> set (QueryEscape s) \<Longrightarrow> \<not> special d"
  using query_char_not_special by (auto simp: QueryEscape_def)

section \<open>Queries\<close>

definition cut_at :: "char \<Rightarrow> string \<Rightarrow> string \<times> string" where
  "cut_at sep s = (takeWhile (\<lambda>c. c \<noteq> sep) s, drop 1 (dropWhile (\<lambda>c. c \<noteq> sep) s))"

lemma cut_at_append: "sep \<notin> set s \<Longrightarrow> cut_at sep (s @ sep # t) = (s, t)"
proof -
  assume "sep \<notin> set s"
  then have "\<forall>x \<in> set s. x \<noteq> sep" by auto
  then show ?thesis by (simp add: cut_at_def takeWhile_append2 dropWhile_append2)
qed

text \<open>\<open>url.ParseQuery\<close>: an escape that is malformed drops its pair.\<close>

definition query_pair :: "string \<Rightarrow> (string \<times> string) option" where
  "query_pair s =
     (case cut_at (CHR ''='') s of (k, v) \<Rightarrow>
        (case (unescape True k, unescape True v) of (Some k, Some v) \<Rightarrow> Some (k, v) | _ \<Rightarrow> None))"

definition ParseQuery :: "string \<Rightarrow> (string \<times> string) list" where
  "ParseQuery s = List.map_filter query_pair (FieldsFunc (\<lambda>c. c = CHR ''&'' \<or> c = CHR '';'') s)"

lemma FieldsFunc_first:
  assumes "s \<noteq> []" "\<forall>c \<in> set s. \<not> f c" "f d"
  shows "FieldsFunc f (s @ d # t) = s # FieldsFunc f t"
proof (cases s)
  case (Cons c cs)
  then have "takeWhile (\<lambda>d. \<not> f d) (cs @ d # t) = cs" "dropWhile (\<lambda>d. \<not> f d) (cs @ d # t) = d # t"
    using assms by (simp_all add: takeWhile_append2 dropWhile_append2)
  with Cons assms show ?thesis by (simp add: FieldsFunc.simps)
qed (use assms in simp)

lemma special_simps [simp]:
  "special (CHR ''/'')" "special (CHR ''?'')" "special (CHR ''&'')" "special (CHR '';'')" "special (CHR ''='')"
  "special (CHR ''#'')" "special (CHR '':'')"
  by (simp_all add: special_def)

lemma ParseQuery_first:
  assumes "k \<noteq> []" "unescape True k = Some k" "\<forall>c \<in> set k. \<not> special c"
  shows "ParseQuery (k @ CHR ''='' # QueryEscape v @ CHR ''&'' # t) = (k, v) # ParseQuery t"
proof -
  let ?f = "\<lambda>c. c = CHR ''&'' \<or> c = CHR '';''" and ?p = "k @ CHR ''='' # QueryEscape v"
  have "\<not> ?f c" if "c \<in> set ?p" for c
  proof -
    have "c = CHR ''='' \<or> \<not> special c"
      using that assms(3) QueryEscape_not_special by (auto simp del: special_simps)
    then show ?thesis by auto
  qed
  then have "FieldsFunc ?f (?p @ CHR ''&'' # t) = ?p # FieldsFunc ?f t"
    using assms(1) by (intro FieldsFunc_first) auto
  moreover have "cut_at (CHR ''='') ?p = (k, QueryEscape v)"
    using assms(3) special_simps(5) by (intro cut_at_append) blast
  ultimately show ?thesis using assms(2) by (simp add: ParseQuery_def query_pair_def List.map_filter_def)
qed

section \<open>Routes\<close>

text \<open>The handlers that are no \<open>route\<close> of \<open>serve\<close> have definitions of their own.\<close>

datatype endpoint = Served route | Home_page | Dispatched | Http_check | Backup | Console_files

text \<open>What \<open>Start\<close> registers, in its order. The flag is the outcome of the poll's \<open>select\<close>.\<close>

definition route_table :: "bool \<Rightarrow> (string \<times> string \<times> endpoint) list" where
  "route_table timed_out =
     [(''GET'', ''/'', Home_page),
      (''GET'', ''/ping'', Served GET_ping),
      (''GET'', ''/tags'', Served GET_tags),
      (''GET'', ''/client/:clientId/ping'', Served GET_client_ping),
      (''GET'', ''/client/:clientId/cmds'', Served (GET_client_cmds timed_out)),
      (''PUT'', ''/client/:clientId/cmd/:cmd/state'', Served PUT_client_cmd_state),
      (''PUT'', ''/client/:clientId/cmd/:cmd/logs'', Served PUT_client_cmd_logs),
      (''GET'', ''/client/:clientId/cmd/:cmd/logs'', Served GET_client_cmd_logs),
      (''POST'', ''/client/:clientId/auth'', Served POST_client_auth),
      (''POST'', ''/auth'', Served POST_auth),
      (''GET'', ''/templates'', Served GET_templates),
      (''POST'', ''/template/:templateid/validation'', Served POST_template_validation),
      (''DELETE'', ''/template/:templateid/validation/:id'', Served DELETE_template_validation),
      (''POST'', ''/template'', Served POST_template),
      (''DELETE'', ''/template'', Served DELETE_template),
      (''PUT'', ''/user/password'', Served PUT_user_password),
      (''GET'', ''/clients'', Served GET_clients),
      (''GET'', ''/users'', Served GET_users),
      (''GET'', ''/users/names'', Served GET_users_names),
      (''POST'', ''/user'', Served POST_user),
      (''DELETE'', ''/user'', Served DELETE_user),
      (''PUT'', ''/user'', Served PUT_user),
      (''POST'', ''/consensus/request'', Served POST_consensus_request),
      (''DELETE'', ''/consensus/request'', Served DELETE_consensus_request),
      (''POST'', ''/consensus/approve'', Served POST_consensus_approve),
      (''GET'', ''/consensus/pending'', Served GET_consensus_pending),
      (''POST'', ''/dispatched'', Dispatched),
      (''GET'', ''/http-check/:id'', Http_check),
      (''GET'', ''/http-checks'', Served GET_http_checks),
      (''POST'', ''/http-check'', Served POST_http_check),
      (''DELETE'', ''/http-check'', Served DELETE_http_check),
      (''GET'', ''/user/2fa'', Served GET_user_2fa),
      (''PUT'', ''/user/2fa'', Served PUT_user_2fa),
      (''GET'', ''/backup/configs.zip'', Backup),
      (''GET'', ''/console/*filepath'', Console_files)]"

text \<open>
  A pattern of package httprouter against a path, segment by segment: a segment that begins with a colon matches
  one that is not empty, one that begins with a star the rest of the path.
\<close>

fun match_segments :: "string list \<Rightarrow> string list \<Rightarrow> (string \<times> string) list option" where
  "match_segments [] [] = Some []"
| "match_segments (p # ps) (s # ss) =
     (if prefix ''*'' p then Some [(tl p, CHR ''/'' # Join (s # ss) ''/'')]
      else if prefix '':'' p then
        (if s = [] then None else map_option (Cons (tl p, s)) (match_segments ps ss))
      else if p = s then match_segments ps ss
      else None)"
| "match_segments _ _ = None"

definition match_path :: "string \<Rightarrow> string \<Rightarrow> (string \<times> string) list option" where
  "match_path pattern path = match_segments (Split (CHR ''/'') pattern) (Split (CHR ''/'') path)"

text \<open>
  The router is a parameter: from the verb and the path to the handler and the values of the names. Its contract,
  as documented: a path that matches a registered pattern is handled by the handler of this pattern.
\<close>

type_synonym router = "string \<Rightarrow> string \<Rightarrow> (endpoint \<times> (string \<times> string) list) option"

definition router_contract :: "(string \<times> string \<times> endpoint) list \<Rightarrow> router \<Rightarrow> bool" where
  "router_contract table router \<longleftrightarrow>
     (\<forall>(verb, pattern, e) \<in> set table. \<forall>path ps.
        match_path pattern path = Some ps \<longrightarrow> router verb path = Some (e, ps))"

text \<open>No path matches two patterns of the same verb, so the order of registration does not matter.\<close>

fun overlap :: "string list \<Rightarrow> string list \<Rightarrow> bool" where
  "overlap [] [] = True"
| "overlap (p # ps) (q # qs) =
     (if prefix ''*'' p \<or> prefix ''*'' q then True
      else if prefix '':'' p \<or> prefix '':'' q \<or> p = q then overlap ps qs
      else False)"
| "overlap _ _ = False"

lemma match_overlap:
  "match_segments ps ss = Some a \<Longrightarrow> match_segments qs ss = Some b \<Longrightarrow> overlap ps qs"
proof (induction ps ss arbitrary: qs a b rule: match_segments.induct)
  case (2 p ps s ss)
  obtain q qs' where qs: "qs = q # qs'" using "2.prems"(2) by (cases qs) auto
  show ?case
    using 2 unfolding qs by (auto split: if_splits)
next
  case 1
  then show ?case by (cases qs) auto
qed auto

definition apart :: "(string \<times> string \<times> 'e) list \<Rightarrow> bool" where
  "apart table \<longleftrightarrow> sorted_wrt (\<lambda>(v, p, _) (w, q, _). v \<noteq> w \<or> \<not> overlap (Split (CHR ''/'') p) (Split (CHR ''/'') q)) table"

definition first_match :: "(string \<times> string \<times> endpoint) list \<Rightarrow> router" where
  "first_match table verb path =
     (case List.map_filter (\<lambda>(v, p, e). if v = verb then map_option (Pair e) (match_path p path) else None) table of
        [] \<Rightarrow> None
      | r # _ \<Rightarrow> Some r)"

lemma first_match_contract:
  assumes "apart table"
  shows "router_contract table (first_match table)"
  using assms
proof (induction table)
  case (Cons t table)
  obtain v p e where t: "t = (v, p, e)" by (cases t)
  have ih: "router_contract table (first_match table)" using Cons by (auto simp: apart_def)
  show ?case
    unfolding router_contract_def
  proof (clarify, goal_cases)
    case (1 w q e' path ps)
    show ?case
    proof (cases "(w, q, e') = t")
      case True
      then show ?thesis using 1 t by (simp add: first_match_def List.map_filter_def)
    next
      case False
      then have mem: "(w, q, e') \<in> set table" using 1 by auto
      then have "v \<noteq> w \<or> \<not> overlap (Split (CHR ''/'') p) (Split (CHR ''/'') q)"
        using Cons.prems t by (auto simp: apart_def)
      then have "v \<noteq> w \<or> match_path p path = None"
        using match_overlap [of "Split (CHR ''/'') p"] 1(2) by (cases "match_path p path") (auto simp: match_path_def)
      then have "first_match (t # table) w path = first_match table w path"
        by (auto simp: first_match_def t List.map_filter_def)
      with ih mem 1(2) show ?thesis by (fastforce simp: router_contract_def)
    qed
  qed
qed (simp add: router_contract_def)

lemma routes_apart: "apart (route_table timed_out)"
  unfolding apart_def route_table_def by code_simp

section \<open>A request on its way\<close>

text \<open>What an http client sends of an address: all that follows the scheme and the host.\<close>

definition request_target :: "string \<Rightarrow> string" where
  "request_target url = dropWhile (\<lambda>c. c \<noteq> CHR ''/'') (drop 3 (dropWhile (\<lambda>c. c \<noteq> CHR '':'') url))"

text \<open>
  What package http makes of a request, with the router: the handler and its arguments, or \<open>None\<close> if the path is
  malformed or not registered. \<open>URL.String()\<close>, that the signature is checked against, gives the target back.
\<close>

definition receive :: "router \<Rightarrow> string \<Rightarrow> out_request \<Rightarrow> (endpoint \<times> http_request) option" where
  "receive router addr q =
     (let target = request_target (or_Url q)
      in case cut_at (CHR ''?'') target of (p, query) \<Rightarrow>
           (case unescape False p of
              None \<Rightarrow> None
            | Some path \<Rightarrow>
                map_option (\<lambda>(e, ps).
                  (e, \<lparr>rq_Url = target, rq_XAuth = or_XAuth q, rq_XAuthUser = [], rq_XAuthSession = [],
                       rq_RemoteAddr = addr, rq_PostForm = [], rq_Query = ParseQuery query, rq_Params = ps,
                       rq_Body = Decoded (or_Body q)\<rparr>))
                  (router (or_Method q) path)))"

text \<open>The requests of the client process, by what they say.\<close>

datatype client_message =
    Ping_message string string
  | Poll_message
  | Auth_message
  | State_message string string
  | Logs_message string log_struct

fun message_verb :: "client_message \<Rightarrow> string" where
  "message_verb (Ping_message tags host) = ''GET''"
| "message_verb Poll_message = ''GET''"
| "message_verb Auth_message = ''POST''"
| "message_verb (State_message cid state) = ''PUT''"
| "message_verb (Logs_message cid m) = ''PUT''"

fun message_tail :: "client_message \<Rightarrow> string" where
  "message_tail (Ping_message tags host) = ''/ping?tags='' @ QueryEscape tags @ ''&hostname='' @ QueryEscape host"
| "message_tail Poll_message = ''/cmds''"
| "message_tail Auth_message = ''/auth''"
| "message_tail (State_message cid state) = ''/cmd/'' @ QueryEscape cid @ ''/state?state='' @ QueryEscape state"
| "message_tail (Logs_message cid m) = ''/cmd/'' @ QueryEscape cid @ ''/logs''"

fun message_body :: "client_message \<Rightarrow> log_struct option" where
  "message_body (Logs_message cid m) = Some m"
| "message_body _ = None"

definition say :: "'w net \<Rightarrow> conf \<Rightarrow> string \<Rightarrow> client_message \<Rightarrow> 'w \<Rightarrow> string option \<times> 'w" where
  "say net cf i msg = req net cf (message_verb msg) (''client/'' @ QueryEscape i @ message_tail msg) (message_body msg)"

text \<open>The client says nothing else.\<close>

lemma client_says:
  "AuthServer net cf js s w =
     (case say net cf (cl_Id s) Auth_message w of (None, w) \<Rightarrow> (s, w) | (Some b, w) \<Rightarrow> (take_token cf js b s, w))"
  "PollCmds net cf js now s w =
     (case say net cf (cl_Id s) Poll_message w of
        (None, w) \<Rightarrow> (s, w)
      | (Some b, w) \<Rightarrow>
          if \<not> js_object js b then (s, w)
          else if js_string js b ''status'' \<noteq> Some ''OK'' then AuthServer net cf js s w
          else execute_all net cf js now (js_cmds js b) s w)"
  "fst (say net cf (cl_Id s) (Ping_message (Join (Conf_GetTags useautotag cf) '','') (cl_Hostname s)) w) = None \<Longrightarrow>
     fst (PingServer net cf js useautotag s w) = s"
  "NotifyServer net cf s state (c, w) =
     (local_state state c, if length (cmd_Signature c) > 0
        then snd (say net cf (cl_Id s) (State_message (cmd_Id c) state) w) else w)"
  "flushLogs net cf s (c, w) =
     (if length (cmd_Signature c) < 1 then (c, w)
      else (c\<lparr>cmd_BufOutput := [], cmd_BufOutputErr := []\<rparr>,
        snd (say net cf (cl_Id s) (Logs_message (cmd_Id c) \<lparr>ls_Output = cmd_BufOutput c, ls_Error = cmd_BufOutputErr c\<rparr>) w)))"
  by (auto simp: say_def AuthServer_def PollCmds_def PingServer_def NotifyServer_def flushLogs_def get_req_def Let_def
      split: prod.split)

definition send_message :: "conf \<Rightarrow> string option \<Rightarrow> string \<Rightarrow> client_message \<Rightarrow> out_request" where
  "send_message cf rand i msg =
     signed_request_of cf (message_verb msg)
       (request_uri rand (''client/'' @ QueryEscape i @ message_tail msg)) (message_body msg)"

section \<open>What arrives\<close>

text \<open>The address of a server that is nothing but a scheme, a host and closing slashes.\<close>

definition plain_address :: "string \<Rightarrow> bool" where
  "plain_address a \<longleftrightarrow>
     (\<exists>scheme host n. a = scheme @ ''://'' @ host @ replicate n (CHR ''/'') \<and> CHR '':'' \<notin> set scheme \<and>
        host \<noteq> [] \<and> CHR ''/'' \<notin> set host)"

lemma TrimRight_replicate: "TrimRight c (s @ replicate n c) = TrimRight c s"
  by (simp add: TrimRight_def dropWhile_append)

lemma TrimRight_same: "s \<noteq> [] \<Longrightarrow> last s \<noteq> c \<Longrightarrow> TrimRight c s = s"
  by (cases s rule: rev_cases) (simp_all add: TrimRight_def)

lemma request_target_plain:
  assumes "plain_address (conf_EndpointURI cf)"
  shows "request_target (ServerRequest cf uri) = CHR ''/'' # TrimLeft (CHR ''/'') uri"
proof -
  obtain scheme host n where a: "conf_EndpointURI cf = (scheme @ ''://'' @ host) @ replicate n (CHR ''/'')"
      "CHR '':'' \<notin> set scheme" "host \<noteq> []" "CHR ''/'' \<notin> set host"
    using assms by (auto simp: plain_address_def)
  have "last host \<noteq> CHR ''/''" using a(3,4) last_in_set by metis
  then have trim: "TrimRight (CHR ''/'') (conf_EndpointURI cf) = scheme @ ''://'' @ host"
    unfolding a(1) TrimRight_replicate using a(3) by (intro TrimRight_same) simp_all
  have "\<forall>c \<in> set scheme. c \<noteq> CHR '':''" "\<forall>c \<in> set host. c \<noteq> CHR ''/''" using a(2,4) by auto
  then show ?thesis
    unfolding request_target_def ServerRequest_def trim by (simp add: dropWhile_append2 dropWhile_append3)
qed

lemma Contains_char: "Contains s [c] \<longleftrightarrow> c \<in> set s"
  by (induction s) auto

lemma path_name_simps [simp]:
  "path_name s = [] \<longleftrightarrow> s = []" "CHR ''/'' \<in> set (path_name s) \<longleftrightarrow> CHR ''/'' \<in> set s"
  by (auto simp: path_name_def)

lemma not_in_QueryEscape [simp]: "special c \<Longrightarrow> c \<notin> set (QueryEscape s)"
  using QueryEscape_not_special by blast

lemma receive_plain:
  assumes "plain_address (conf_EndpointURI cf)"
    "request_uri rand uri = CHR ''/'' # p @ CHR ''?'' # q" "CHR ''?'' \<notin> set p" "p \<noteq> []" "hd p \<noteq> CHR ''/''"
    "unescape False p = Some path" "router verb (CHR ''/'' # path) = Some (e, ps)"
  shows "\<exists>r. receive router addr (signed_request_of cf verb (request_uri rand uri) body) = Some (e, r) \<and> auth cf r \<and>
    rq_Params r = ps \<and> rq_Query r = ParseQuery q \<and> rq_Body r = Decoded body"
proof -
  have "TrimLeft (CHR ''/'') (CHR ''/'' # p @ CHR ''?'' # q) = p @ CHR ''?'' # q"
    using assms(4,5) by (cases p) (simp_all add: TrimLeft_def)
  then have target: "request_target (ServerRequest cf (request_uri rand uri)) = request_uri rand uri"
    using request_target_plain [OF assms(1)] assms(2) by simp
  have "cut_at (CHR ''?'') (request_uri rand uri) = (CHR ''/'' # p, q)"
    using cut_at_append [of "CHR ''?''" "CHR ''/'' # p"] assms(2,3) by simp
  then show ?thesis
    using assms(6,7)
    by (auto simp: receive_def signed_request_of_def target auth_def signedToken_def unplus_def Let_def)
qed


text \<open>The target of each message: a path, a question mark and a query.\<close>

fun message_path :: "client_message \<Rightarrow> string" where
  "message_path (Ping_message tags host) = ''/ping''"
| "message_path Poll_message = ''/cmds''"
| "message_path Auth_message = ''/auth''"
| "message_path (State_message cid state) = ''/cmd/'' @ QueryEscape cid @ ''/state''"
| "message_path (Logs_message cid m) = ''/cmd/'' @ QueryEscape cid @ ''/logs''"

fun message_query :: "string \<Rightarrow> client_message \<Rightarrow> string" where
  "message_query rand (Ping_message tags host) =
     ''tags='' @ QueryEscape tags @ ''&hostname='' @ QueryEscape host @ ''&_rand='' @ rand"
| "message_query rand (State_message cid state) = ''state='' @ QueryEscape state @ ''&_rand='' @ rand"
| "message_query rand _ = ''_rand='' @ rand"

lemma message_target:
  "request_uri rand (''client/'' @ QueryEscape i @ message_tail msg) =
     CHR ''/'' # (''client/'' @ QueryEscape i @ message_path msg) @ CHR ''?'' #
       message_query (secureRandomString_ignoring 32 rand) msg"
  by (cases msg) (simp_all add: request_uri_def Let_def TrimLeft_def Contains_char)

lemma message_path_no_query: "CHR ''?'' \<notin> set (''client/'' @ QueryEscape i @ message_path msg)"
  by (cases msg) simp_all

definition message_names :: "client_message \<Rightarrow> (string \<times> string) list" where
  "message_names msg =
     (case msg of State_message cid _ \<Rightarrow> [(''cmd'', path_name cid)] | Logs_message cid _ \<Rightarrow> [(''cmd'', path_name cid)]
      | _ \<Rightarrow> [])"

fun message_route :: "bool \<Rightarrow> client_message \<Rightarrow> route" where
  "message_route timed_out (Ping_message tags host) = GET_client_ping"
| "message_route timed_out Poll_message = GET_client_cmds timed_out"
| "message_route timed_out Auth_message = POST_client_auth"
| "message_route timed_out (State_message cid state) = PUT_client_cmd_state"
| "message_route timed_out (Logs_message cid m) = PUT_client_cmd_logs"

text \<open>Names that a path can carry: not empty, without a slash.\<close>

definition path_part :: "string \<Rightarrow> bool" where
  "path_part s \<longleftrightarrow> s \<noteq> [] \<and> CHR ''/'' \<notin> set s"

fun message_ok :: "client_message \<Rightarrow> bool" where
  "message_ok (State_message cid state) = path_part cid"
| "message_ok (Logs_message cid m) = path_part cid"
| "message_ok _ = True"

lemma message_routed:
  assumes "router_contract (route_table timed_out) router" "path_part i" "message_ok msg"
  shows "\<exists>path. unescape False (''client/'' @ QueryEscape i @ message_path msg) = Some path \<and>
    router (message_verb msg) (CHR ''/'' # path) =
      Some (Served (message_route timed_out msg), (''clientId'', path_name i) # message_names msg)"
proof -
  have rt: "router verb path = Some (e, ps)"
    if "(verb, pattern, e) \<in> set (route_table timed_out)" "match_path pattern path = Some ps" for verb pattern e path ps
    using assms(1) that unfolding router_contract_def by blast
  show ?thesis
    using assms(2,3) rt [of "''GET''" "''/client/:clientId/ping''"] rt [of "''GET''" "''/client/:clientId/cmds''"]
      rt [of "''POST''" "''/client/:clientId/auth''"] rt [of "''PUT''" "''/client/:clientId/cmd/:cmd/state''"]
      rt [of "''PUT''" "''/client/:clientId/cmd/:cmd/logs''"]
    by (cases msg) (auto simp: route_table_def unescape_QueryEscape_append unplus_def match_path_def Split_append
        path_part_def message_names_def)
qed

lemma unescape_plain: "CHR ''%'' \<notin> set s \<Longrightarrow> CHR ''+'' \<notin> set s \<Longrightarrow> unescape query s = Some s"
  by (induction s) (auto simp: unplus_def)

lemma ParseQuery_fields:
  "ParseQuery (''tags='' @ QueryEscape v @ CHR ''&'' # t) = (''tags'', v) # ParseQuery t"
  "ParseQuery (''hostname='' @ QueryEscape v @ CHR ''&'' # t) = (''hostname'', v) # ParseQuery t"
  "ParseQuery (''state='' @ QueryEscape v @ CHR ''&'' # t) = (''state'', v) # ParseQuery t"
  using ParseQuery_first [of "''tags''" v t] ParseQuery_first [of "''hostname''" v t] ParseQuery_first [of "''state''" v t]
  by (simp_all add: unescape_plain special_def unplus_def)

lemma message_understood:
  assumes "router_contract (route_table timed_out) router" "plain_address (conf_EndpointURI cf)"
    "path_part i" "message_ok msg"
  shows "\<exists>r. receive router addr (send_message cf rand i msg) = Some (Served (message_route timed_out msg), r) \<and>
    auth cf r \<and> ParamByName r ''clientId'' = path_name i \<and> rq_Body r = Decoded (message_body msg) \<and>
    (case msg of
       Ping_message tags host \<Rightarrow> QueryGet r ''tags'' = tags \<and> QueryGet r ''hostname'' = host
     | State_message cid state \<Rightarrow> ParamByName r ''cmd'' = path_name cid \<and> QueryGet r ''state'' = state
     | Logs_message cid m \<Rightarrow> ParamByName r ''cmd'' = path_name cid
     | _ \<Rightarrow> True)"
proof -
  let ?q = "message_query (secureRandomString_ignoring 32 rand) msg"
  obtain path where path: "unescape False (''client/'' @ QueryEscape i @ message_path msg) = Some path"
    "router (message_verb msg) (CHR ''/'' # path) =
      Some (Served (message_route timed_out msg), (''clientId'', path_name i) # message_names msg)"
    using message_routed [OF assms(1,3,4)] by blast
  obtain r where r: "receive router addr (send_message cf rand i msg) = Some (Served (message_route timed_out msg), r)"
    "auth cf r" "rq_Params r = (''clientId'', path_name i) # message_names msg" "rq_Query r = ParseQuery ?q"
    "rq_Body r = Decoded (message_body msg)"
    using receive_plain [of cf rand "''client/'' @ QueryEscape i @ message_tail msg" "''client/'' @ QueryEscape i @ message_path msg"
        ?q path router "message_verb msg" _ _ addr "message_body msg",
        OF assms(2) message_target message_path_no_query] path
    unfolding send_message_def by auto
  have "\<forall>tags host. msg = Ping_message tags host \<longrightarrow> QueryGet r ''tags'' = tags \<and> QueryGet r ''hostname'' = host"
    "\<forall>cid state. msg = State_message cid state \<longrightarrow> QueryGet r ''state'' = state"
    by (auto simp: r(4) value_of_def ParseQuery_fields [simplified])
  with r show ?thesis
    by (intro exI [of _ r]) (auto simp: value_of_def message_names_def split: client_message.split)
qed

text \<open>
  C33: What the client says, the server understands: a request of the client process reaches the handler that it is
  meant for, passes the check of its signature, and the handler reads from it what the client has put in; only that
  blanks in the names of clients and commands have become plus signs, since both stand in the path.
\<close>

theorem client_message_understood:
  assumes "router_contract (route_table timed_out) router" "plain_address (conf_EndpointURI cf)"
    "path_part i" "message_ok msg"
  shows "\<exists>r. receive router addr (send_message cf rand i msg) = Some (Served (message_route timed_out msg), r) \<and>
    auth cf r \<and> ParamByName r ''clientId'' = path_name i \<and> rq_Body r = Decoded (message_body msg) \<and>
    (case msg of
       Ping_message tags host \<Rightarrow> QueryGet r ''tags'' = tags \<and> QueryGet r ''hostname'' = host
     | State_message cid state \<Rightarrow> ParamByName r ''cmd'' = path_name cid \<and> QueryGet r ''state'' = state
     | Logs_message cid m \<Rightarrow> ParamByName r ''cmd'' = path_name cid
     | _ \<Rightarrow> True)"
  by (rule message_understood [OF assms])

text \<open>Addresses without a scheme are repaired to plain ones.\<close>

lemma digit_nat_digits: "list_all digit (nat_digits n)"
proof (induction n rule: nat_digits.induct)
  case (1 n)
  have "digit (char_of (48 + k))" if "k < 10" for k :: nat
    using that by (simp add: digit_def of_char_of take_bit_nat_eq_self)
  with 1 show ?case by (subst nat_digits.simps) simp
qed

lemma hostWithPort_chars:
  assumes "hostWithPort s = Some (m1, m2)"
  shows "CHR ''/'' \<notin> set m1" "list_all digit m2"
proof -
  have "CHR ''/'' \<notin> set (takeWhile host_char t)" for t by (auto dest: set_takeWhileD)
  with assms show "CHR ''/'' \<notin> set m1"
    by (auto simp: hostWithPort_def Let_def split: list.splits if_splits)
  show "list_all digit m2"
    using assms by (auto simp: hostWithPort_def Let_def list_all_iff split: list.splits dest!: set_takeWhileD)
qed

lemma AutoRepair_plain:
  assumes "\<not> fullUriPattern (conf_EndpointURI c)" "list_ex host_char (conf_EndpointURI c)" "conf_ServerPort c \<ge> 0"
  shows "plain_address (conf_EndpointURI (AutoRepair d c))"
proof -
  obtain m1 m2 where m: "hostWithPort (conf_EndpointURI c) = Some (m1, m2)"
    using assms(2) hostWithPort_None by (metis not_None_eq surj_pair)
  let ?port = "if m2 \<noteq> [] then m2 else itoa (conf_ServerPort c)"
  have "list_all digit ?port" using hostWithPort_chars(2) [OF m] assms(3) by (simp add: itoa_def digit_nat_digits)
  moreover have "\<not> digit (CHR ''/'')" by (simp add: digit_def)
  ultimately have "CHR ''/'' \<notin> set (m1 @ CHR '':'' # ?port)"
    using hostWithPort_chars(1) [OF m] unfolding list_all_iff by auto
  moreover have "conf_EndpointURI (AutoRepair d c) = ''https'' @ ''://'' @ (m1 @ CHR '':'' # ?port) @ replicate 1 (CHR ''/'')"
    using assms(1) m hostWithPort_host [OF m] by (simp add: AutoRepair_def Let_def)
  moreover have "CHR '':'' \<notin> set ''https''" by simp
  ultimately show ?thesis unfolding plain_address_def by blast
qed

lemma sample_plain: "plain_address (conf_EndpointURI sample_conf)"
  unfolding plain_address_def
  by (rule exI [of _ "''https''"], rule exI [of _ "''host''"], rule exI [of _ 0]) (simp add: sample_conf_def)

theorem client_message_understood_witness:
  "\<exists>r. receive (first_match (route_table False)) [] (send_message sample_conf (Some ''r'') ''c 1'' (State_message ''z'' ''a&b'')) =
      Some (Served PUT_client_cmd_state, r) \<and> ParamByName r ''clientId'' = ''c+1'' \<and> QueryGet r ''state'' = ''a&b''"
  using client_message_understood [OF first_match_contract [OF routes_apart [of False]] sample_plain, of "''c 1''"
      "State_message ''z'' ''a&b''" "[]" "Some ''r''"]
  by (auto simp: path_part_def path_name_def)

section \<open>Delivery\<close>

text \<open>
  What one request finds on its way, apart from the server's state: the router, the packages behind the handlers, the clock
  and identifiers, and the address of the sender.
\<close>

record web =
  wb_router :: router
  wb_ext :: ext
  wb_ldap :: "authenticator option"
  wb_env :: env
  wb_addr :: string

definition deliver :: "web \<Rightarrow> conf \<Rightarrow> out_request \<Rightarrow> server \<Rightarrow> server" where
  "deliver web cf q s =
     (case receive (wb_router web) (wb_addr web) q of
        Some (Served route, r) \<Rightarrow> snd (serve (wb_ext web) cf (wb_ldap web) (wb_env web) route r s)
      | _ \<Rightarrow> s)"

text \<open>Names that arrive as they are.\<close>

definition wire_name :: "string \<Rightarrow> bool" where
  "wire_name s \<longleftrightarrow> path_part s \<and> CHR '' '' \<notin> set s"

lemma path_name_same [simp]: "wire_name s \<Longrightarrow> path_name s = s"
  by (auto simp: wire_name_def path_name_def intro!: map_idI)

definition connected :: "web \<Rightarrow> conf \<Rightarrow> bool" where
  "connected web cf \<longleftrightarrow> router_contract (route_table False) (wb_router web) \<and> plain_address (conf_EndpointURI cf)"

end
