(* ===== verification/Client_Theorems.thy ===== *)
theory Client_Theorems
  imports Wire
begin

text \<open>
  What the client does: how it signs requests, which commands it runs, what it reports on a run; and,
  with the server's handlers, what the server makes of the reports.
\<close>

section \<open>Requests\<close>

text \<open>The world with a record of the requests that are sent.\<close>

definition recording :: "'w net \<Rightarrow> ('w \<times> out_request list) net" where
  "recording net =
     \<lparr>net_rand = (\<lambda>(w, qs). let (r, w) = net_rand net w in (r, w, qs)),
      net_send = (\<lambda>q (w, qs). let (b, w) = net_send net q w in (b, w, qs @ [q])),
      net_run = (\<lambda>t n (w, qs). let (p, w) = net_run net t n w in (p, w, qs))\<rparr>"

lemma reqUnsafe_recording:
  "\<exists>rand b w'. reqUnsafe net cf verb uri data w = (b, w') \<and>
     reqUnsafe (recording net) cf verb uri data (w, qs) =
       (b, w', qs @ [signed_request_of cf verb (request_uri rand uri) data])"
  by (auto simp: reqUnsafe_def recording_def Let_def split: prod.split)

lemma req_loop_recording:
  "\<exists>rands. snd (snd (req_loop n (recording net) cf verb uri data bytes (w, qs))) =
     qs @ map (\<lambda>rand. signed_request_of cf verb (request_uri rand uri) data) rands \<and> length rands \<le> n \<and>
     (n > 0 \<longrightarrow> rands \<noteq> [])"
proof (induction n arbitrary: bytes w qs)
  case (Suc n)
  obtain rand b w' where r: "reqUnsafe (recording net) cf verb uri data (w, qs) =
      (b, w', qs @ [signed_request_of cf verb (request_uri rand uri) data])"
    using reqUnsafe_recording [of net cf verb uri data w qs] by blast
  have stop: ?case if "req_loop (Suc n) (recording net) cf verb uri data bytes (w, qs) =
      (b, w', qs @ [signed_request_of cf verb (request_uri rand uri) data])"
    using that by (intro exI [of _ "[rand]"]) simp
  have go: ?case if "req_loop (Suc n) (recording net) cf verb uri data bytes (w, qs) =
      req_loop n (recording net) cf verb uri data b (w', qs @ [signed_request_of cf verb (request_uri rand uri) data])"
  proof -
    obtain rands where "snd (snd (req_loop n (recording net) cf verb uri data b (w', qs @
        [signed_request_of cf verb (request_uri rand uri) data]))) =
      (qs @ [signed_request_of cf verb (request_uri rand uri) data]) @
        map (\<lambda>rand. signed_request_of cf verb (request_uri rand uri) data) rands" "length rands \<le> n"
      using Suc.IH by blast
    then show ?thesis unfolding that by (intro exI [of _ "rand # rands"]) simp
  qed
  show ?case
  proof (cases b)
    case None
    then show ?thesis using r by (intro go) simp
  next
    case (Some body)
    then show ?thesis using r by (cases "length body > 0") (intro stop, simp, intro go, simp)
  qed
qed simp

text \<open>
  C40: What the client sends: a request is tried at least once and at most ten times, always for the same path,
  each time with a signature that the server's check accepts for the address that it is sent to.
\<close>

theorem client_requests_authenticate:
  "\<exists>new. snd (snd (req (recording net) cf verb uri data (w, qs))) = qs @ new \<and>
     1 \<le> length new \<and> length new \<le> 10 \<and>
     (\<forall>q \<in> set new. \<exists>u. or_Method q = verb \<and> or_Body q = data \<and> or_Url q = ServerRequest cf u \<and>
        prefix (''/'' @ TrimLeft (CHR ''/'') uri) u \<and>
        (\<forall>r. rq_Url r = u \<longrightarrow> rq_XAuth r = or_XAuth q \<longrightarrow> auth cf r))"
proof -
  obtain rands where r: "snd (snd (req (recording net) cf verb uri data (w, qs))) =
      qs @ map (\<lambda>rand. signed_request_of cf verb (request_uri rand uri) data) rands" "length rands \<le> 10" "rands \<noteq> []"
    using req_loop_recording [of 10 net] unfolding req_def by (metis zero_less_numeral)
  have "prefix (''/'' @ TrimLeft (CHR ''/'') uri) (request_uri rand uri)" for rand
    by (simp add: request_uri_def Let_def)
  then show ?thesis
    using r by (intro exI [of _ "map (\<lambda>rand. signed_request_of cf verb (request_uri rand uri) data) rands"])
      (auto simp: signed_request_of_def auth_def signedToken_def Suc_le_eq)
qed

text \<open>A server that never answers.\<close>

definition silent_net :: "nat net" where
  "silent_net = \<lparr>net_rand = (\<lambda>n. (Some ''r'', n)), net_send = (\<lambda>q n. (None, n)), net_run = (\<lambda>t m n. (Killed [] [], n))\<rparr>"

theorem client_requests_authenticate_witness:
  "\<exists>q. q \<in> set (snd (snd (req (recording silent_net) sample_conf ''GET'' ''client/c/cmds'' None (0, [])))) \<and>
     or_Method q = ''GET'' \<and> (\<exists>u. or_Url q = ServerRequest sample_conf u)"
proof -
  obtain new where new: "snd (snd (req (recording silent_net) sample_conf ''GET'' ''client/c/cmds'' None (0, []))) = new"
      "1 \<le> length new" "\<forall>q \<in> set new. or_Method q = ''GET'' \<and> (\<exists>u. or_Url q = ServerRequest sample_conf u)"
    using client_requests_authenticate [of silent_net sample_conf "''GET''" "''client/c/cmds''" None 0 "[]"] by auto
  then have "hd new \<in> set new" by (cases new) auto
  with new show ?thesis by auto
qed

section \<open>Signatures\<close>

text \<open>Nothing but \<open>run_process\<close> depends on what running a process does.\<close>

lemma req_run [simp]: "req (net\<lparr>net_run := g\<rparr>) = req net"
proof -
  have "req_loop n (net\<lparr>net_run := g\<rparr>) cf m u d b w = req_loop n net cf m u d b w" for n cf m u d b w
    by (induction n arbitrary: b w) (simp_all add: reqUnsafe_def split: prod.split option.split)
  then show ?thesis by (intro ext) (simp add: req_def)
qed

lemma NotifyServer_run [simp]: "NotifyServer (net\<lparr>net_run := g\<rparr>) = NotifyServer net"
  by (intro ext) (simp add: NotifyServer_def Let_def split: prod.split)

lemma AuthServer_run [simp]: "AuthServer (net\<lparr>net_run := g\<rparr>) = AuthServer net"
  by (intro ext) (simp add: AuthServer_def split: prod.split)

lemma NotifyServer_cmd: "fst (NotifyServer net cf client st (c, w)) = local_state st c"
  by (simp add: NotifyServer_def Let_def)

lemma signature_local [simp]: "ComputeHmac (local_state st c) t = ComputeHmac c t"
  by (rule ComputeHmac_cong) simp_all

text \<open>
  C18: A command whose signature does not belong to the client's token is never run: what the client does with
  it is the same whatever running a process would do, namely two reports and a new key exchange.
\<close>

theorem unsigned_command_not_run:
  assumes "\<not> signature_valid (cl_AuthToken client) c"
  shows "Execute_cmd (net\<lparr>net_run := g\<rparr>) cf js client c w = Execute_cmd net cf js client c w \<and>
    Execute_cmd net cf js client c w = AuthServer net cf js client
      (snd (NotifyServer net cf client ''invalid_signature'' (NotifyServer net cf client ''validating'' (c, w))))"
proof -
  obtain w' where c: "NotifyServer net cf client ''validating'' (c, w) = (local_state ''validating'' c, w')"
    using NotifyServer_cmd [of net cf client "''validating''" c w] by (metis prod.collapse)
  show ?thesis
    using assms c by (auto simp: Execute_cmd_def signature_valid_def split_beta Let_def)
qed

definition sample_net :: "nat net" where
  "sample_net = \<lparr>net_rand = (\<lambda>n. (Some ''r'', n)), net_send = (\<lambda>q n. (Some ''OK'', n + 1)),
     net_run = (\<lambda>t m n. (Exited None [] [], n))\<rparr>"

definition sample_json :: json where
  "sample_json = \<lparr>js_object = (\<lambda>b. True), js_string = (\<lambda>b k. None), js_cmds = (\<lambda>b. [])\<rparr>"

theorem unsigned_command_not_run_witness:
  "Execute_cmd (sample_net\<lparr>net_run := \<lambda>t m n. (Killed [] [], 0)\<rparr>) sample_conf sample_json (newClient sample_conf)
     (newCmd ''z'' 0 ''rm'' 1) 0 = Execute_cmd sample_net sample_conf sample_json (newClient sample_conf) (newCmd ''z'' 0 ''rm'' 1) 0"
  by (rule conjunct1 [OF unsigned_command_not_run]) (simp add: signature_valid_def newCmd_def)

lemma assembled_signature:
  assumes "rc_AuthToken client = b64_encode key" "c = assemble_cmd e k template crq client"
    "cmd_Id r = cmd_Id c" "cmd_Command r = cmd_Command c" "cmd_Signature r = cmd_Signature c"
  shows "signature_valid (rc_AuthToken client) r"
proof -
  have "cmd_Signature c = ComputeHmac c (b64_encode key)"
    using assms(1,2) by (auto simp: assemble_cmd_def Let_def Sign_def ComputeHmac_def split: option.split)
  moreover have "ComputeHmac r (b64_encode key) = ComputeHmac c (b64_encode key)"
    using assms(3,4) by (intro ComputeHmac_cong) simp_all
  moreover have "ComputeHmac c (b64_encode key) \<noteq> []" by (simp add: ComputeHmac_def b64_decode_encode)
  ultimately show ?thesis using assms(1,5) by (simp add: signature_valid_def Suc_le_eq)
qed

text \<open>
  C19: The two ends agree on signatures: a command that the server assembled for a client with an exchanged
  key passes the check of the client that holds the same key, however it got there, as long as text
  and identifier are unchanged.
\<close>

theorem assembled_command_verifies:
  assumes "rc_AuthToken client = b64_encode key" "cl_AuthToken cl = rc_AuthToken client"
    "c = assemble_cmd e k template crq client"
    "jc_Id j = cmd_Id c" "jc_Command j = cmd_Command c" "jc_Signature j = cmd_Signature c"
  shows "signature_valid (cl_AuthToken cl) (received_cmd now cl j)"
  using assembled_signature [OF assms(1,3), of "received_cmd now cl j"] assms(2,4-6)
  by (simp add: received_cmd_def newCmd_def)

theorem assembled_command_verifies_witness:
  "signature_valid (b64_encode ''key'') (received_cmd 5 ((newClient sample_conf)\<lparr>cl_AuthToken := b64_encode ''key''\<rparr>)
     \<lparr>jc_Id = ''idx'', jc_Command = ''uptime'',
      jc_Signature = cmd_Signature (assemble_cmd sample_env 1 sample_template (newConsensusRequest ''r'' 0) sample_client),
      jc_TemplateId = [], jc_Timeout = 0\<rparr>)"
proof -
  let ?cl = "(newClient sample_conf)\<lparr>cl_AuthToken := b64_encode ''key''\<rparr>"
  let ?c = "assemble_cmd sample_env 1 sample_template (newConsensusRequest ''r'' 0) sample_client"
  have "rc_AuthToken sample_client = b64_encode ''key''" by (simp add: sample_client_def)
  moreover have "cmd_Id ?c = ''idx''" "cmd_Command ?c = ''uptime''"
    by (simp_all add: assemble_cmd_def Let_def newCmd_def sample_env_def sample_template_def)
  ultimately show ?thesis
    using assembled_command_verifies [where client = sample_client and cl = ?cl and c = ?c and key = "''key''" and now = 5
      and e = sample_env and k = 1 and template = sample_template and crq = "newConsensusRequest ''r'' 0"
      and j = "\<lparr>jc_Id = ''idx'', jc_Command = ''uptime'', jc_Signature = cmd_Signature ?c, jc_TemplateId = [], jc_Timeout = 0\<rparr>"]
    by (simp del: b64_encode.simps)
qed

section \<open>What a reliable network carries\<close>

text \<open>A network on which every request is answered; its state is the list of the requests.\<close>

definition recorder :: "string \<Rightarrow> process \<Rightarrow> out_request list net" where
  "recorder rand p =
     \<lparr>net_rand = (\<lambda>qs. (Some rand, qs)), net_send = (\<lambda>q qs. (Some ''OK'', qs @ [q])),
      net_run = (\<lambda>t n qs. (p, qs))\<rparr>"

lemma req_recorder [simp]:
  "req (recorder rand p) cf verb uri data qs =
     (Some ''OK'', qs @ [signed_request_of cf verb (request_uri (Some rand) uri) data])"
  by (simp add: req_def reqUnsafe_def recorder_def eval_nat_numeral)

lemma run_recorder [simp]: "net_run (recorder rand p) t n qs = (p, qs)"
  by (simp add: recorder_def)

definition cmd_uri :: "client \<Rightarrow> cmd \<Rightarrow> string" where
  "cmd_uri client c = ''client/'' @ QueryEscape (cl_Id client) @ ''/cmd/'' @ QueryEscape (cmd_Id c)"

text \<open>The two reports on a command.\<close>

definition state_report :: "string \<Rightarrow> conf \<Rightarrow> client \<Rightarrow> cmd \<Rightarrow> string \<Rightarrow> out_request" where
  "state_report rand cf client c state =
     signed_request_of cf ''PUT'' (request_uri (Some rand) (cmd_uri client c @ ''/state?state='' @ QueryEscape state)) None"

definition logs_report :: "string \<Rightarrow> conf \<Rightarrow> client \<Rightarrow> cmd \<Rightarrow> log_struct \<Rightarrow> out_request" where
  "logs_report rand cf client c m =
     signed_request_of cf ''PUT'' (request_uri (Some rand) (cmd_uri client c @ ''/logs'')) (Some m)"

lemma report_cong:
  "cmd_Id c = cmd_Id d \<Longrightarrow> state_report rand cf client c = state_report rand cf client d"
  "cmd_Id c = cmd_Id d \<Longrightarrow> logs_report rand cf client c = logs_report rand cf client d"
  by (simp_all add: fun_eq_iff state_report_def logs_report_def cmd_uri_def)

lemma Notify_recorder:
  "cmd_Signature c \<noteq> [] \<Longrightarrow> NotifyServer (recorder rand p) cf client st (c, qs) =
     (local_state st c, qs @ [state_report rand cf client c st])"
  by (simp add: NotifyServer_def Let_def state_report_def cmd_uri_def)

text \<open>Lines go through the buffers of a signed command in order, in portions of at most eleven.\<close>

definition small :: "log_struct \<Rightarrow> bool" where
  "small m \<longleftrightarrow> length (ls_Output m) \<le> 11 \<and> length (ls_Error m) \<le> 11"

definition log_state :: "string \<Rightarrow> conf \<Rightarrow> client \<Rightarrow> cmd \<Rightarrow> out_request list \<Rightarrow> string list \<Rightarrow> string list \<Rightarrow>
    cmd \<times> out_request list \<Rightarrow> bool" where
  "log_state rand cf client c qs outs errs cw \<longleftrightarrow>
     (\<exists>ms d. cw = (d, qs @ map (logs_report rand cf client c) ms) \<and>
        cmd_Id d = cmd_Id c \<and> cmd_Signature d = cmd_Signature c \<and>
        concat (map ls_Output ms) @ cmd_BufOutput d = outs \<and> concat (map ls_Error ms) @ cmd_BufOutputErr d = errs \<and>
        length (cmd_BufOutput d) \<le> 10 \<and> length (cmd_BufOutputErr d) \<le> 10 \<and> (\<forall>m \<in> set ms. small m))"

lemma log_state_empty:
  assumes "cmd_BufOutput c = []" "cmd_BufOutputErr c = []"
  shows "log_state rand cf client c qs [] [] (c, qs)"
  unfolding log_state_def using assms by (intro exI [of _ "[]"] exI [of _ c]) simp

lemma flush_recorder:
  assumes "cmd_Signature d \<noteq> []" "cmd_Id d = cmd_Id c"
  shows "flushLogs (recorder rand p) cf client (d, ps) = (d\<lparr>cmd_BufOutput := [], cmd_BufOutputErr := []\<rparr>,
    ps @ [logs_report rand cf client c \<lparr>ls_Output = cmd_BufOutput d, ls_Error = cmd_BufOutputErr d\<rparr>])"
  using assms by (simp add: flushLogs_def Let_def logs_report_def cmd_uri_def)

text \<open>A line is appended to a buffer, and the buffers are flushed if one has got long.\<close>

lemma log_state_append:
  assumes "concat (map ls_Output ms) @ cmd_BufOutput d = outs" "concat (map ls_Error ms) @ cmd_BufOutputErr d = errs"
    "length (cmd_BufOutput d) \<le> 11" "length (cmd_BufOutputErr d) \<le> 11" "\<forall>m \<in> set ms. small m"
    "cmd_Signature c \<noteq> []" "cmd_Signature d = cmd_Signature c" "cmd_Id d = cmd_Id c"
  shows "log_state rand cf client c qs outs errs
    (checkFlushLogs (recorder rand p) cf client (d, qs @ map (logs_report rand cf client c) ms))"
proof (cases "length (cmd_BufOutput d) > 10 \<or> length (cmd_BufOutputErr d) > 10")
  case True
  let ?m = "\<lparr>ls_Output = cmd_BufOutput d, ls_Error = cmd_BufOutputErr d\<rparr>"
  let ?d = "d\<lparr>cmd_BufOutput := [], cmd_BufOutputErr := []\<rparr>"
  from True have "checkFlushLogs (recorder rand p) cf client (d, qs @ map (logs_report rand cf client c) ms) =
      (?d, qs @ map (logs_report rand cf client c) (ms @ [?m]))"
    using flush_recorder [of d c] assms(6-8) by (simp add: checkFlushLogs_def)
  then show ?thesis
    unfolding log_state_def using assms by (intro exI [of _ "ms @ [?m]"] exI [of _ ?d]) (simp add: small_def)
next
  case False
  then show ?thesis
    unfolding log_state_def using assms by (intro exI [of _ ms] exI [of _ d]) (simp add: checkFlushLogs_def)
qed

lemma log_state_add:
  assumes "log_state rand cf client c qs outs errs cw" "cmd_Signature c \<noteq> []"
  shows "log_state rand cf client c qs (outs @ [l]) errs (LogOutput (recorder rand p) cf client l cw)"
    "log_state rand cf client c qs outs (errs @ [l]) (LogError (recorder rand p) cf client l cw)"
proof -
  obtain ms d where cw: "cw = (d, qs @ map (logs_report rand cf client c) ms)"
      "cmd_Id d = cmd_Id c" "cmd_Signature d = cmd_Signature c"
      "concat (map ls_Output ms) @ cmd_BufOutput d = outs" "concat (map ls_Error ms) @ cmd_BufOutputErr d = errs"
      "length (cmd_BufOutput d) \<le> 10" "length (cmd_BufOutputErr d) \<le> 10" "\<forall>m \<in> set ms. small m"
    using assms(1) unfolding log_state_def by blast
  then show "log_state rand cf client c qs (outs @ [l]) errs (LogOutput (recorder rand p) cf client l cw)"
    "log_state rand cf client c qs outs (errs @ [l]) (LogError (recorder rand p) cf client l cw)"
    using assms(2) by (auto simp: LogOutput_def LogError_def intro!: log_state_append)
qed

lemma log_state_lines:
  assumes "log_state rand cf client c qs outs errs cw" "cmd_Signature c \<noteq> []"
  shows "log_state rand cf client c qs (outs @ ls) errs
      (foldl (\<lambda>cw line. LogOutput (recorder rand p) cf client line cw) cw ls)"
    "log_state rand cf client c qs outs (errs @ ls)
      (foldl (\<lambda>cw line. LogError (recorder rand p) cf client line cw) cw ls)"
  using assms(1)
proof (induction ls arbitrary: cw outs errs)
  case (Cons l ls)
  { case 1 show ?case using Cons.IH(1) [OF log_state_add(1) [OF 1 assms(2)], of l p] by simp }
  { case 2 show ?case using Cons.IH(2) [OF log_state_add(2) [OF 2 assms(2)], of l p] by simp }
qed simp_all

text \<open>The transfer, from empty buffers or after one line of error output.\<close>

lemma transfer_logs_recorder:
  assumes "log_state rand cf client c qs [] errs cw" "cmd_Signature c \<noteq> []"
  shows "\<exists>ms. snd (transfer_logs (recorder rand p) cf client out outerr cw) =
      qs @ map (logs_report rand cf client c) ms @ [state_report rand cf client c ''flushed_logs''] \<and>
    concat (map ls_Output ms) = Split (CHR 0x0A) out \<and> concat (map ls_Error ms) = errs @ Split (CHR 0x0A) outerr \<and>
    (\<forall>m \<in> set ms. small m)"
proof -
  let ?cw = "foldl (\<lambda>cw line. LogError (recorder rand p) cf client line cw)
    (foldl (\<lambda>cw line. LogOutput (recorder rand p) cf client line cw) cw (Split (CHR 0x0A) out)) (Split (CHR 0x0A) outerr)"
  have "log_state rand cf client c qs (Split (CHR 0x0A) out) (errs @ Split (CHR 0x0A) outerr) ?cw"
    using log_state_lines(2) [OF log_state_lines(1) [OF assms] assms(2)] by simp
  then obtain ms d where cw: "?cw = (d, qs @ map (logs_report rand cf client c) ms)"
      "cmd_Id d = cmd_Id c" "cmd_Signature d = cmd_Signature c"
      "concat (map ls_Output ms) @ cmd_BufOutput d = Split (CHR 0x0A) out"
      "concat (map ls_Error ms) @ cmd_BufOutputErr d = errs @ Split (CHR 0x0A) outerr"
      "length (cmd_BufOutput d) \<le> 10" "length (cmd_BufOutputErr d) \<le> 10" "\<forall>m \<in> set ms. small m"
    unfolding log_state_def by blast
  let ?m = "\<lparr>ls_Output = cmd_BufOutput d, ls_Error = cmd_BufOutputErr d\<rparr>"
  have "snd (transfer_logs (recorder rand p) cf client out outerr cw) =
      qs @ map (logs_report rand cf client c) (ms @ [?m]) @ [state_report rand cf client c ''flushed_logs'']"
    unfolding transfer_logs_def Let_def cw(1)
    using assms(2) cw(2,3) flush_recorder [of d c] by (simp add: Notify_recorder report_cong(1) [of "d\<lparr>cmd_BufOutput := [], cmd_BufOutputErr := []\<rparr>" c])
  with cw show ?thesis by (intro exI [of _ "ms @ [?m]"]) (simp add: small_def)
qed

section \<open>A complete run\<close>

text \<open>What a client reports on a command: a state, or portions of the two streams.\<close>

datatype report = Report_State string | Report_Logs log_struct

fun sent :: "string \<Rightarrow> conf \<Rightarrow> client \<Rightarrow> cmd \<Rightarrow> report \<Rightarrow> out_request" where
  "sent rand cf client c (Report_State state) = state_report rand cf client c state"
| "sent rand cf client c (Report_Logs m) = logs_report rand cf client c m"

lemma sent_logs [simp]: "sent rand cf client c \<circ> Report_Logs = logs_report rand cf client c"
  by (simp add: fun_eq_iff)

text \<open>
  The ends of a process after which the streams are transferred: the state reported, the lines added to the
  error stream, and the two streams.
\<close>

fun ending :: "process \<Rightarrow> (string \<times> string list \<times> string \<times> string) option" where
  "ending NotStarted = None"
| "ending KillFailed = None"
| "ending (Killed out outerr) = Some (''killed_execution'', [], out, outerr)"
| "ending (Exited None out outerr) = Some (''finished_execution'', [], out, outerr)"
| "ending (Exited (Some err) out outerr) = Some (''failed_execution'', [err], out, outerr)"

definition run_reports :: "string \<Rightarrow> log_struct list \<Rightarrow> report list" where
  "run_reports st ms = map Report_State [''validating'', ''starting'', ''started_execution'', st]
     @ map Report_Logs ms @ [Report_State ''flushed_logs'']"

lemma run_reported:
  assumes "signature_valid (cl_AuthToken client) c" "cmd_BufOutput c = []" "cmd_BufOutputErr c = []"
    "ending p = Some (st, errs, out, outerr)"
  shows "\<exists>ms. Execute_cmd (recorder rand p) cf js client c [] = (client, map (sent rand cf client c) (run_reports st ms)) \<and>
    concat (map ls_Output ms) = Split (CHR 0x0A) out \<and> concat (map ls_Error ms) = errs @ Split (CHR 0x0A) outerr \<and>
    (\<forall>m \<in> set ms. length (ls_Output m) \<le> 11 \<and> length (ls_Error m) \<le> 11)"
proof -
  let ?net = "recorder rand p"
  let ?d = "local_state st (local_state ''started_execution'' (local_state ''starting'' (local_state ''validating'' c)))"
  let ?qs = "map (state_report rand cf client c) [''validating'', ''starting'', ''started_execution'', st]"
  let ?cw = "foldl (\<lambda>cw line. LogError ?net cf client line cw) (?d, ?qs) errs"
  have sig: "cmd_Signature c \<noteq> []" "ComputeHmac c (cl_AuthToken client) = cmd_Signature c"
    using assms(1) by (simp_all add: signature_valid_def)
  note reports = report_cong(1) [of "local_state s d" d for s d]
  have "log_state rand cf client ?d ?qs [] [] (?d, ?qs)"
    by (rule log_state_empty) (simp_all add: assms)
  from log_state_lines(2) [OF this, of errs p] have logs: "log_state rand cf client ?d ?qs [] errs ?cw"
    using sig by simp
  have ex: "Execute_cmd ?net cf js client c [] = (client, snd (transfer_logs ?net cf client out outerr ?cw))"
    using sig assms(4) by (cases p rule: ending.cases)
      (auto simp: Execute_cmd_def Notify_recorder run_process_def reports)
  have "logs_report rand cf client ?d = logs_report rand cf client c" "state_report rand cf client ?d = state_report rand cf client c"
    by (rule report_cong; simp)+
  with transfer_logs_recorder [OF logs, of p out outerr] sig show ?thesis
    unfolding ex by (auto simp: small_def run_reports_def)
qed

text \<open>
  C20: A complete run, on a network that loses nothing: the client reports the states in order, then all
  lines of both streams in order and each once, in portions of at most eleven lines, and only then
  that everything is transferred. A process that fails adds its error to the error lines.
\<close>

theorem execution_reports:
  assumes "signature_valid (cl_AuthToken client) c" "cmd_BufOutput c = []" "cmd_BufOutputErr c = []"
    "ending p = Some (st, errs, out, outerr)"
  shows "\<exists>ms. Execute_cmd (recorder rand p) cf js client c [] = (client, map (sent rand cf client c) (run_reports st ms)) \<and>
    concat (map ls_Output ms) = Split (CHR 0x0A) out \<and> concat (map ls_Error ms) = errs @ Split (CHR 0x0A) outerr \<and>
    (\<forall>m \<in> set ms. length (ls_Output m) \<le> 11 \<and> length (ls_Error m) \<le> 11)"
  by (rule run_reported [OF assms])

text \<open>A signed command, for the client that holds the key.\<close>

definition signed_cmd :: cmd where
  "signed_cmd = Sign (b64_encode ''key'') (newCmd ''z'' 0 ''uptime'' 10)"

abbreviation signed_client :: client where
  "signed_client \<equiv> (newClient sample_conf)\<lparr>cl_AuthToken := b64_encode ''key''\<rparr>"

lemma signed_cmd_valid: "signature_valid (cl_AuthToken signed_client) signed_cmd"
proof -
  have "ComputeHmac signed_cmd (b64_encode ''key'') = cmd_Signature signed_cmd"
    unfolding signed_cmd_def Sign_simps by (rule ComputeHmac_cong) (simp_all add: Sign_def)
  moreover have "ComputeHmac signed_cmd (b64_encode ''key'') \<noteq> []"
    by (simp add: ComputeHmac_def b64_decode_encode del: b64_encode.simps)
  ultimately show ?thesis by (simp add: signature_valid_def Suc_le_eq del: b64_encode.simps)
qed

lemma signed_cmd_bufs: "cmd_BufOutput signed_cmd = []" "cmd_BufOutputErr signed_cmd = []"
  by (simp_all add: signed_cmd_def Sign_def newCmd_def)

theorem execution_reports_witness:
  "last (snd (Execute_cmd (recorder ''r'' (Exited None ''up'' [])) sample_conf sample_json signed_client signed_cmd [])) =
     state_report ''r'' sample_conf signed_client signed_cmd ''flushed_logs''"
  using execution_reports [OF signed_cmd_valid signed_cmd_bufs, of "Exited None ''up'' []" "''finished_execution''" "[]" "''up''" "[]"
      "''r''" sample_conf sample_json]
  by (auto simp: run_reports_def simp del: b64_encode.simps)

section \<open>The reports arrive\<close>

abbreviation arrive :: "web \<Rightarrow> string \<Rightarrow> conf \<Rightarrow> client \<Rightarrow> cmd \<Rightarrow> server \<Rightarrow> report \<Rightarrow> server" where
  "arrive web rand cf client c s rep \<equiv> deliver web cf (sent rand cf client c rep) s"

declare sent.simps [simp del] sent_logs [simp del]

text \<open>The server knows the client, and under the command's identifier the object at \<open>r\<close>.\<close>

definition has_cmd :: "client \<Rightarrow> cmd \<Rightarrow> ref \<Rightarrow> cmd \<Rightarrow> server \<Rightarrow> bool" where
  "has_cmd client c r d s \<longleftrightarrow>
     (\<exists>k rc. GetClient (srv_clients s) (cl_Id client) = Some k \<and> get_client (srv_clients s) k = Some rc \<and>
        gm_get (rc_DispatchedCmds rc) (cmd_Id c) = Some r) \<and> get_cmd (srv_clients s) r = Some d"

text \<open>The two ends agree on the names, which the addresses can carry.\<close>

definition talks :: "web \<Rightarrow> conf \<Rightarrow> client \<Rightarrow> cmd \<Rightarrow> bool" where
  "talks web cf client c \<longleftrightarrow> connected web cf \<and> wire_name (cl_Id client) \<and> wire_name (cmd_Id c)"

lemma sent_message:
  "sent rand cf client c (Report_State st) = send_message cf (Some rand) (cl_Id client) (State_message (cmd_Id c) st)"
  "sent rand cf client c (Report_Logs m) = send_message cf (Some rand) (cl_Id client) (Logs_message (cmd_Id c) m)"
  by (simp_all add: sent.simps state_report_def logs_report_def send_message_def cmd_uri_def)

lemma arrive_state:
  assumes "has_cmd client c r d s" "talks web cf client c"
  shows "arrive web rand cf client c s (Report_State st) = SetState cf r st s"
proof -
  obtain q where q: "receive (wb_router web) (wb_addr web) (sent rand cf client c (Report_State st)) =
      Some (Served PUT_client_cmd_state, q)" "auth cf q" "ParamByName q ''clientId'' = cl_Id client"
      "ParamByName q ''cmd'' = cmd_Id c" "QueryGet q ''state'' = st"
    using assms(2) message_understood [of False "wb_router web" cf "cl_Id client" "State_message (cmd_Id c) st"]
    by (auto simp: talks_def connected_def wire_name_def sent_message)
  with assms(1) show ?thesis
    by (auto simp: deliver_def has_cmd_def PutClientCmdState_def request_client_def dispatched_cmd_def reply_ok_def)
qed

lemma arrive_logs:
  assumes "has_cmd client c r d s" "talks web cf client c"
  shows "arrive web rand cf client c s (Report_Logs m) = on_clients (upd_cmd r (append_logs m)) s"
proof -
  obtain q where q: "receive (wb_router web) (wb_addr web) (sent rand cf client c (Report_Logs m)) =
      Some (Served PUT_client_cmd_logs, q)" "auth cf q" "ParamByName q ''clientId'' = cl_Id client"
      "ParamByName q ''cmd'' = cmd_Id c" "rq_Body q = Decoded (Some m)"
    using assms(2) message_understood [of False "wb_router web" cf "cl_Id client" "Logs_message (cmd_Id c) m"]
    by (auto simp: talks_def connected_def wire_name_def sent_message)
  with assms(1) show ?thesis
    by (auto simp: deliver_def has_cmd_def PutClientCmdLogs_def request_client_def dispatched_cmd_def reply_ok_def)
qed

lemma has_cmd_state:
  "has_cmd client c r d s \<Longrightarrow> has_cmd client c r (d\<lparr>cmd_State := st\<rparr>) (set_cmd_state r st s)"
  by (auto simp: has_cmd_def GetClient_def)

lemma has_cmd_logs:
  "has_cmd client c r d s \<Longrightarrow> has_cmd client c r (append_logs m d) (on_clients (upd_cmd r (append_logs m)) s)"
  by (auto simp: has_cmd_def GetClient_def)

text \<open>Portions of logs are put together again.\<close>

lemma arrive_portions:
  assumes "has_cmd client c r d s" "talks web cf client c"
  shows "has_cmd client c r (append_logs \<lparr>ls_Output = concat (map ls_Output ms), ls_Error = concat (map ls_Error ms)\<rparr> d)
      (foldl (arrive web rand cf client c) s (map Report_Logs ms)) \<and>
    srv_templateStore (foldl (arrive web rand cf client c) s (map Report_Logs ms)) = srv_templateStore s"
  using assms(1)
proof (induction ms arbitrary: s d)
  case Nil
  then show ?case by (simp add: append_logs_def)
next
  case (Cons m ms)
  show ?case using Cons.IH [OF has_cmd_logs [OF Cons.prems, of m]] Cons.prems
    by (simp add: arrive_logs [OF Cons.prems assms(2)] append_logs_def)
qed

text \<open>Reports of states before the last are stored.\<close>

lemma arrive_states:
  assumes "has_cmd client c r d s" "''flushed_logs'' \<notin> set sts" "sts \<noteq> []" "talks web cf client c"
  shows "has_cmd client c r (d\<lparr>cmd_State := last sts\<rparr>) (foldl (arrive web rand cf client c) s (map Report_State sts)) \<and>
    srv_templateStore (foldl (arrive web rand cf client c) s (map Report_State sts)) = srv_templateStore s"
  using assms(1-3)
proof (induction sts arbitrary: s d)
  case (Cons st sts)
  have "arrive web rand cf client c s (Report_State st) = set_cmd_state r st s"
    using Cons.prems unfolding arrive_state [OF Cons.prems(1) assms(4)] by (auto simp: has_cmd_def intro: SetState_other)
  with Cons.IH [OF has_cmd_state [OF Cons.prems(1), of st]] has_cmd_state [OF Cons.prems(1), of st] Cons.prems(2)
  show ?case by (cases "sts = []") (simp_all)
qed simp

text \<open>The last report.\<close>

definition verdict :: "template \<Rightarrow> string \<Rightarrow> cmd \<Rightarrow> string" where
  "verdict t st c =
     (if st = ''finished_execution'' then
        if \<forall>v \<in> set (tmpl_ValidationRules t). rule_satisfied c v then ''finished'' else ''failed_validation''
      else if st = ''failed_execution'' then ''failed'' else ''flushed_logs'')"

lemma rule_satisfied_state [simp]: "rule_satisfied (c\<lparr>cmd_State := st\<rparr>) v = rule_satisfied c v"
  by (simp add: rule_satisfied_def rule_stream_def Let_def)

lemma arrive_last:
  assumes "has_cmd client c r d s" "conf_ServerEnabled cf"
    "TemplateStore_Get (srv_templateStore s) (cmd_TemplateId d) = Some t" "talks web cf client c"
  shows "get_cmd (srv_clients (arrive web rand cf client c s (Report_State ''flushed_logs''))) r =
    Some (d\<lparr>cmd_State := verdict t (cmd_State d) d\<rparr>)"
proof -
  have d: "get_cmd (srv_clients s) r = Some d" using assms(1) by (simp add: has_cmd_def)
  let ?s = "set_cmd_state r ''flushed_logs'' s"
  have d': "get_cmd (srv_clients ?s) r = Some (d\<lparr>cmd_State := ''flushed_logs''\<rparr>)" using d by simp
  show ?thesis unfolding arrive_state [OF assms(1,4)]
    using validate_eq [OF assms(2) d', of t] assms(3)
    by (cases "cmd_State d = ''finished_execution''"; cases "cmd_State d = ''failed_execution''")
      (simp_all add: d verdict_def SetState_judged [OF d] SetState_failed [OF d] SetState_open [OF d] failed_validation_iff
        Coordinator_Get_def Let_def split: option.split)
qed

lemma run_arrives:
  assumes "has_cmd client c r d s" "conf_ServerEnabled cf"
    "TemplateStore_Get (srv_templateStore s) (cmd_TemplateId d) = Some t" "st \<noteq> ''flushed_logs''"
    "cmd_BufOutput d = []" "cmd_BufOutputErr d = []" "talks web cf client c"
  shows "get_cmd (srv_clients (foldl (arrive web rand cf client c) s (run_reports st ms))) r =
    Some (d\<lparr>cmd_BufOutput := concat (map ls_Output ms), cmd_BufOutputErr := concat (map ls_Error ms),
            cmd_State := verdict t st (d\<lparr>cmd_BufOutput := concat (map ls_Output ms),
              cmd_BufOutputErr := concat (map ls_Error ms)\<rparr>)\<rparr>)"
proof -
  let ?sts = "[''validating'', ''starting'', ''started_execution'', st]"
  let ?a = "foldl (arrive web rand cf client c)"
  let ?s1 = "?a s (map Report_State ?sts)" and ?d1 = "d\<lparr>cmd_State := st\<rparr>"
  let ?s2 = "?a ?s1 (map Report_Logs ms)"
  let ?d2 = "append_logs \<lparr>ls_Output = concat (map ls_Output ms), ls_Error = concat (map ls_Error ms)\<rparr> ?d1"
  have 1: "has_cmd client c r ?d1 ?s1 \<and> srv_templateStore ?s1 = srv_templateStore s"
    using arrive_states [OF assms(1) _ _ assms(7), of ?sts rand] assms(4) by simp
  have 2: "has_cmd client c r ?d2 ?s2 \<and> srv_templateStore ?s2 = srv_templateStore ?s1"
    by (rule arrive_portions [OF conjunct1 [OF 1] assms(7)])
  have "get_cmd (srv_clients (arrive web rand cf client c ?s2 (Report_State ''flushed_logs''))) r =
      Some (?d2\<lparr>cmd_State := verdict t (cmd_State ?d2) ?d2\<rparr>)"
    using 1 2 assms(3) by (intro arrive_last [OF conjunct1 [OF 2] assms(2) _ assms(7)]) (simp add: append_logs_def)
  moreover have "?a s (run_reports st ms) = arrive web rand cf client c ?s2 (Report_State ''flushed_logs'')"
    by (simp add: run_reports_def)
  ultimately show ?thesis using assms(5,6)
    by (simp add: append_logs_def verdict_def rule_satisfied_def rule_stream_def Let_def)
qed

text \<open>
  C16: From the machine to the verdict: the requests that the client sends for a run of a signed command, routed to the server's
  handlers in order, leave the server with the complete output, line by line, and with the state that the run deserves: finished if
  all rules of the template are satisfied by that output, failed or failed validation otherwise; a command that
  was killed by its timeout stays in a state that is neither.
\<close>

theorem run_judged:
  assumes "signature_valid (cl_AuthToken client) c" "cmd_BufOutput c = []" "cmd_BufOutputErr c = []"
    "ending p = Some (st, errs, out, outerr)" "talks web cf client c"
    "has_cmd client c r d s" "conf_ServerEnabled cf" "cmd_BufOutput d = []" "cmd_BufOutputErr d = []"
    "TemplateStore_Get (srv_templateStore s) (cmd_TemplateId d) = Some t"
  shows "\<exists>requests. Execute_cmd (recorder rand p) cf js client c [] = (client, requests) \<and>
    get_cmd (srv_clients (foldl (\<lambda>s q. deliver web cf q s) s requests)) r =
      Some (let judged = d\<lparr>cmd_BufOutput := Split (CHR 0x0A) out, cmd_BufOutputErr := errs @ Split (CHR 0x0A) outerr\<rparr>
            in judged\<lparr>cmd_State := verdict t st judged\<rparr>)"
proof -
  have "st \<noteq> ''flushed_logs''" using assms(4) by (cases p rule: ending.cases) auto
  then show ?thesis
    using run_reported [OF assms(1-4), of rand cf js] run_arrives [OF assms(6,7,10) _ assms(8,9,5), of st rand]
    by (auto simp: Let_def foldl_map)
qed

text \<open>A server that waits for the reports on the signed command.\<close>

definition waiting_server :: server where
  "waiting_server = on_clients (\<lambda>cs. cs\<lparr>cs_clients := [(cl_Id signed_client, 0)],
     cs_heap := [sample_client\<lparr>rc_DispatchedCmds := [(cmd_Id signed_cmd, 0)]\<rparr>],
     cs_cmds := [signed_cmd\<lparr>cmd_TemplateId := ''t1''\<rparr>]\<rparr>) sample_server"

definition sample_web :: web where
  "sample_web = \<lparr>wb_router = first_match (route_table False), wb_ext = sample_ext, wb_ldap = None,
     wb_env = sample_env, wb_addr = []\<rparr>"

theorem run_judged_witness:
  "\<exists>requests. snd (Execute_cmd (recorder ''r'' (Killed [] [])) sample_conf sample_json signed_client signed_cmd []) = requests \<and>
     map_option cmd_State (get_cmd (srv_clients
       (foldl (\<lambda>s q. deliver sample_web sample_conf q s) waiting_server requests)) 0) = Some ''flushed_logs''"
proof -
  let ?d = "signed_cmd\<lparr>cmd_TemplateId := ''t1''\<rparr>"
  have has: "has_cmd signed_client signed_cmd 0 ?d waiting_server"
    by (simp add: has_cmd_def waiting_server_def GetClient_def h_get_def)
  have "cmd_Id signed_cmd = ''z''" by (simp add: signed_cmd_def Sign_def newCmd_def)
  then have "wire_name (cl_Id signed_client)" "wire_name (cmd_Id signed_cmd)"
    by (simp_all add: wire_name_def path_part_def newClient_def sample_conf_def)
  then have talks: "talks sample_web sample_conf signed_client signed_cmd"
    using first_match_contract [OF routes_apart] sample_plain by (simp add: talks_def connected_def sample_web_def)
  have "conf_ServerEnabled sample_conf" by (simp add: sample_conf_def)
  moreover have "TemplateStore_Get (srv_templateStore waiting_server) (cmd_TemplateId ?d) = Some sample_template"
    by (simp add: waiting_server_def TemplateStore_Get_def)
  ultimately obtain requests where
    "Execute_cmd (recorder ''r'' (Killed [] [])) sample_conf sample_json signed_client signed_cmd [] = (signed_client, requests)"
    "map_option cmd_State (get_cmd (srv_clients
       (foldl (\<lambda>s q. deliver sample_web sample_conf q s) waiting_server requests)) 0) = Some ''flushed_logs''"
    using run_judged [OF signed_cmd_valid signed_cmd_bufs _ talks has, of "Killed [] []" "''killed_execution''" "[]" "[]" "[]"
        sample_template "''r''" sample_json] signed_cmd_bufs
    by (auto simp: Let_def verdict_def simp del: b64_encode.simps)
  then show ?thesis by (metis snd_conv)
qed

end
