(* ===== verification/Addressing.thy ===== *)
theory Addressing
  imports Client_Theorems
begin

text \<open>
  Commands reach the machine that they name: a property of the server's state that every step keeps.
\<close>

section \<open>Every command is on its way to the machine that it names\<close>

definition home :: "server \<Rightarrow> ref \<Rightarrow> cmd \<Rightarrow> bool" where
  "home s cl c \<longleftrightarrow> (\<exists>k. get_client (srv_clients s) cl = Some k \<and> rc_ClientId k = cmd_ClientId c)"

definition entries_addressed :: "server \<Rightarrow> bool" where
  "entries_addressed s \<longleftrightarrow>
     (\<forall>er ece p. get_entry s er = Some ece \<longrightarrow> p \<in> set (ece_cmds ece) \<longrightarrow> home s (pc_Client p) (pc_Cmd p))"

definition tasks_addressed :: "server \<Rightarrow> bool" where
  "tasks_addressed s \<longleftrightarrow> (\<forall>cl c er. TSubmit cl c er \<in> set (srv_tasks s) \<longrightarrow> home s cl c)"

definition queues_addressed :: "client_store \<Rightarrow> bool" where
  "queues_addressed cs \<longleftrightarrow>
     (\<forall>r client k ref. get_client cs r = Some client \<longrightarrow> (k, ref) \<in> set (rc_Cmds client) \<longrightarrow>
        (\<exists>c. get_cmd cs ref = Some c \<and> cmd_ClientId c = rc_ClientId client))"

definition addressed :: "server \<Rightarrow> bool" where
  "addressed s \<longleftrightarrow> entries_addressed s \<and> tasks_addressed s \<and> queues_addressed (srv_clients s)"

text \<open>Clients and commands may change, but not who they are.\<close>

definition clients_stay :: "client_store \<Rightarrow> client_store \<Rightarrow> bool" where
  "clients_stay cs cs' \<longleftrightarrow>
     (\<forall>r k. get_client cs r = Some k \<longrightarrow> (\<exists>k'. get_client cs' r = Some k' \<and> rc_ClientId k' = rc_ClientId k))"

lemma clients_stay_refl [simp]: "clients_stay cs cs"
  by (simp add: clients_stay_def)

lemma home_stays: "home s cl c \<Longrightarrow> clients_stay (srv_clients s) (srv_clients s') \<Longrightarrow> home s' cl c"
  unfolding home_def clients_stay_def by metis

lemma addressed_frame:
  assumes "addressed s" "clients_stay (srv_clients s) (srv_clients s')" "queues_addressed (srv_clients s')"
    "srv_executionCoordinator s' = srv_executionCoordinator s"
    "\<And>cl c er. TSubmit cl c er \<in> set (srv_tasks s') \<Longrightarrow> TSubmit cl c er \<in> set (srv_tasks s)"
  shows "addressed s'"
  using assms home_stays [OF _ assms(2)]
  unfolding addressed_def entries_addressed_def tasks_addressed_def by (simp, blast)

lemma addressed_same:
  assumes "addressed s" "srv_clients s' = srv_clients s" "srv_executionCoordinator s' = srv_executionCoordinator s"
    "\<And>cl c er. TSubmit cl c er \<in> set (srv_tasks s') \<Longrightarrow> TSubmit cl c er \<in> set (srv_tasks s)"
  shows "addressed s'"
  using assms by (intro addressed_frame [OF assms(1)]) (simp_all add: addressed_def)

lemma addressed_audit:
  "addressed s \<Longrightarrow> addressed (audit usr title m s)" "addressed s \<Longrightarrow> addressed (audit_submit i c s)"
  by (rule addressed_same; simp)+

text \<open>Queues that only lose or keep commands.\<close>

lemma queues_stay:
  assumes "queues_addressed cs"
    "\<And>r k'. get_client cs' r = Some k' \<Longrightarrow> rc_Cmds k' = [] \<or>
      (\<exists>k. get_client cs r = Some k \<and> rc_ClientId k' = rc_ClientId k \<and> rc_Cmds k' = rc_Cmds k)"
    "\<And>r c. get_cmd cs r = Some c \<Longrightarrow> \<exists>c'. get_cmd cs' r = Some c' \<and> cmd_ClientId c' = cmd_ClientId c"
  shows "queues_addressed cs'"
  unfolding queues_addressed_def
proof (intro allI impI)
  fix r client k ref
  assume c: "get_client cs' r = Some client" "(k, ref) \<in> set (rc_Cmds client)"
  then obtain d where "get_client cs r = Some d" "rc_ClientId client = rc_ClientId d" "rc_Cmds client = rc_Cmds d"
    using assms(2) by fastforce
  with c(2) show "\<exists>c. get_cmd cs' ref = Some c \<and> cmd_ClientId c = rc_ClientId client"
    using assms(1,3) unfolding queues_addressed_def by metis
qed

lemma addressed_on_clients:
  assumes "addressed s"
    "\<And>r k. get_client (srv_clients s) r = Some k \<Longrightarrow>
      \<exists>k'. get_client (f (srv_clients s)) r = Some k' \<and> rc_ClientId k' = rc_ClientId k"
    "\<And>r k'. get_client (f (srv_clients s)) r = Some k' \<Longrightarrow> rc_Cmds k' = [] \<or>
      (\<exists>k. get_client (srv_clients s) r = Some k \<and> rc_ClientId k' = rc_ClientId k \<and> rc_Cmds k' = rc_Cmds k)"
    "\<And>r c. get_cmd (srv_clients s) r = Some c \<Longrightarrow>
      \<exists>c'. get_cmd (f (srv_clients s)) r = Some c' \<and> cmd_ClientId c' = cmd_ClientId c"
  shows "addressed (on_clients f s)"
  using queues_stay [of "srv_clients s" "f (srv_clients s)"] assms
  by (intro addressed_frame [OF assms(1)]) (simp_all add: addressed_def clients_stay_def)

lemma addressed_Next:
  assumes "addressed s"
  shows "addressed (snd (Next er s))"
proof (cases "get_entry s er")
  case None
  then show ?thesis using assms by (simp add: Next_def)
next
  case (Some ece)
  have cb: "addressed (snd (ExecuteCallbacks e s))" for e
    using assms by (intro addressed_same [OF assms]) (auto simp: ExecuteCallbacks_def split: option.splits)
  from Some show ?thesis
  proof (cases rule: Next_cases)
    case (started n)
    let ?new = "upd_entry er (\<lambda>e. e\<lparr>ece_cmds := take (length (ece_cmds ece) - nat n) (ece_cmds ece),
        ece_iteration := ece_iteration ece + 1\<rparr>) s"
    let ?ts = "submit_tasks er (take (nat n) (rev (ece_cmds ece)))"
    have own: "home s (pc_Client p) (pc_Cmd p)" if "p \<in> set (ece_cmds ece)" for p
      using assms Some that by (auto simp: addressed_def entries_addressed_def)
    have home: "home (start_tasks ?ts ?new) = home s" by (simp add: home_def fun_eq_iff)
    have "entries_addressed (start_tasks ?ts ?new)"
      using assms own Some unfolding entries_addressed_def home addressed_def
      by (auto dest!: in_set_takeD split: if_splits)
    moreover have "tasks_addressed (start_tasks ?ts ?new)"
      using assms own unfolding tasks_addressed_def home addressed_def
      by (auto simp: submit_tasks_def dest!: in_set_takeD)
    ultimately show ?thesis using assms unfolding started(5) by (simp add: addressed_def)
  qed (simp_all add: cb assms)
qed


lemma addressed_Execute:
  assumes "addressed s" "get_request s crr = Some c"
  shows "addressed (snd (Execute e st crr s))"
  using assms(2)
proof (cases rule: Execute_cases [where e = e and strategy = st])
  case (runs ps)
  let ?s = "Coordinator_Add (cr_Id c) st ps s"
  have home: "home ?s = home s" by (simp add: home_def fun_eq_iff)
  have "home s (pc_Client p) (pc_Cmd p)" if "p \<in> set ps" for p
    using runs(1) that by (rule assemble_cmds_cases) (simp add: home_def)
  then have "entries_addressed ?s"
    using assms(1) unfolding addressed_def entries_addressed_def home
    by (auto simp: Coordinator_Add_def Let_def split: if_splits)
  moreover have "tasks_addressed ?s" "queues_addressed (srv_clients ?s)"
    using assms(1) unfolding addressed_def tasks_addressed_def home by simp_all
  ultimately show ?thesis using addressed_Next unfolding runs(2) addressed_def by blast
qed (use assms in simp)

lemma addressed_start:
  assumes "addressed s"
  shows "addressed (snd (Request_start e crr s))"
proof (cases "\<exists>c. get_request s crr = Some c \<and> can_start s c")
  case True
  then obtain c where c: "get_request s crr = Some c" "can_start s c" by blast
  then show ?thesis
  proof (rule start_runs [where e = e])
    fix st t r
    assume r: "Execute e st crr (starting e crr s) = r"
      and eq: "Request_start e crr s = (case r of (Inl p, u) \<Rightarrow> (Inl p, u)
        | (Inr _, u) \<Rightarrow> (Inr True, upd_request crr (\<lambda>c. c\<lparr>cr_CompleteTime := unix (env_now e)\<rparr>) u))"
    have "addressed (starting e crr s)" using assms by (rule addressed_same) (simp_all add: starting_def)
    then have "addressed (snd r)"
      using addressed_Execute [of "starting e crr s" crr] c(1) r by (auto simp: starting_def)
    then show ?thesis
      unfolding eq by (cases r; cases "fst r") (auto elim: addressed_same)
  qed
next
  case False
  then show ?thesis using assms by (auto simp: Request_start_def can_start_def split: option.split)
qed

lemma addressed_check: "addressed s \<Longrightarrow> addressed (snd (Request_check e crr s))"
  by (auto simp: Request_check_def addressed_start split: option.split)

lemma in_gm_setD: "(k', v') \<in> set (gm_set k v m) \<Longrightarrow> (k', v') \<in> set m \<or> v' = v"
  by (erule in_gm_set_cases) simp_all

lemma addressed_Submit:
  assumes "addressed s" "home s cl c"
  shows "addressed (on_clients (Submit cl c) s)"
proof (rule addressed_frame [OF assms(1)])
  show "clients_stay (srv_clients s) (srv_clients (on_clients (Submit cl c) s))"
    by (auto simp: clients_stay_def Submit_def Let_def)
  show "queues_addressed (srv_clients (on_clients (Submit cl c) s))"
    unfolding queues_addressed_def
  proof (intro allI impI)
    fix r client k ref
    assume *: "get_client (srv_clients (on_clients (Submit cl c) s)) r = Some client" "(k, ref) \<in> set (rc_Cmds client)"
    then obtain d where d: "get_client (srv_clients s) r = Some d" "rc_ClientId client = rc_ClientId d"
      "(k, ref) \<in> set (rc_Cmds d) \<or> r = cl \<and> ref = length (cs_cmds (srv_clients s))"
      by (auto simp: Submit_def Let_def split: if_splits dest!: in_gm_setD)
    from d(3) show "\<exists>c'. get_cmd (srv_clients (on_clients (Submit cl c) s)) ref = Some c' \<and> cmd_ClientId c' = rc_ClientId client"
    proof
      assume "(k, ref) \<in> set (rc_Cmds d)"
      then obtain c' where "get_cmd (srv_clients s) ref = Some c'" "cmd_ClientId c' = rc_ClientId d"
        using assms(1) d(1) unfolding addressed_def queues_addressed_def by blast
      then show ?thesis using d(2) by (auto simp: Submit_def Let_def dest: h_get_Some_less)
    next
      assume "r = cl \<and> ref = length (cs_cmds (srv_clients s))"
      then show ?thesis using assms(2) d by (auto simp: home_def Submit_def Let_def)
    qed
  qed
qed simp_all


lemma addressed_goroutine:
  assumes "addressed s" "srv_tasks s = ts @ task # us"
    "run_task cf task (s\<lparr>srv_tasks := ts @ us\<rparr>) = Some (res, s')"
  shows "addressed s'"
proof -
  let ?s = "s\<lparr>srv_tasks := ts @ us\<rparr>"
  have s: "addressed ?s" by (rule addressed_same [OF assms(1)]) (auto simp: assms(2))
  show ?thesis
  proof (cases task)
    case (TNext er)
    then show ?thesis using assms(3) addressed_Next [OF s, of er] by (simp add: run_task_def)
  next
    case (TCallback cb r)
    then have "run_callback cf cb r ?s = Some (res, s')" using assms(3) by (simp add: run_task_def)
    then show ?thesis
      by (intro addressed_same [OF s]) (auto simp: run_callback_def split: callback.splits option.splits if_splits)
  next
    case (TSubmit cl c er)
    have "home ?s cl c" using assms(1,2) TSubmit by (auto simp: addressed_def tasks_addressed_def home_def)
    then have "home ?s cl (c\<lparr>cmd_ExecutionIterationId := i\<rparr>)" for i by (simp add: home_def)
    then show ?thesis
      using assms(3) TSubmit s by (auto simp: run_task_def run_submit_def Let_def intro!: addressed_audit addressed_Submit split: option.splits)
  qed
qed

lemma delete_child_cmds_addresses:
  "get_client (delete_child_cmds i cs) r = Some k' \<Longrightarrow>
     \<exists>k. get_client cs r = Some k \<and> rc_ClientId k' = rc_ClientId k \<and> rc_Cmds k' = rc_Cmds k"
  "get_client cs r = Some k \<Longrightarrow> \<exists>k'. get_client (delete_child_cmds i cs) r = Some k' \<and> rc_ClientId k' = rc_ClientId k"
proof -
  let ?f = "\<lambda>s (_ :: string, r). upd_client r (\<lambda>c. c\<lparr>rc_DispatchedCmds :=
        filter (\<lambda>(_, d). \<not> cmd_of_request s i d) (rc_DispatchedCmds c)\<rparr>) s"
  have fold: "map_option (\<lambda>k. (rc_ClientId k, rc_Cmds k)) (get_client (foldl ?f cs m) r) =
      map_option (\<lambda>k. (rc_ClientId k, rc_Cmds k)) (get_client cs r)" for m cs
    by (induction m arbitrary: cs) (auto simp: option.map_comp comp_def)
  then have eq: "map_option (\<lambda>k. (rc_ClientId k, rc_Cmds k)) (get_client (delete_child_cmds i cs) r) =
      map_option (\<lambda>k. (rc_ClientId k, rc_Cmds k)) (get_client cs r)"
    by (simp add: delete_child_cmds_def)
  show "get_client (delete_child_cmds i cs) r = Some k' \<Longrightarrow>
     \<exists>k. get_client cs r = Some k \<and> rc_ClientId k' = rc_ClientId k \<and> rc_Cmds k' = rc_Cmds k"
    "get_client cs r = Some k \<Longrightarrow> \<exists>k'. get_client (delete_child_cmds i cs) r = Some k' \<and> rc_ClientId k' = rc_ClientId k"
    using eq by (cases "get_client cs r"; auto)+
qed

lemma addressed_Delete: "addressed s \<Longrightarrow> addressed (snd (Request_Delete crr s))"
proof -
  assume a: "addressed s"
  have "addressed (on_clients (delete_child_cmds i) s)" for i
    using delete_child_cmds_addresses by (intro addressed_on_clients [OF a]) auto
  then show ?thesis
    using a by (auto simp: Request_Delete_def Let_def split: option.split intro: addressed_same [of "on_clients (delete_child_cmds i) s" for i])
qed


interpretation addressed_stays: server_property addressed x ldap cf for x ldap cf
proof unfold_locales
  fix s now k tags assume "addressed s"
  then show "addressed (on_clients (RegisterClient now k tags) s)"
    by (rule addressed_on_clients)
      (auto simp: RegisterClient_def Let_def newRegisteredClient_def split: option.splits if_splits dest: h_get_Some_less)
next
  fix s timed_out c rs cs assume "addressed s" "poll_cmds timed_out c (srv_clients s) = (rs, cs)"
  then show "addressed (on_clients (\<lambda>_. cs) s)"
    by (elim addressed_on_clients)
      (auto simp: poll_cmds_def Let_def split_beta take_pending_heap split: option.splits if_splits)
next
  fix s d m assume "addressed s"
  then show "addressed (on_clients (upd_cmd d (append_logs m)) s)"
    by (rule addressed_on_clients) (auto simp: append_logs_def)
next
  fix s d st assume "addressed s"
  then show "addressed (set_cmd_state d st s)"
    unfolding set_cmd_state_def by (rule addressed_on_clients) auto
next
  fix s i er assume "addressed s"
  then show "addressed (start_tasks [TNext er] s)" by (rule addressed_same) auto
next
  fix s e tid cids user reason v s' assume "addressed s" "AddRequest cf e tid cids user reason s = (v, s')"
  then show "addressed s'" by (auto simp: AddRequest_def Let_def split: if_splits elim: addressed_same)
next
  fix s e user cr assume "addressed s"
  then have "addressed (vote user cr s)" unfolding vote_def by (rule addressed_same) simp_all
  with \<open>addressed s\<close> show "addressed (snd (Request_Approve e user cr s))"
    by (cases "get_request s cr") (simp add: Request_Approve_def, simp add: Approve_snd addressed_check)
next
  fix s now c assume "addressed s"
  then show "addressed (on_clients (snd \<circ> GetDispatchedCmds now c) s)"
    by (rule addressed_on_clients) (auto simp: GetDispatchedCmds_def Let_def split: option.splits if_splits)
next
  fix s now assume "addressed s"
  then show "addressed (on_clients (CleanupClients now) s)"
    by (rule addressed_on_clients) (auto simp: CleanupClients_def)
next
  fix s c tok assume "addressed s"
  then show "addressed (on_clients (upd_client c (\<lambda>d. d\<lparr>rc_AuthToken := tok\<rparr>)) s)"
    by (rule addressed_on_clients) (auto split: if_splits)
next
  fix s ts task us s'
  assume "addressed s" "srv_tasks s = ts @ task # us"
    "run_task cf task (s\<lparr>srv_tasks := ts @ us\<rparr>) = Some (Inr (), s')"
  then show "addressed s'" by (rule addressed_goroutine)
qed (auto simp: addressed_check addressed_Delete Request_AddCallback_def elim!: addressed_same)

end
