(* ===== verification/Machines.thy ===== *)
theory Machines
  imports Addressing
begin

text \<open>
  The whole system: the server of Server\_Steps together with any number of machines that run the client process, and what can be
  said of the scripts that these machines are ever started with.
\<close>

section \<open>Machines\<close>

text \<open>
  A machine runs one client process: its configuration, its client, and the commands that its last poll brought and that it
  has not executed yet. Each is kept with the server's pointer to the command, which the machine does not see.
\<close>

record machine =
  mc_conf :: conf
  mc_client :: client
  mc_todo :: "(ref \<times> cmd) list"

text \<open>A script that bash has been started with: where, for which command, its text and timeout.\<close>

record script_run =
  run_machine :: ref
  run_ref :: ref
  run_script :: string
  run_timeout :: int

record system =
  sys_server :: server
  sys_machines :: "machine heap"
  sys_runs :: "script_run list"

text \<open>What the client reads of a command that the server has encoded.\<close>

definition json_cmd_of :: "cmd \<Rightarrow> json_cmd" where
  "json_cmd_of c =
     \<lparr>jc_Id = cmd_Id c, jc_Command = cmd_Command c, jc_Signature = cmd_Signature c,
      jc_TemplateId = cmd_TemplateId c, jc_Timeout = cmd_Timeout c\<rparr>"

text \<open>The commands that a poll that is woken takes.\<close>

definition polled_refs :: "http_request \<Rightarrow> server \<Rightarrow> ref list" where
  "polled_refs r s =
     (case request_client r s of
        None \<Rightarrow> []
      | Some (i, c) \<Rightarrow> (case fst (poll_cmds False i (srv_clients s)) of None \<Rightarrow> [] | Some rs \<Rightarrow> rs))"

text \<open>The world of the client with a record of the scripts that bash is started with.\<close>

definition logging :: "'w net \<Rightarrow> ('w \<times> (string \<times> int) list) net" where
  "logging net =
     \<lparr>net_rand = (\<lambda>(w, log). let (r, w) = net_rand net w in (r, w, log)),
      net_send = (\<lambda>q (w, log). let (b, w) = net_send net q w in (b, w, log)),
      net_run = (\<lambda>t n (w, log). let (p, w) = net_run net t n w in (p, w, log @ [(t, n)]))\<rparr>"

text \<open>
  The steps of the whole: any step of the server, with whatever requests, lost or repeated; a poll whose answer a machine
  gets; the execution of the next command; a turn of a machine's ticker; a new key exchange. What machines hear
  from the network other than the commands, and what running a script does, is arbitrary.
\<close>

inductive system_step ::
  "ext \<Rightarrow> conf \<Rightarrow> authenticator option \<Rightarrow> router \<Rightarrow> json \<Rightarrow> 'w net \<Rightarrow> system \<Rightarrow> system \<Rightarrow> bool"
  for x cf ldap router js net where
  server: "server_step x cf ldap (sys_server S) s' \<Longrightarrow> system_step x cf ldap router js net S (S\<lparr>sys_server := s'\<rparr>)"
| fetch: "h_get (sys_machines S) i = Some m \<Longrightarrow> mc_todo m = [] \<Longrightarrow>
    receive router addr (send_message (mc_conf m) rand (cl_Id (mc_client m)) Poll_message) =
      Some (Served (GET_client_cmds False), r) \<Longrightarrow>
    serve x cf ldap e (GET_client_cmds False) r (sys_server S) = (Inr (ROk [(''cmds'', VCmds ds)]), s') \<Longrightarrow>
    system_step x cf ldap router js net S
      (S\<lparr>sys_server := s',
         sys_machines := h_upd i (\<lambda>m. m\<lparr>mc_todo := zip (polled_refs r (sys_server S))
           (map (\<lambda>d. received_cmd now (mc_client m) (json_cmd_of d)) ds)\<rparr>) (sys_machines S)\<rparr>)"
| execute: "h_get (sys_machines S) i = Some m \<Longrightarrow> mc_todo m = (ref, c) # todo \<Longrightarrow>
    Execute_cmd (logging net) (mc_conf m) js (mc_client m) c (w, []) = (cl, w', log) \<Longrightarrow>
    system_step x cf ldap router js net S
      (S\<lparr>sys_machines := h_upd i (\<lambda>m. m\<lparr>mc_client := cl, mc_todo := todo\<rparr>) (sys_machines S),
         sys_runs := sys_runs S @ map (\<lambda>(t, n). \<lparr>run_machine = i, run_ref = ref, run_script = t, run_timeout = n\<rparr>) log\<rparr>)"
| tick: "h_get (sys_machines S) i = Some m \<Longrightarrow> tick net (mc_conf m) js useautotag (mc_client m) w = (cl, w') \<Longrightarrow>
    system_step x cf ldap router js net S
      (S\<lparr>sys_machines := h_upd i (\<lambda>m. m\<lparr>mc_client := cl\<rparr>) (sys_machines S)\<rparr>)"
| reauth: "h_get (sys_machines S) i = Some m \<Longrightarrow> AuthServer net (mc_conf m) js (mc_client m) w = (cl, w') \<Longrightarrow>
    system_step x cf ldap router js net S
      (S\<lparr>sys_machines := h_upd i (\<lambda>m. m\<lparr>mc_client := cl\<rparr>) (sys_machines S)\<rparr>)"

abbreviation system_steps ::
  "ext \<Rightarrow> conf \<Rightarrow> authenticator option \<Rightarrow> router \<Rightarrow> json \<Rightarrow> 'w net \<Rightarrow> system \<Rightarrow> system \<Rightarrow> bool"
where
  "system_steps x cf ldap router js net \<equiv> (system_step x cf ldap router js net)\<^sup>*\<^sup>*"

text \<open>Machines that have nothing to do yet and can be addressed.\<close>

definition idle :: "system \<Rightarrow> bool" where
  "idle S \<longleftrightarrow> sys_runs S = [] \<and>
     list_all (\<lambda>m. mc_todo m = [] \<and> plain_address (conf_EndpointURI (mc_conf m)) \<and> path_part (cl_Id (mc_client m)))
       (sys_machines S)"

section \<open>What a machine runs\<close>

lemma req_loop_logging: "snd (snd (req_loop n (logging net) cf verb uri data bytes w)) = snd w"
  by (induction n arbitrary: bytes w)
    (auto simp: reqUnsafe_def logging_def Let_def split: prod.split option.split)

lemma req_logging [simp]: "snd (snd (req (logging net) cf verb uri data w)) = snd w"
  by (simp add: req_def req_loop_logging)

lemma reports_logging [simp]:
  "snd (snd (NotifyServer (logging net) cf client st cw)) = snd (snd cw)"
  "snd (snd (flushLogs (logging net) cf client cw)) = snd (snd cw)"
  by (auto simp: NotifyServer_def flushLogs_def Let_def split: prod.split)

lemma lines_logging [simp]:
  "snd (snd (LogOutput (logging net) cf client line cw)) = snd (snd cw)"
  "snd (snd (LogError (logging net) cf client line cw)) = snd (snd cw)"
  by (auto simp: LogOutput_def LogError_def checkFlushLogs_def split: prod.split)

lemma fold_lines_logging [simp]:
  "snd (snd (foldl (\<lambda>cw line. LogOutput (logging net) cf client line cw) cw ls)) = snd (snd cw)"
  "snd (snd (foldl (\<lambda>cw line. LogError (logging net) cf client line cw) cw ls)) = snd (snd cw)"
  by (induction ls arbitrary: cw) simp_all

lemma transfer_logging [simp]: "snd (snd (transfer_logs (logging net) cf client out outerr cw)) = snd (snd cw)"
  by (simp add: transfer_logs_def Let_def)

lemma AuthServer_logging [simp]: "snd (snd (AuthServer (logging net) cf js cl w)) = snd w"
  using req_logging [of net cf "''POST''" _ None w] unfolding AuthServer_def
  by (auto split: prod.split option.split simp del: req_logging) (metis snd_conv)+

definition script :: "cmd \<Rightarrow> string" where
  "script c = ''#!/bin/bash'' @ [CHR 0x0A] @ cmd_Command c"

lemma run_process_logging:
  "snd (snd (run_process (logging net) cf client cw)) = snd (snd cw) @ [(script (fst cw), cmd_Timeout (fst cw))]"
proof -
  obtain c w log where cw: "cw = (c, w, log)" by (cases cw)
  obtain p w' where p: "net_run net (script c) (cmd_Timeout c) w = (p, w')" by (cases "net_run net (script c) (cmd_Timeout c) w")
  have run: "net_run (logging net) (''#!/bin/bash'' @ [CHR 0x0A] @ cmd_Command c) (cmd_Timeout c) (w, log) =
      (p, w', log @ [(script c, cmd_Timeout c)])"
    using p by (simp add: logging_def script_def)
  show ?thesis
  proof (cases p)
    case (Exited err out outerr)
    then show ?thesis by (cases err) (simp_all add: cw run_process_def run del: append.simps)
  qed (simp_all add: cw run_process_def run del: append.simps)
qed

text \<open>A machine starts one script for a command whose signature belongs to its token, and none otherwise.\<close>

lemma Execute_runs:
  "snd (snd (Execute_cmd (logging net) cf js client c (w, log))) =
     log @ (if signature_valid (cl_AuthToken client) c then [(script c, cmd_Timeout c)] else [])"
proof -
  have fst: "fst (NotifyServer net cf client st cw) = local_state st (fst cw)" for net :: "'b net" and st cw
    by (cases cw) (simp add: NotifyServer_cmd)
  have script: "script (local_state st d) = script d" for st d by (simp add: script_def)
  show ?thesis
    by (simp add: Execute_cmd_def signature_valid_def split_beta Let_def run_process_logging fst script)
qed

lemma AuthServer_keeps_id [simp]: "cl_Id (fst (AuthServer net cf js client w)) = cl_Id client"
  by (auto simp: AuthServer_def take_token_def Let_def split: prod.split option.split)

lemma Execute_keeps_id: "cl_Id (fst (Execute_cmd net cf js client c w)) = cl_Id client"
  by (simp add: Execute_cmd_def split_beta Let_def)

lemma tick_keeps_id: "cl_Id (fst (tick net cf js auto client w)) = cl_Id client"
proof -
  have "cl_Id (fst (PingServer net cf js auto client w)) = cl_Id client"
    by (auto simp: PingServer_def Let_def split: prod.split option.split)
  then show ?thesis by (auto simp: tick_def split_beta)
qed

section \<open>What a poll brings\<close>

lemma map_filter_the: "(\<And>x. x \<in> set xs \<Longrightarrow> f x \<noteq> None) \<Longrightarrow> List.map_filter f xs = map (the \<circ> f) xs"
  by (induction xs) (auto simp: List.map_filter_def)

lemma fetch_facts:
  assumes "serve x cf ldap e (GET_client_cmds False) r s = (Inr (ROk [(''cmds'', VCmds ds)]), s')"
    "server_ok s" "addressed s"
  shows "length ds = length (polled_refs r s)" "distinct (polled_refs r s)"
    "\<forall>ref \<in> set (polled_refs r s). \<exists>d. get_cmd (srv_clients s) ref = Some d \<and> cmd_Pending d"
    "\<forall>(ref, d) \<in> set (zip (polled_refs r s) ds). handed_out d ref s' \<and> cmd_ClientId d = ParamByName r ''clientId''"
    "server_step x cf ldap s s'"
proof -
  show "server_step x cf ldap s s'" using assms(1) by (rule server_step.request) simp
  obtain i c res cs where f: "request_client r s = Some (i, c)" "poll_cmds False i (srv_clients s) = (res, cs)"
      "s' = on_clients (\<lambda>_. cs) s"
      "ds = (case res of None \<Rightarrow> [] | Some rs \<Rightarrow> List.map_filter (get_cmd cs) rs)"
    using assms(1) by (auto simp: ClientCmds_def split: if_splits option.splits prod.splits)
  have refs: "polled_refs r s = (case res of None \<Rightarrow> [] | Some rs \<Rightarrow> rs)" by (simp add: polled_refs_def f)
  have i: "get_client (srv_clients s) i = Some c" "GetClient (srv_clients s) (ParamByName r ''clientId'') = Some i"
    using f(1) by (auto simp: request_client_def split: option.splits)
  have id: "rc_ClientId c = ParamByName r ''clientId''"
    using client_store_okD(2) [OF server_okD(1) [OF assms(2)] gm_get_in] i unfolding GetClient_def by fastforce
  have ok: "cmd_map_ok (srv_clients s) (rc_Cmds c)"
    using client_store_okD(3) [OF server_okD(1) [OF assms(2)] i(1)] by (simp add: client_ok_def)
  have facts: "length ds = length (polled_refs r s) \<and> distinct (polled_refs r s) \<and>
    (\<forall>ref \<in> set (polled_refs r s). \<exists>d. get_cmd (srv_clients s) ref = Some d \<and> cmd_Pending d) \<and>
    (\<forall>(ref, d) \<in> set (zip (polled_refs r s) ds). handed_out d ref s' \<and> cmd_ClientId d = ParamByName r ''clientId'')"
  proof (cases res)
    case None
    then show ?thesis by (simp add: refs f(4))
  next
    case (Some rs)
    note poll = f(2) [unfolded Some]
    obtain cl where cl: "get_client (srv_clients s) i = Some cl"
        "rs = fst (take_pending (rc_Cmds cl) (cs_cmds (srv_clients s)))"
        "cs_cmds cs = snd (take_pending (rc_Cmds cl) (cs_cmds (srv_clients s)))"
      using poll by (elim poll_cmds_Some) auto
    then have [simp]: "cl = c" using i(1) by simp
    have rs: "rs = filter (is_pending (srv_clients s)) (map snd (rc_Cmds c))"
      using take_pending_refs [OF cmd_map_ok_distinct_refs [OF ok]] cl(2) by (simp add: is_pending_def [abs_def])
    have dist: "distinct rs" using rs cmd_map_ok_distinct_refs [OF ok] by simp
    have each: "\<exists>d. get_cmd (srv_clients s) ref = Some d \<and> cmd_Pending d \<and> cmd_ClientId d = rc_ClientId c \<and>
        get_cmd cs ref = Some (d\<lparr>cmd_Pending := False\<rparr>)" if mem: "ref \<in> set rs" for ref
    proof -
      obtain k where k: "(k, ref) \<in> set (rc_Cmds c)" using mem rs by auto
      then obtain d where d: "get_cmd (srv_clients s) ref = Some d" "cmd_ClientId d = rc_ClientId c"
        using assms(3) i(1) unfolding addressed_def queues_addressed_def by blast
      moreover have "cmd_Pending d" using mem rs d(1) by (simp add: is_pending_def)
      moreover have "get_cmd cs ref = Some (d\<lparr>cmd_Pending := False\<rparr>)"
        using k d(1) cl(3) by (force simp: take_pending_heap)
      ultimately show ?thesis by blast
    qed
    have "List.map_filter (get_cmd cs) rs = map (the \<circ> get_cmd cs) rs"
      using each by (intro map_filter_the) force
    then have ds: "ds = map (the \<circ> get_cmd cs) rs" by (simp add: f(4) Some)
    show ?thesis
      using each dist id by (force simp: refs Some ds f(3) zip_map2 zip_same_conv_map handed_out_def)
  qed
  then show "length ds = length (polled_refs r s)" "distinct (polled_refs r s)"
    "\<forall>ref \<in> set (polled_refs r s). \<exists>d. get_cmd (srv_clients s) ref = Some d \<and> cmd_Pending d"
    "\<forall>(ref, d) \<in> set (zip (polled_refs r s) ds). handed_out d ref s' \<and> cmd_ClientId d = ParamByName r ''clientId''"
    by blast+
qed

section \<open>The invariant of the whole\<close>

definition from_cmd :: "server \<Rightarrow> string \<Rightarrow> ref \<Rightarrow> string \<Rightarrow> int \<Rightarrow> bool" where
  "from_cmd s name ref text timeout \<longleftrightarrow>
     (\<exists>d. handed_out d ref s \<and> cmd_ClientId d = name \<and> text = script d \<and> timeout = timeout_or_default (cmd_Timeout d))"

definition machine_ok :: "server \<Rightarrow> machine \<Rightarrow> bool" where
  "machine_ok s m \<longleftrightarrow>
     plain_address (conf_EndpointURI (mc_conf m)) \<and> path_part (cl_Id (mc_client m)) \<and>
     (\<forall>(ref, c) \<in> set (mc_todo m). from_cmd s (path_name (cl_Id (mc_client m))) ref (script c) (cmd_Timeout c))"

definition run_ok :: "server \<Rightarrow> machine heap \<Rightarrow> script_run \<Rightarrow> bool" where
  "run_ok s ms run \<longleftrightarrow>
     (\<exists>m. h_get ms (run_machine run) = Some m \<and>
        from_cmd s (path_name (cl_Id (mc_client m))) (run_ref run) (run_script run) (run_timeout run))"

definition todo_refs :: "machine \<Rightarrow> ref list" where
  "todo_refs m = map fst (mc_todo m)"

text \<open>No command is with two machines, or twice with one, or still to be run when it has been run.\<close>

definition run_once :: "machine heap \<Rightarrow> ref list \<Rightarrow> bool" where
  "run_once ms ended \<longleftrightarrow>
     distinct ended \<and>
     (\<forall>i m. h_get ms i = Some m \<longrightarrow> distinct (todo_refs m) \<and> set (todo_refs m) \<inter> set ended = {}) \<and>
     (\<forall>i j m n. i \<noteq> j \<longrightarrow> h_get ms i = Some m \<longrightarrow> h_get ms j = Some n \<longrightarrow> set (todo_refs m) \<inter> set (todo_refs n) = {})"

definition system_ok :: "system \<Rightarrow> bool" where
  "system_ok S \<longleftrightarrow>
     server_ok (sys_server S) \<and> addressed (sys_server S) \<and>
     (\<forall>i m. h_get (sys_machines S) i = Some m \<longrightarrow> machine_ok (sys_server S) m) \<and>
     (\<forall>run \<in> set (sys_runs S). run_ok (sys_server S) (sys_machines S) run) \<and>
     run_once (sys_machines S) (map run_ref (sys_runs S))"

lemma from_cmd_stays: "from_cmd s n ref t k \<Longrightarrow> server_step x cf ldap s s' \<Longrightarrow> from_cmd s' n ref t k"
  unfolding from_cmd_def using handed_out_stays.steps_ok [OF r_into_rtranclp] by metis

lemma machine_ok_stays: "machine_ok s m \<Longrightarrow> server_step x cf ldap s s' \<Longrightarrow> machine_ok s' m"
  unfolding machine_ok_def using from_cmd_stays by fast

lemma run_ok_stays: "run_ok s ms run \<Longrightarrow> server_step x cf ldap s s' \<Longrightarrow> run_ok s' ms run"
  unfolding run_ok_def using from_cmd_stays by fast

lemma run_ok_machines:
  assumes "run_ok s ms run" "\<And>m. cl_Id (mc_client (f m)) = cl_Id (mc_client m)"
  shows "run_ok s (h_upd i f ms) run"
  using assms by (auto simp: run_ok_def)

text \<open>What is taken by a poll was pending, what is with the machines is not.\<close>

lemma handed_out_not_pending: "handed_out d ref s \<Longrightarrow> get_cmd (srv_clients s) ref = Some c \<Longrightarrow> \<not> cmd_Pending c"
  by (auto simp: handed_out_def)

lemma known_not_pending:
  assumes "system_ok S" "get_cmd (srv_clients (sys_server S)) ref = Some c" "cmd_Pending c"
  shows "ref \<notin> set (map run_ref (sys_runs S))" "h_get (sys_machines S) i = Some m \<Longrightarrow> ref \<notin> set (todo_refs m)"
  using assms handed_out_not_pending
  by (fastforce simp: system_ok_def run_ok_def machine_ok_def from_cmd_def todo_refs_def)+

lemma run_once_keep:
  assumes "run_once ms ended" "h_get ms i = Some m" "todo_refs m' = todo_refs m"
  shows "run_once (h_upd i (\<lambda>_. m') ms) ended"
  using assms unfolding run_once_def by (auto split: if_splits)

lemma run_once_fetch:
  assumes "run_once ms ended" "h_get ms i = Some m" "distinct (todo_refs m')"
    "\<And>ref. ref \<in> set (todo_refs m') \<Longrightarrow> ref \<notin> set ended"
    "\<And>ref j n. ref \<in> set (todo_refs m') \<Longrightarrow> h_get ms j = Some n \<Longrightarrow> ref \<notin> set (todo_refs n)"
  shows "run_once (h_upd i (\<lambda>_. m') ms) ended"
  using assms unfolding run_once_def by (auto split: if_splits)

lemma run_once_execute:
  assumes "run_once ms ended" "h_get ms i = Some m" "todo_refs m = ref # todo_refs m'" "ended' = ended \<or> ended' = ended @ [ref]"
  shows "run_once (h_upd i (\<lambda>_. m') ms) ended'"
proof -
  have m: "distinct (ref # todo_refs m')" "set (ref # todo_refs m') \<inter> set ended = {}"
    using assms(1,2) unfolding run_once_def assms(3) [symmetric] by blast+
  have others: "set (ref # todo_refs m') \<inter> set (todo_refs n) = {}" if "h_get ms j = Some n" "j \<noteq> i" for j n
    using assms(1,2) that unfolding run_once_def assms(3) [symmetric] by metis
  show ?thesis
    using assms(1,4) m others unfolding run_once_def by (auto simp: assms(2) disjoint_iff split: if_splits)
qed

lemma system_ok_server:
  assumes "system_ok S" "server_step x cf ldap (sys_server S) s'" "ldap_ok ldap"
  shows "system_ok (S\<lparr>sys_server := s'\<rparr>)"
  using assms machine_ok_stays run_ok_stays addressed_stays.step_ok server_property.step_ok [OF server_ok_property [OF assms(3)]]
  unfolding system_ok_def by simp blast

lemma system_ok_client:
  assumes "system_ok S" "h_get (sys_machines S) i = Some m" "cl_Id cl = cl_Id (mc_client m)"
  shows "system_ok (S\<lparr>sys_machines := h_upd i (\<lambda>m. m\<lparr>mc_client := cl\<rparr>) (sys_machines S)\<rparr>)"
proof -
  let ?f = "\<lambda>_. m\<lparr>mc_client := cl\<rparr>"
  have upd: "h_upd i (\<lambda>m. m\<lparr>mc_client := cl\<rparr>) (sys_machines S) = h_upd i ?f (sys_machines S)"
    using assms(2) by (simp add: h_upd_def h_get_def split: if_splits)
  have "run_once (h_upd i ?f (sys_machines S)) (map run_ref (sys_runs S))"
    using assms by (intro run_once_keep) (auto simp: system_ok_def todo_refs_def)
  moreover have "machine_ok (sys_server S) (m\<lparr>mc_client := cl\<rparr>)"
    using assms by (auto simp: system_ok_def machine_ok_def)
  moreover have "run_ok (sys_server S) (h_upd i ?f (sys_machines S)) run" if "run \<in> set (sys_runs S)" for run
    using assms that unfolding system_ok_def run_ok_def by (auto split: if_splits)
  ultimately show ?thesis using assms(1) unfolding upd system_ok_def by simp
qed


lemma polled_machine:
  assumes "system_ok S" "h_get (sys_machines S) i = Some m"
    "receive router addr (send_message (mc_conf m) rand (cl_Id (mc_client m)) Poll_message) =
      Some (Served (GET_client_cmds False), r)"
    "router_contract (route_table False) router"
  shows "ParamByName r ''clientId'' = path_name (cl_Id (mc_client m))"
proof -
  have "plain_address (conf_EndpointURI (mc_conf m))" "path_part (cl_Id (mc_client m))"
    using assms(1,2) by (auto simp: system_ok_def machine_ok_def)
  from message_understood [OF assms(4) this, of Poll_message addr rand] show ?thesis using assms(3) by simp
qed

lemma received_script: "script (received_cmd now cl (json_cmd_of d)) = script d"
  "cmd_Timeout (received_cmd now cl (json_cmd_of d)) = timeout_or_default (cmd_Timeout d)"
  by (simp_all add: script_def received_cmd_def json_cmd_of_def newCmd_def timeout_or_default_def)

lemma system_ok_fetch:
  assumes "system_ok S" "h_get (sys_machines S) i = Some m" "mc_todo m = []"
    "ParamByName r ''clientId'' = path_name (cl_Id (mc_client m))"
    "serve x cf ldap e (GET_client_cmds False) r (sys_server S) = (Inr (ROk [(''cmds'', VCmds ds)]), s')" "ldap_ok ldap"
  shows "system_ok (S\<lparr>sys_server := s',
    sys_machines := h_upd i (\<lambda>m. m\<lparr>mc_todo := zip (polled_refs r (sys_server S))
      (map (\<lambda>d. received_cmd now (mc_client m) (json_cmd_of d)) ds)\<rparr>) (sys_machines S)\<rparr>)"
proof -
  have ok: "server_ok (sys_server S)" "addressed (sys_server S)" using assms(1) by (simp_all add: system_ok_def)
  note facts = fetch_facts [OF assms(5) ok]
  let ?refs = "polled_refs r (sys_server S)"
  let ?m = "m\<lparr>mc_todo := zip ?refs (map (\<lambda>d. received_cmd now (mc_client m) (json_cmd_of d)) ds)\<rparr>"
  have upd: "h_upd i (\<lambda>m. m\<lparr>mc_todo := zip ?refs (map (\<lambda>d. received_cmd now (mc_client m) (json_cmd_of d)) ds)\<rparr>) (sys_machines S) =
      h_upd i (\<lambda>_. ?m) (sys_machines S)"
    using assms(2) by (simp add: h_upd_def h_get_def split: if_splits)
  have S': "system_ok (S\<lparr>sys_server := s'\<rparr>)" by (rule system_ok_server [OF assms(1) facts(5) assms(6)])
  have refs: "todo_refs ?m = ?refs" using facts(1) by (simp add: todo_refs_def)
  have "run_once (h_upd i (\<lambda>_. ?m) (sys_machines S)) (map run_ref (sys_runs S))"
  proof (rule run_once_fetch)
    show "run_once (sys_machines S) (map run_ref (sys_runs S))" using assms(1) by (simp add: system_ok_def)
  qed (use assms(2) facts(2,3) known_not_pending [OF assms(1)] in \<open>auto simp: refs\<close>)
  moreover have "machine_ok s' ?m"
    using S' assms(2,4) facts(4)
    by (auto simp: system_ok_def machine_ok_def from_cmd_def zip_map2 received_script)
  moreover have "run_ok s' (h_upd i (\<lambda>_. ?m) (sys_machines S)) run" if "run \<in> set (sys_runs S)" for run
    using S' that assms(2) unfolding system_ok_def run_ok_def by (auto split: if_splits)
  ultimately show ?thesis using S' unfolding upd system_ok_def by simp
qed

lemma system_ok_execute:
  assumes "system_ok S" "h_get (sys_machines S) i = Some m" "mc_todo m = (ref, c) # todo"
    "Execute_cmd (logging net) (mc_conf m) js (mc_client m) c (w, []) = (cl, w', log)"
  shows "system_ok (S\<lparr>sys_machines := h_upd i (\<lambda>m. m\<lparr>mc_client := cl, mc_todo := todo\<rparr>) (sys_machines S),
    sys_runs := sys_runs S @ map (\<lambda>(t, n). \<lparr>run_machine = i, run_ref = ref, run_script = t, run_timeout = n\<rparr>) log\<rparr>)"
proof -
  let ?m = "m\<lparr>mc_client := cl, mc_todo := todo\<rparr>"
  let ?new = "map (\<lambda>(t, n). \<lparr>run_machine = i, run_ref = ref, run_script = t, run_timeout = n\<rparr>) log"
  have upd: "h_upd i (\<lambda>m. m\<lparr>mc_client := cl, mc_todo := todo\<rparr>) (sys_machines S) = h_upd i (\<lambda>_. ?m) (sys_machines S)"
    using assms(2) by (simp add: h_upd_def h_get_def split: if_splits)
  have log: "log = [] \<or> log = [(script c, cmd_Timeout c)]"
    using Execute_runs [of net "mc_conf m" js "mc_client m" c w "[]"] assms(4) by (simp split: if_splits)
  have id: "cl_Id cl = cl_Id (mc_client m)"
    using Execute_keeps_id [of "logging net" "mc_conf m" js "mc_client m" c "(w, [])"] assms(4) by simp
  have m: "machine_ok (sys_server S) m" using assms(1,2) by (simp add: system_ok_def)
  have "run_once (h_upd i (\<lambda>_. ?m) (sys_machines S)) (map run_ref (sys_runs S @ ?new))"
    using assms(1-3) log by (intro run_once_execute) (auto simp: system_ok_def todo_refs_def)
  moreover have "machine_ok (sys_server S) ?m" using m assms(3) id by (simp add: machine_ok_def)
  moreover have "run_ok (sys_server S) (h_upd i (\<lambda>_. ?m) (sys_machines S)) run" if "run \<in> set (sys_runs S @ ?new)" for run
  proof (cases "run \<in> set (sys_runs S)")
    case True
    then show ?thesis using assms(1,2) id unfolding system_ok_def run_ok_def by (auto split: if_splits)
  next
    case False
    then have "run = \<lparr>run_machine = i, run_ref = ref, run_script = script c, run_timeout = cmd_Timeout c\<rparr>"
      using that log by auto
    then show ?thesis using m assms(2,3) id by (simp add: run_ok_def machine_ok_def)
  qed
  ultimately show ?thesis using assms(1) unfolding upd system_ok_def by simp
qed

lemma system_ok_step:
  assumes "system_step x cf ldap router js net S S'" "system_ok S" "ldap_ok ldap" "router_contract (route_table False) router"
  shows "system_ok S' \<and> server_steps x cf ldap (sys_server S) (sys_server S')"
  using assms(1)
proof (cases rule: system_step.cases)
  case (server s')
  then show ?thesis using system_ok_server [OF assms(2) _ assms(3)] by auto
next
  case (fetch i m addr rand r e ds s' now)
  have "server_step x cf ldap (sys_server S) s'" using fetch(5) by (rule server_step.request) simp
  then show ?thesis
    using system_ok_fetch [OF assms(2) fetch(2,3) polled_machine [OF assms(2) fetch(2,4) assms(4)] fetch(5) assms(3)]
    unfolding fetch(1) by auto
next
  case (execute i m ref c todo w cl w' log)
  then show ?thesis using system_ok_execute [OF assms(2)] by simp
next
  case (tick i m useautotag w cl w')
  then have "cl_Id cl = cl_Id (mc_client m)" using tick_keeps_id by (metis fst_conv)
  then show ?thesis using system_ok_client [OF assms(2)] tick by simp
next
  case (reauth i m w cl w')
  then have "cl_Id cl = cl_Id (mc_client m)" using AuthServer_keeps_id by (metis fst_conv)
  then show ?thesis using system_ok_client [OF assms(2)] reauth by simp
qed

lemma system_ok_steps:
  assumes "system_steps x cf ldap router js net S S'" "system_ok S" "ldap_ok ldap" "router_contract (route_table False) router"
  shows "system_ok S' \<and> server_steps x cf ldap (sys_server S) (sys_server S')"
  using assms(1)
proof (induction rule: rtranclp_induct)
  case (step T U)
  then show ?case using system_ok_step [OF step.hyps(2) _ assms(3,4)] by (meson rtranclp_trans)
qed (use assms(2) in simp)

lemma addressed_empty:
  assumes "server_ok s" "cmds_of s = {}"
  shows "addressed s"
proof -
  have none: "queued_cmds s = {}" "started_cmds s = {}" "get_cmd (srv_clients s) r = None" for r
    using assms(2) by (auto simp: cmds_of_def filed_cmds_def simp del: not_None_eq) (metis option.exhaust)
  have "rc_Cmds c = []" if "get_client (srv_clients s) r = Some c" for r c
    using client_store_okD(3) [OF server_okD(1) [OF assms(1)] that] none(3)
    by (cases "rc_Cmds c") (auto simp: client_ok_def cmd_map_ok_def)
  then show ?thesis
    using none(1,2)
    unfolding addressed_def entries_addressed_def tasks_addressed_def queues_addressed_def queued_cmds_def started_cmds_def
    by fastforce
qed

lemma system_ok_idle:
  assumes "server_ok (sys_server S)" "cmds_of (sys_server S) = {}" "idle S"
  shows "system_ok S"
  using assms addressed_empty [OF assms(1,2)] h_get_in_set [of "sys_machines S"]
  by (fastforce simp: system_ok_def idle_def machine_ok_def run_once_def todo_refs_def list_all_iff)

lemma timeout_twice: "timeout_or_default (timeout_or_default k) = timeout_or_default k"
  by (simp add: timeout_or_default_def DEFAULT_COMMAND_TIMEOUT_def)

text \<open>
  C1: The promise of the program, for all machines and the server together: whatever script a machine has ever been started with
  is, with its timeout, that of a template which a request asked to run on this machine; that request was started
  once, at a moment at which the template asked for no more votes than the requester and the distinct people who had
  approved it. However requests are lost, repeated or forged, and whatever machines hear from elsewhere.
\<close>

theorem machines_run_authorised:
  assumes "server_ok (sys_server S)" "cmds_of (sys_server S) = {}" "idle S" "ldap_ok ldap"
    "router_contract (route_table False) router"
    "system_steps x cf ldap router js net S S'" "run \<in> set (sys_runs S')"
  shows "\<exists>m t u r c tmpl. h_get (sys_machines S') (run_machine run) = Some m \<and>
    server_steps x cf ldap (sys_server S) t \<and> server_step x cf ldap t u \<and> server_steps x cf ldap u (sys_server S') \<and>
    get_request u r = Some c \<and> \<not> executed t r \<and> cr_Executed c \<and>
    TemplateStore_Get (srv_templateStore t) (cr_TemplateId c) = Some tmpl \<and>
    unat (acl_MinAuth (tmpl_Acl tmpl)) \<le> card (insert (cr_RequestUserId c) (fst ` set (cr_ApproveUserIds c))) \<and>
    path_name (cl_Id (mc_client m)) \<in> set (cr_ClientIds c) \<and>
    run_script run = ''#!/bin/bash'' @ [CHR 0x0A] @ tmpl_Command tmpl \<and>
    run_timeout run = timeout_or_default (tmpl_Timeout tmpl)"
proof -
  have end_ok: "system_ok S'" "server_steps x cf ldap (sys_server S) (sys_server S')"
    using system_ok_steps [OF assms(6) system_ok_idle [OF assms(1-3)] assms(4,5)] by simp_all
  then obtain m d where m: "h_get (sys_machines S') (run_machine run) = Some m"
    and d: "handed_out d (run_ref run) (sys_server S')" "cmd_ClientId d = path_name (cl_Id (mc_client m))"
      "run_script run = script d" "run_timeout run = timeout_or_default (cmd_Timeout d)"
    using assms(7) unfolding system_ok_def run_ok_def from_cmd_def by blast
  then obtain d' where d': "d' \<in> cmds_of (sys_server S')" "same_origin d d'"
    by (auto simp: handed_out_def cmds_of_def filed_cmds_def)
  obtain t u r c tmpl where "server_steps x cf ldap (sys_server S) t \<and> server_step x cf ldap t u \<and>
      server_steps x cf ldap u (sys_server S') \<and> get_request u r = Some c \<and> \<not> executed t r \<and> cr_Executed c \<and>
      TemplateStore_Get (srv_templateStore t) (cr_TemplateId c) = Some tmpl \<and>
      unat (acl_MinAuth (tmpl_Acl tmpl)) \<le> card (insert (cr_RequestUserId c) (fst ` set (cr_ApproveUserIds c))) \<and>
      cmd_ConsensusRequestId d' = cr_Id c \<and> cmd_ClientId d' \<in> set (cr_ClientIds c) \<and>
      cmd_TemplateId d' = tmpl_Id tmpl \<and> cmd_Command d' = tmpl_Command tmpl \<and>
      cmd_Timeout d' = timeout_or_default (tmpl_Timeout tmpl)"
    using command_origin [OF assms(1,4,2) end_ok(2) d'(1)] by blast
  moreover from this have "path_name (cl_Id (mc_client m)) \<in> set (cr_ClientIds c)"
    "run_script run = ''#!/bin/bash'' @ [CHR 0x0A] @ tmpl_Command tmpl"
    "run_timeout run = timeout_or_default (tmpl_Timeout tmpl)"
    using d d'(2) timeout_twice [of "tmpl_Timeout tmpl"] by (simp_all add: same_origin_def script_def)
  ultimately show ?thesis
    using m by (intro exI [of _ m] exI [of _ t] exI [of _ u] exI [of _ r] exI [of _ c] exI [of _ tmpl]) simp
qed


section \<open>A run of the whole\<close>

text \<open>
  The sample check starts a request, its command is filed for the sample client, a machine of that name polls
  and runs it.
\<close>

definition sample_machine :: machine where
  "sample_machine = \<lparr>mc_conf = sample_conf, mc_client = (newClient sample_conf)\<lparr>cl_Id := ''c1'', cl_AuthToken := b64_encode ''key''\<rparr>,
     mc_todo = []\<rparr>"

definition sample_system :: system where
  "sample_system = \<lparr>sys_server = sample_server, sys_machines = [sample_machine], sys_runs = []\<rparr>"

lemma check_server_entry: "get_entry check_server 0 \<noteq> None" "srv_clients check_server = srv_clients sample_server"
  by (simp_all add: check_server_defs)

lemma check_server_cmd:
  "\<exists>crq. srv_tasks check_server = [TSubmit 0 (assemble_cmd sample_env 1 sample_template crq sample_client) 0]"
  by (simp add: check_server_defs) (rule exI, rule refl)

text \<open>The poll of a machine whose only command was just filed.\<close>

lemma sample_poll:
  assumes "srv_clients s = Submit 0 c (srv_clients sample_server)" "cmd_Pending c"
    "auth sample_conf r" "ParamByName r ''clientId'' = ''c1''"
  shows "\<exists>s'. serve x sample_conf ldap e (GET_client_cmds False) r s =
      (Inr (ROk [(''cmds'', VCmds [c\<lparr>cmd_Pending := False\<rparr>])]), s')" "polled_refs r s = [0]"
  using assms
  by (simp_all add: ClientCmds_def request_client_def GetClient_def h_get_def poll_cmds_def Submit_def Let_def upd_client_def
      h_upd_def sample_client_def newRegisteredClient_def List.map_filter_def polled_refs_def del: b64_encode.simps)

lemma sample_filed:
  "\<exists>crq i s. srv_clients s = Submit 0 ((assemble_cmd sample_env 1 sample_template crq sample_client)\<lparr>cmd_ExecutionIterationId := i\<rparr>)
       (srv_clients sample_server) \<and> server_steps sample_ext sample_conf None sample_server s"
proof -
  obtain crq where task: "srv_tasks check_server = [TSubmit 0 (assemble_cmd sample_env 1 sample_template crq sample_client) 0]"
    using check_server_cmd by blast
  let ?d = "assemble_cmd sample_env 1 sample_template crq sample_client"
  obtain ece where ece: "get_entry check_server 0 = Some ece" using check_server_entry(1) by blast
  let ?c = "?d\<lparr>cmd_ExecutionIterationId := ece_iteration ece\<rparr>"
  let ?s = "audit_submit 0 ?c (on_clients (Submit 0 ?c) (check_server\<lparr>srv_tasks := [] @ []\<rparr>))"
  have "server_step sample_ext sample_conf None check_server ?s"
    by (rule server_step.goroutine [where ts = "[]" and us = "[]" and t = "TSubmit 0 ?d 0"])
      (simp_all add: task run_task_def run_submit_def ece Let_def)
  then have "server_steps sample_ext sample_conf None sample_server ?s"
    using check_server_step by (meson converse_rtranclp_into_rtranclp r_into_rtranclp)
  moreover have "srv_clients ?s = Submit 0 (?d\<lparr>cmd_ExecutionIterationId := ece_iteration ece\<rparr>) (srv_clients sample_server)"
    by (simp add: check_server_entry)
  ultimately show ?thesis by blast
qed

lemma system_steps_server:
  "server_steps x cf ldap (sys_server S) s' \<Longrightarrow> system_steps x cf ldap router js net S (S\<lparr>sys_server := s'\<rparr>)"
proof (induction rule: rtranclp_induct)
  case (step t u)
  have "system_step x cf ldap router js net (S\<lparr>sys_server := t\<rparr>) (S\<lparr>sys_server := u\<rparr>)"
    using system_step.server [of x cf ldap "S\<lparr>sys_server := t\<rparr>" u router js net] step.hyps(2) by simp
  with step.IH show ?case by (rule rtranclp.rtrancl_into_rtrancl)
qed simp

lemma sample_fetched:
  "\<exists>S c. system_steps sample_ext sample_conf None (first_match (route_table False)) sample_json silent_net sample_system S \<and>
     sys_machines S = [sample_machine\<lparr>mc_todo := [(0, c)]\<rparr>] \<and> sys_runs S = [] \<and>
     signature_valid (cl_AuthToken (mc_client sample_machine)) c"
proof -
  let ?router = "first_match (route_table False)"
  obtain crq i s where s: "srv_clients s = Submit 0 ((assemble_cmd sample_env 1 sample_template crq sample_client)\<lparr>cmd_ExecutionIterationId := i\<rparr>)
       (srv_clients sample_server)" "server_steps sample_ext sample_conf None sample_server s"
    using sample_filed by blast
  let ?c = "(assemble_cmd sample_env 1 sample_template crq sample_client)\<lparr>cmd_ExecutionIterationId := i\<rparr>"
  let ?S = "sample_system\<lparr>sys_server := s\<rparr>"
  have names: "path_part ''c1''" "path_name ''c1'' = ''c1''" by (simp_all add: path_part_def path_name_def)
  obtain r where r: "receive ?router [] (send_message sample_conf None ''c1'' Poll_message) = Some (Served (GET_client_cmds False), r)"
      "auth sample_conf r" "ParamByName r ''clientId'' = ''c1''"
    using message_understood [OF first_match_contract [OF routes_apart [of False]] sample_plain names(1), of Poll_message "[]" None]
    unfolding names by auto
  have "cmd_Pending ?c" by simp
  from sample_poll [OF s(1) this r(2,3)] obtain s' where poll:
      "serve sample_ext sample_conf None sample_env (GET_client_cmds False) r s = (Inr (ROk [(''cmds'', VCmds [?c\<lparr>cmd_Pending := False\<rparr>])]), s')"
      "polled_refs r s = [0]" by blast
  let ?got = "received_cmd 0 (mc_client sample_machine) (json_cmd_of (?c\<lparr>cmd_Pending := False\<rparr>))"
  let ?S' = "\<lparr>sys_server = s', sys_machines = [sample_machine\<lparr>mc_todo := [(0, ?got)]\<rparr>], sys_runs = []\<rparr>"
  have "mc_conf sample_machine = sample_conf" "cl_Id (mc_client sample_machine) = ''c1''" "mc_todo sample_machine = []"
    by (simp_all add: sample_machine_def)
  then have "system_step sample_ext sample_conf None ?router sample_json silent_net ?S ?S'"
    using system_step.fetch [of ?S 0 sample_machine ?router "[]" None r sample_ext sample_conf None sample_env
        "[?c\<lparr>cmd_Pending := False\<rparr>]" s' sample_json silent_net 0] r(1) poll
    by (simp add: sample_system_def h_get_def h_upd_def)
  moreover have "system_steps sample_ext sample_conf None ?router sample_json silent_net sample_system ?S"
    using s(2) by (intro system_steps_server) (simp add: sample_system_def)
  moreover have "signature_valid (rc_AuthToken sample_client) ?got"
    by (rule assembled_signature [where key = "''key''", OF _ refl])
      (simp_all add: sample_client_def received_cmd_def json_cmd_of_def newCmd_def)
  then have "signature_valid (cl_AuthToken (mc_client sample_machine)) ?got" by (simp add: sample_client_def sample_machine_def)
  ultimately show ?thesis by (intro exI [of _ ?S'] exI [of _ ?got]) (simp add: rtranclp.rtrancl_into_rtrancl)
qed

lemma sample_run:
  "\<exists>S run. system_steps sample_ext sample_conf None (first_match (route_table False)) sample_json silent_net sample_system S \<and>
     sys_runs S = [run]"
proof -
  obtain S c where S: "system_steps sample_ext sample_conf None (first_match (route_table False)) sample_json silent_net sample_system S"
      "sys_machines S = [sample_machine\<lparr>mc_todo := [(0, c)]\<rparr>]" "sys_runs S = []"
      "signature_valid (cl_AuthToken (mc_client sample_machine)) c"
    using sample_fetched by blast
  obtain cl w' log where ex: "Execute_cmd (logging silent_net) sample_conf sample_json (mc_client sample_machine) c (0, []) = (cl, w', log)"
    by (metis prod.exhaust)
  then have log: "log = [(script c, cmd_Timeout c)]"
    using Execute_runs [of silent_net sample_conf sample_json "mc_client sample_machine" c 0 "[]"] S(4) by simp
  have "\<exists>S' run. system_step sample_ext sample_conf None (first_match (route_table False)) sample_json silent_net S S' \<and> sys_runs S' = [run]"
    using system_step.execute [of S 0 "sample_machine\<lparr>mc_todo := [(0, c)]\<rparr>" 0 c "[]" silent_net sample_json 0 cl w' log
        sample_ext sample_conf None "first_match (route_table False)"] ex
    by (fastforce simp: S(2,3) log h_get_def sample_machine_def)
  with S(1) show ?thesis by (meson rtranclp.rtrancl_into_rtrancl)
qed

lemma sample_idle: "idle sample_system" "sys_server sample_system = sample_server"
  using sample_plain by (simp_all add: idle_def sample_system_def sample_machine_def path_part_def)

lemma sample_start: "server_ok (sys_server sample_system)" "cmds_of (sys_server sample_system) = {}" "idle sample_system"
  "ldap_ok None" "router_contract (route_table False) (first_match (route_table False))"
  using sample_idle sample_server_ok sample_server_no_cmds first_match_contract [OF routes_apart]
  by (simp_all add: ldap_ok_def)

theorem machines_run_authorised_witness:
  "\<exists>(S :: system) (run :: script_run) (c :: consensus_request) (tmpl :: template). sys_runs S = [run] \<and> cr_Executed c \<and> run_script run = ''#!/bin/bash'' @ [CHR 0x0A] @ tmpl_Command tmpl \<and>
     unat (acl_MinAuth (tmpl_Acl tmpl)) \<le> card (insert (cr_RequestUserId c) (fst ` set (cr_ApproveUserIds c)))"
proof -
  obtain S run where S: "system_steps sample_ext sample_conf None (first_match (route_table False)) sample_json silent_net sample_system S"
      "sys_runs S = [run]"
    using sample_run by blast
  then have "run \<in> set (sys_runs S)" by simp
  from machines_run_authorised [OF sample_start S(1) this] S(2) show ?thesis by blast
qed


end
