(* ===== verification/Audit_Trail.thy ===== *)
theory Audit_Trail
  imports Machines
begin

text \<open>
  The audit log (audit.go, and its callers): every command that a client ever gets, the filing of its request and every vote have
  their line.
\<close>

section \<open>The log only grows\<close>

interpretation audit_grows: server_property "\<lambda>s. prefix ls (srv_audit s)" x ldap cf for ls x ldap cf
proof unfold_locales
  fix s :: server and e tid cids user reason v s'
  assume "prefix ls (srv_audit s)" "AddRequest cf e tid cids user reason s = (v, s')"
  then show "prefix ls (srv_audit s')" by (auto simp: AddRequest_def Let_def split: if_splits)
next
  fix s :: server and e user cr assume "prefix ls (srv_audit s)"
  then show "prefix ls (srv_audit (snd (Request_Approve e user cr s)))"
    by (cases "get_request s cr") (simp add: Request_Approve_def, simp add: Approve_snd vote_def audit_request_def)
next
  fix s s' :: server and ts task us
  assume "prefix ls (srv_audit s)" "run_task cf task (s\<lparr>srv_tasks := ts @ us\<rparr>) = Some (Inr (), s')"
  then show "prefix ls (srv_audit s')"
    by (cases task) (auto simp: run_task_def run_submit_def run_callback_def audit_submit_def Let_def split: option.splits
        callback.splits if_splits dest: arg_cong [where f = "\<lambda>p. srv_audit (snd p)"])
qed (simp_all add: Request_Delete_def Request_AddCallback_def on_checks_def Let_def split: option.split)

lemma audit_steps: "server_steps x cf ldap s s' \<Longrightarrow> set (srv_audit s) \<subseteq> set (srv_audit s')"
  using audit_grows.steps_ok [of x cf ldap s s' "srv_audit s"] by (simp add: set_mono_prefix)

section \<open>Commands\<close>

definition execute_line :: "cmd \<Rightarrow> string" where
  "execute_line d = Audit_Log None ''Execute'' (''Command '' @ [CHR 0x27] @ cmd_Command d @ [CHR 0x27] @ '' on client ''
     @ cmd_ClientId d @ '' with id '' @ cmd_Id d)"

definition cmds_logged :: "server \<Rightarrow> bool" where
  "cmds_logged s \<longleftrightarrow> addressed s \<and> (\<forall>r d. get_cmd (srv_clients s) r = Some d \<longrightarrow> execute_line d \<in> set (srv_audit s))"

lemma cmds_logged_frame:
  assumes "cmds_logged s" "addressed s'" "set (srv_audit s) \<subseteq> set (srv_audit s')"
    "\<And>r d'. get_cmd (srv_clients s') r = Some d' \<Longrightarrow> \<exists>d. get_cmd (srv_clients s) r = Some d \<and> same_origin d d'"
  shows "cmds_logged s'"
  unfolding cmds_logged_def
proof (intro conjI allI impI)
  fix r d' assume "get_cmd (srv_clients s') r = Some d'"
  then obtain d where "get_cmd (srv_clients s) r = Some d" "same_origin d d'" using assms(4) by blast
  then have "execute_line d \<in> set (srv_audit s)" "execute_line d' = execute_line d"
    using assms(1) by (auto simp: cmds_logged_def execute_line_def same_origin_def)
  then show "execute_line d' \<in> set (srv_audit s')" using assms(3) by auto
qed (rule assms(2))

lemma cmds_logged_same:
  "cmds_logged s \<Longrightarrow> addressed s' \<Longrightarrow> set (srv_audit s) \<subseteq> set (srv_audit s') \<Longrightarrow>
     cs_cmds (srv_clients s') = cs_cmds (srv_clients s) \<Longrightarrow> cmds_logged s'"
  by (rule cmds_logged_frame) auto

lemma cmds_logged_kept:
  assumes "cmds_logged s" "addressed s \<Longrightarrow> addressed s'" "srv_audit s' = srv_audit s @ ls"
    "cs_cmds (srv_clients s') = cs_cmds (srv_clients s)"
  shows "cmds_logged s'"
  using assms by (intro cmds_logged_same [OF assms(1)]) (simp_all add: cmds_logged_def)

lemma audit_submit_line:
  assumes "home s cl c"
  shows "execute_line (c\<lparr>cmd_ExecutionIterationId := i\<rparr>) \<in> set (srv_audit (audit_submit cl (c\<lparr>cmd_ExecutionIterationId := i\<rparr>) s))"
  using assms by (auto simp: home_def audit_submit_def execute_line_def)

lemma cmds_logged_goroutine:
  assumes "cmds_logged s" "srv_tasks s = ts @ task # us"
    "run_task cf task (s\<lparr>srv_tasks := ts @ us\<rparr>) = Some (Inr (), s')"
  shows "cmds_logged s'"
proof -
  have a: "addressed s'" using addressed_stays.goroutine_ok assms unfolding cmds_logged_def by blast
  have grow: "set (srv_audit s) \<subseteq> set (srv_audit s')"
    using audit_grows.goroutine_ok [of "srv_audit s" s ts task us cf s'] assms(2,3) by (simp add: set_mono_prefix)
  show ?thesis
  proof (cases task)
    case (TSubmit cl c er)
    let ?s = "s\<lparr>srv_tasks := ts @ us\<rparr>"
    obtain ece where "get_entry ?s er = Some ece" using assms(3) TSubmit by (auto simp: run_task_def run_submit_def split: option.splits)
    then have s': "s' = audit_submit cl (c\<lparr>cmd_ExecutionIterationId := ece_iteration ece\<rparr>)
        (on_clients (Submit cl (c\<lparr>cmd_ExecutionIterationId := ece_iteration ece\<rparr>)) ?s)" (is "s' = audit_submit cl ?c ?t")
      using assms(3) TSubmit by (auto simp: run_task_def run_submit_def Let_def)
    have "home s cl c" using assms(1,2) TSubmit by (auto simp: cmds_logged_def addressed_def tasks_addressed_def)
    then have "home ?t cl c"
      by (auto simp: home_def Submit_def Let_def)
    then have line: "execute_line ?c \<in> set (srv_audit s')" unfolding s' by (rule audit_submit_line)
    show ?thesis
      unfolding cmds_logged_def
    proof (intro conjI allI impI)
      fix r d assume "get_cmd (srv_clients s') r = Some d"
      then consider "get_cmd (srv_clients s) r = Some d" | "d = ?c"
        unfolding s' by (auto simp: Submit_def Let_def split: if_splits)
      then show "execute_line d \<in> set (srv_audit s')"
        using line grow assms(1) by cases (auto simp: cmds_logged_def)
    qed (rule a)
  next
    case (TNext er)
    then show ?thesis using assms(3) by (intro cmds_logged_same [OF assms(1) a grow]) (auto simp: run_task_def Next_clients)
  next
    case (TCallback cb r)
    then show ?thesis using assms(3)
      by (intro cmds_logged_same [OF assms(1) a grow])
        (auto simp: run_task_def run_callback_def split: callback.splits option.splits if_splits)
  qed
qed

interpretation cmds_stay_logged: server_property cmds_logged x ldap cf for x ldap cf
proof unfold_locales
  fix s :: server and timed_out c rs cs
  assume a: "cmds_logged s" "poll_cmds timed_out c (srv_clients s) = (rs, cs)"
  have "addressed (on_clients (\<lambda>_. cs) s)" using a addressed_stays.poll_ok by (auto simp: cmds_logged_def)
  with a show "cmds_logged (on_clients (\<lambda>_. cs) s)"
    using poll_cmd_origin [of timed_out c "srv_clients s"] by (elim cmds_logged_frame) auto
next
  fix s :: server and d m assume a: "cmds_logged s"
  then have "addressed (on_clients (upd_cmd d (append_logs m)) s)" using addressed_stays.logs_ok by (simp add: cmds_logged_def)
  then show "cmds_logged (on_clients (upd_cmd d (append_logs m)) s)"
    by (rule cmds_logged_frame [OF a]) (auto simp: append_logs_def same_origin_def split: if_splits)
next
  fix s :: server and d st assume a: "cmds_logged s"
  then have "addressed (set_cmd_state d st s)" using addressed_stays.state_ok by (simp add: cmds_logged_def)
  then show "cmds_logged (set_cmd_state d st s)"
    by (rule cmds_logged_frame [OF a]) (auto simp: same_origin_def split: if_splits)
next
  fix s s' :: server and e tid cids user reason v
  assume a: "cmds_logged s" "AddRequest cf e tid cids user reason s = (v, s')"
  then have "addressed s'" using addressed_stays.add_request_ok by (auto simp: cmds_logged_def)
  with a show "cmds_logged s'"
    by (intro cmds_logged_same [OF a(1)]) (auto simp: AddRequest_def Let_def split: if_splits)
next
  fix s s' :: server and ts task us
  assume "cmds_logged s" "srv_tasks s = ts @ task # us"
    "run_task cf task (s\<lparr>srv_tasks := ts @ us\<rparr>) = Some (Inr (), s')"
  then show "cmds_logged s'" by (rule cmds_logged_goroutine)
next
  fix s :: server and e user cr assume a: "cmds_logged s"
  have "addressed (snd (Request_Approve e user cr s))" using a addressed_stays.approve_ok by (simp add: cmds_logged_def)
  moreover have "set (srv_audit s) \<subseteq> set (srv_audit (snd (Request_Approve e user cr s)))"
    using audit_grows.approve_ok [of "srv_audit s" s e user cr] by (simp add: set_mono_prefix)
  ultimately show "cmds_logged (snd (Request_Approve e user cr s))" by (rule cmds_logged_same [OF a]) simp
next
  fix s :: server and cr assume a: "cmds_logged s"
  have "addressed (snd (Request_Delete cr s))" using a addressed_stays.delete_ok by (simp add: cmds_logged_def)
  then show "cmds_logged (snd (Request_Delete cr s))"
    by (rule cmds_logged_same [OF a]) (simp_all add: Request_Delete_def Let_def split: option.split)
qed (erule cmds_logged_kept [where ls = "[]"] cmds_logged_kept [where ls = "[l]" for l],
    (erule addressed_stays.ping_ok addressed_stays.token_ok addressed_stays.next_task_ok addressed_stays.cleanup_ok
       addressed_stays.history_ok addressed_stays.check_ok addressed_stays.callback_ok addressed_same; simp add: on_checks_def),
    simp add: on_checks_def Request_AddCallback_def, simp add: on_checks_def Request_AddCallback_def GetDispatchedCmds_def CleanupClients_def
      Let_def split: option.split)+

section \<open>Requests and votes\<close>

text \<open>The users that the server knows at a moment: those of its store, and the system user of its http checks.\<close>

definition known_user :: "server \<Rightarrow> user \<Rightarrow> bool" where
  "known_user s v \<longleftrightarrow> v \<in> set (us_Users (srv_userStore s)) \<or> v = hs_SystemUser (srv_httpCheckStore s)"

text \<open>The line of the filing of a request, and that of an approval, by a user that the server knew.\<close>

definition filing_line :: "server \<Rightarrow> consensus_request \<Rightarrow> bool" where
  "filing_line s c \<longleftrightarrow>
     (\<exists>v. known_user s v \<and> user_Id v = cr_RequestUserId c \<and>
        Audit_Log (Some v) ''Consensus'' (request_message c) \<in> set (srv_audit s))"

definition approval_line :: "server \<Rightarrow> consensus_request \<Rightarrow> string \<Rightarrow> bool" where
  "approval_line s c uid \<longleftrightarrow>
     (\<exists>v. known_user s v \<and> user_Id v = uid \<and>
        Audit_Log (Some v) ''Consensus'' (''Approve '' @ cr_Id c) \<in> set (srv_audit s))"

abbreviation voters :: "consensus_request \<Rightarrow> string set" where
  "voters c \<equiv> fst ` set (cr_ApproveUserIds c)"

definition same_ballot :: "consensus_request \<Rightarrow> consensus_request \<Rightarrow> bool" where
  "same_ballot c d \<longleftrightarrow> cr_Id d = cr_Id c \<and> cr_Reason d = cr_Reason c \<and> cr_RequestUserId d = cr_RequestUserId c \<and>
     cr_ApproveUserIds d = cr_ApproveUserIds c"

lemma same_ballot_refl [simp]: "same_ballot c c"
  by (simp add: same_ballot_def)

text \<open>No request is new and no vote is new; or what is new has its line.\<close>

definition quiet :: "server \<Rightarrow> server \<Rightarrow> bool" where
  "quiet s t \<longleftrightarrow> (\<forall>r d. get_request t r = Some d \<longrightarrow> (\<exists>c. get_request s r = Some c \<and> same_ballot c d))"

definition adds_votes :: "server \<Rightarrow> consensus_request \<Rightarrow> consensus_request \<Rightarrow> bool" where
  "adds_votes t c d \<longleftrightarrow> cr_Id d = cr_Id c \<and> cr_Reason d = cr_Reason c \<and> cr_RequestUserId d = cr_RequestUserId c \<and>
     (\<forall>uid \<in> voters d. uid \<in> voters c \<or> approval_line t d uid)"

definition logged_change :: "server \<Rightarrow> server \<Rightarrow> bool" where
  "logged_change s t \<longleftrightarrow>
     (\<forall>r d. get_request t r = Some d \<longrightarrow>
        (\<exists>c. get_request s r = Some c \<and> adds_votes t c d) \<or> voters d = {} \<and> filing_line t d)"

lemma same_ballot_trans: "same_ballot b c \<Longrightarrow> same_ballot c d \<Longrightarrow> same_ballot b d"
  by (simp add: same_ballot_def)

lemma adds_votes_same: "same_ballot c d \<Longrightarrow> adds_votes t c d"
  by (simp add: adds_votes_def same_ballot_def)

lemma adds_votes_after: "same_ballot b c \<Longrightarrow> adds_votes t c d \<Longrightarrow> adds_votes t b d"
  by (simp add: adds_votes_def same_ballot_def)

lemma quiet_same: "con_heap (srv_consensus t) = con_heap (srv_consensus s) \<Longrightarrow> quiet s t"
  by (auto simp: quiet_def)

lemma quiet_trans: "quiet s t \<Longrightarrow> quiet t u \<Longrightarrow> quiet s u"
  unfolding quiet_def by (blast dest: same_ballot_trans)

lemma quiet_logged: "quiet s t \<Longrightarrow> logged_change s t"
  unfolding quiet_def logged_change_def by (blast dest: adds_votes_same)

lemma quiet_then_change: "quiet s t \<Longrightarrow> logged_change t u \<Longrightarrow> logged_change s u"
  unfolding quiet_def logged_change_def by (blast dest: adds_votes_after)

lemma change_then_quiet:
  assumes "logged_change s t" "quiet t u" "srv_userStore u = srv_userStore t" "srv_httpCheckStore u = srv_httpCheckStore t"
    "srv_audit u = srv_audit t"
  shows "logged_change s u"
  unfolding logged_change_def
proof (intro allI impI)
  fix r d assume "get_request u r = Some d"
  then obtain c where c: "get_request t r = Some c" "same_ballot c d" using assms(2) by (auto simp: quiet_def)
  have lines: "filing_line u d = filing_line t c" "approval_line u d uid = approval_line t c uid" for uid
    using c(2) assms(3-5) by (simp_all add: filing_line_def approval_line_def known_user_def same_ballot_def request_message_def)
  have "adds_votes t b c \<Longrightarrow> adds_votes u b d" for b using c(2) lines(2) by (simp add: adds_votes_def same_ballot_def)
  moreover have "voters d = voters c" using c(2) by (simp add: same_ballot_def)
  moreover have "(\<exists>b. get_request s r = Some b \<and> adds_votes t b c) \<or> voters c = {} \<and> filing_line t c"
    using assms(1) c(1) unfolding logged_change_def by blast
  ultimately show "(\<exists>b. get_request s r = Some b \<and> adds_votes u b d) \<or> voters d = {} \<and> filing_line u d"
    unfolding lines by metis
qed

text \<open>What the operations on a request do.\<close>

lemma quiet_check: "quiet s (snd (Request_check e crr s))"
  unfolding quiet_def
proof (intro allI impI)
  fix r d assume d: "get_request (snd (Request_check e crr s)) r = Some d"
  show "\<exists>c. get_request s r = Some c \<and> same_ballot c d"
  proof (cases "r = crr")
    case True
    show ?thesis
    proof (cases "get_request s crr")
      case None
      then show ?thesis using d True by (simp add: Request_check_def)
    next
      case (Some c)
      then show ?thesis
      proof (cases rule: check_request [of s crr c e])
        case (started d')
        then have "d = c\<lparr>cr_Executed := True, cr_StartTime := cr_StartTime d, cr_CompleteTime := cr_CompleteTime d\<rparr>"
          using d True by (simp add: started_from_def)
        then have "same_ballot c d" unfolding same_ballot_def by (cases d) (cases c, simp)
        then show ?thesis using Some True by blast
      qed (use d True in auto)
    qed
  qed (use d check_other in auto)
qed

lemma quiet_simps [simp]:
  "quiet s s" "quiet s (consensus_save e s)" "quiet s (Request_AddCallback cb crr s)" "quiet s (snd (Request_Delete crr s))"
  "quiet s (touch e r i s)" "quiet s (audit_request v u crr s)" "quiet s (s\<lparr>srv_done := ch\<rparr>)"
  by (auto intro: quiet_same simp: quiet_def consensus_save_def Request_AddCallback_def Request_Delete_def same_ballot_def Let_def
      split: option.splits if_splits)

lemma logged_AddRequest:
  assumes "AddRequest cf e tid cids user reason s = (v, s')" "known_user s user"
  shows "logged_change s s'"
  using assms(1)
proof (cases rule: AddRequest_cases)
  case refused
  then show ?thesis by (simp add: quiet_logged)
next
  case (filed msg)
  let ?c = "new_request e tid cids user reason"
  have "filing_line s' ?c"
    using filed(3) assms(2) unfolding filing_line_def
    by (intro exI [of _ user]) (simp add: known_user_def new_request_def)
  moreover have "voters ?c = {}" by (simp add: new_request_def)
  ultimately show ?thesis
    using filed(3) unfolding logged_change_def by (auto intro: adds_votes_same split: if_splits)
qed

lemma logged_Approve:
  assumes "known_user s user"
  shows "logged_change s (snd (Request_Approve e user crr s))"
proof (cases "get_request s crr")
  case None
  then show ?thesis by (simp add: Request_Approve_def quiet_logged)
next
  case (Some c)
  show ?thesis
  proof (cases "may_vote user c")
    case True
    let ?d = "c\<lparr>cr_ApproveUserIds := gm_set (user_Id user) True (cr_ApproveUserIds c)\<rparr>"
    have "approval_line (vote user crr s) ?d (user_Id user)"
      using Some assms by (auto simp: approval_line_def vote_def known_user_def audit_request_def)
    moreover have "voters ?d = insert (user_Id user) (voters c)" by (simp add: fst_set_gm_set)
    ultimately have "adds_votes (vote user crr s) c ?d" unfolding adds_votes_def by simp
    moreover have "get_request (vote user crr s) r = (if r = crr then Some ?d else get_request s r)" for r
      using Some by (simp add: vote_def)
    ultimately have "logged_change s (vote user crr s)"
      using Some adds_votes_same unfolding logged_change_def by (metis option.inject same_ballot_refl)
    then have "logged_change s (snd (Request_check e crr (vote user crr s)))"
      by (rule change_then_quiet [OF _ quiet_check]) simp_all
    then show ?thesis using True by (simp add: Approve_snd [OF Some])
  qed (simp add: Approve_snd [OF Some] quiet_logged)
qed

section \<open>Every step\<close>

interpretation heap_admin: admin_property "\<lambda>t. con_heap (srv_consensus t) = h" x ldap for h x ldap
  by unfold_locales (simp_all add: on_checks_def)

interpretation heap_client: client_property "\<lambda>t. con_heap (srv_consensus t) = h" cf for h cf
  by unfold_locales simp_all

lemma known_touched:
  "get_user (srv_userStore s) i = Some u \<Longrightarrow> known_user (touch e r i s) (TouchSession (env_now e) (rq_RemoteAddr r) u)"
  by (auto simp: known_user_def intro!: h_get_in_set [of _ i])

lemma logged_as_user:
  assumes "\<And>i u s. get_user (srv_userStore s) i = Some u \<Longrightarrow> known_user (touch e r i s) (TouchSession (env_now e) (rq_RemoteAddr r) u) \<Longrightarrow>
    logged_change (touch e r i s) (snd (body i (TouchSession (env_now e) (rq_RemoteAddr r) u) (touch e r i s)))"
  shows "logged_change s (snd (as_user e r msg body s))"
proof (cases rule: as_user_cases [of e r s])
  case (admitted i u)
  have "logged_change (touch e r i s) (snd (as_user e r msg body s))"
    unfolding admitted(4) using assms [OF admitted(3)] known_touched [OF admitted(3)] by blast
  then show ?thesis by (rule quiet_then_change [OF quiet_simps(5)])
qed (simp add: quiet_logged)

lemma logged_PostConsensusApprove: "logged_change s (snd (PostConsensusApprove e r s))"
  unfolding PostConsensusApprove_def
proof (rule logged_as_user, goal_cases)
  case (1 i u s)
  have save: "logged_change (touch e r i s) (consensus_save e v)"
    if "Request_Approve e (TouchSession (env_now e) (rq_RemoteAddr r) u) crr (touch e r i s) = (b, v)" for crr b v
    using change_then_quiet [OF logged_Approve [OF 1(2), of e crr] quiet_simps(2)] that by simp
  have panic: "logged_change (touch e r i s) v"
    if "Request_Approve e (TouchSession (env_now e) (rq_RemoteAddr r) u) crr (touch e r i s) = (b, v)" for crr b v
    using logged_Approve [OF 1(2), of e crr] that by simp
  show ?case
    by (auto simp: Let_def quiet_logged save panic split: option.split prod.split sum.split)
qed

lemma quiet_Cancel: "quiet s (snd (Request_Cancel user crr s))"
  unfolding Request_Cancel_def by (rule quiet_trans [OF quiet_simps(6) quiet_simps(4)])

lemma logged_DeleteConsensusRequest: "logged_change s (snd (DeleteConsensusRequest e r s))"
  unfolding DeleteConsensusRequest_def
proof (rule logged_as_user, goal_cases)
  case (1 i u s)
  have quiet: "quiet (touch e r i s) v" "quiet (touch e r i s) (consensus_save e v)"
    if "Request_Cancel user crr (touch e r i s) = (b, v)" for user crr b v
    using quiet_Cancel [of "touch e r i s" user crr] that quiet_trans quiet_simps(2) by auto
  show ?case
    by (auto simp: Let_def quiet_logged quiet split: option.split prod.split sum.split)
qed

lemma logged_checked:
  assumes "AddRequest cf e tid cids user reason s = (Some cr, t)" "known_user s user" "quiet t u"
    "srv_userStore u = srv_userStore t" "srv_httpCheckStore u = srv_httpCheckStore t" "srv_audit u = srv_audit t"
    "Request_check e cr u = (b, v)"
  shows "logged_change s v" "logged_change s (consensus_save e v)"
proof -
  have v: "v = snd (Request_check e cr u)" using assms(7) by simp
  have "logged_change s u" using change_then_quiet [OF logged_AddRequest [OF assms(1,2)] assms(3-6)] .
  then show "logged_change s v" unfolding v by (rule change_then_quiet [OF _ quiet_check]) simp_all
  then show "logged_change s (consensus_save e v)" by (rule change_then_quiet) simp_all
qed

lemma AddCallback_same:
  "srv_userStore (Request_AddCallback cb cr s) = srv_userStore s"
  "srv_httpCheckStore (Request_AddCallback cb cr s) = srv_httpCheckStore s" "srv_audit (Request_AddCallback cb cr s) = srv_audit s"
  by (simp_all add: Request_AddCallback_def)

lemma logged_PostConsensusRequest: "logged_change s (snd (PostConsensusRequest x cf e r s))"
  unfolding PostConsensusRequest_def
proof (rule logged_as_user, goal_cases)
  case (1 i u s)
  let ?u = "TouchSession (env_now e) (rq_RemoteAddr r) u" and ?s = "touch e r i s"
  have none: "logged_change ?s t" if "AddRequest cf e tid cids ?u reason ?s = (v, t)" for tid cids reason v t
    using logged_AddRequest [OF that 1(2)] .
  have some: "logged_change ?s v" "logged_change ?s (consensus_save e v)"
    if "AddRequest cf e tid cids ?u reason ?s = (Some cr, t)" "Request_check e cr (Request_AddCallback FinishedNotification cr t) = (b, v)"
    for tid cids reason cr t b v
    using logged_checked [OF that(1) 1(2) quiet_simps(3) AddCallback_same that(2)] .
  show ?case
    by (auto simp: Let_def quiet_logged dest: none some split: option.split prod.split sum.split)
qed

lemma logged_serve: "logged_change s (snd (serve x cf ldap e route r s))"
  by (cases route)
    (simp_all add: logged_PostConsensusApprove logged_DeleteConsensusRequest logged_PostConsensusRequest Ping_def quiet_logged
      heap_admin.reads_ok heap_admin.admin_handlers_ok heap_client.client_handlers_ok quiet_same)

lemma logged_check_start:
  assumes "GetHttpCheck_start cf e r s = (res, s')"
  shows "logged_change s s'"
proof -
  have k: "known_user s (hs_SystemUser (srv_httpCheckStore s))" by (simp add: known_user_def)
  have some: "logged_change s v"
    if "AddRequest cf e tid cids (hs_SystemUser (srv_httpCheckStore s)) reason s = (Some cr, t)"
      "Request_check e cr (Request_AddCallback (HttpCheckDone n) cr (t\<lparr>srv_done := ch\<rparr>)) = (b, v)"
    for tid cids reason cr t n ch b v
  proof (rule logged_checked(1) [OF that(1) k _ _ _ _ that(2)])
    show "quiet t (Request_AddCallback (HttpCheckDone n) cr (t\<lparr>srv_done := ch\<rparr>))"
      by (rule quiet_trans [OF quiet_simps(7) quiet_simps(3)])
  qed (simp_all add: AddCallback_same)
  show ?thesis
    using assms unfolding GetHttpCheck_start_def
    by (auto simp: Let_def quiet_logged dest: logged_AddRequest [OF _ k] some split: option.splits prod.splits sum.splits if_splits)
qed

lemma logged_step: "server_step x cf ldap s s' \<Longrightarrow> logged_change s s'"
proof (induction rule: server_step.induct)
  case (request e route r s res s')
  then show ?case using logged_serve by (metis snd_conv)
next
  case (check_start e r s res s')
  then show ?case by (rule logged_check_start)
next
  case (check_select timed_out cr ch s res s')
  have "quiet s (snd (Request_Delete cr (s\<lparr>srv_done := h_upd ch (\<lambda>k. k - 1) (srv_done s)\<rparr>)))"
    by (rule quiet_trans [OF quiet_simps(7) quiet_simps(4)])
  then show ?case
    using check_select unfolding GetHttpCheck_select_def
    by (auto simp: Let_def quiet_logged split: option.splits prod.splits sum.splits if_splits)
next
  case (goroutine s ts t us s')
  have "con_heap (srv_consensus s') = con_heap (srv_consensus s)"
    using goroutine(2)
    by (cases t) (auto simp: run_task_def run_submit_def run_callback_def Let_def split: option.splits callback.splits if_splits
        dest: arg_cong [where f = "\<lambda>p. srv_consensus (snd p)"])
  then show ?case by (intro quiet_logged quiet_same)
qed (intro quiet_logged quiet_same; simp)+

text \<open>Along a run: the filing and every vote of a request have their line, made for a user that the server knew at that moment.\<close>

definition request_logged :: "(server \<Rightarrow> bool) \<Rightarrow> server \<Rightarrow> consensus_request \<Rightarrow> bool" where
  "request_logged been s c \<longleftrightarrow>
     (\<exists>v t. been t \<and> known_user t v \<and> user_Id v = cr_RequestUserId c \<and>
        Audit_Log (Some v) ''Consensus'' (request_message c) \<in> set (srv_audit s)) \<and>
     (\<forall>uid \<in> voters c. \<exists>v t. been t \<and> known_user t v \<and> user_Id v = uid \<and>
        Audit_Log (Some v) ''Consensus'' (''Approve '' @ cr_Id c) \<in> set (srv_audit s))"

lemma request_logged_later:
  "request_logged been s c \<Longrightarrow> set (srv_audit s) \<subseteq> set (srv_audit t) \<Longrightarrow> request_logged been t c"
  unfolding request_logged_def by blast

lemma request_logged_votes:
  assumes "request_logged been s c" "adds_votes t c d" "set (srv_audit s) \<subseteq> set (srv_audit t)" "been t"
  shows "request_logged been t d"
proof -
  have d: "cr_Id d = cr_Id c" "request_message d = request_message c" "cr_RequestUserId d = cr_RequestUserId c"
    using assms(2) by (simp_all add: adds_votes_def request_message_def)
  have "uid \<in> voters c \<or> approval_line t d uid" if "uid \<in> voters d" for uid
    using assms(2) that unfolding adds_votes_def by blast
  then show ?thesis
    using assms(1,3,4) unfolding request_logged_def d approval_line_def by (meson subsetD)
qed

lemma run_logged:
  assumes "server_steps x cf ldap s s'" "con_heap (srv_consensus s) = []" "get_request s' r = Some c"
  shows "request_logged (server_steps x cf ldap s) s' c"
  using assms(1,3)
proof (induction arbitrary: r c rule: rtranclp_induct)
  case base
  then show ?case using assms(2) by (simp add: h_get_def)
next
  case (step t u)
  have grow: "set (srv_audit t) \<subseteq> set (srv_audit u)" using audit_steps step.hyps(2) by blast
  have been: "server_steps x cf ldap s u" using step.hyps by (rule rtranclp.rtrancl_into_rtrancl)
  from logged_step [OF step.hyps(2)] step.prems consider
    b where "get_request t r = Some b" "adds_votes u b c" | "voters c = {}" "filing_line u c"
    unfolding logged_change_def by blast
  then show ?case
  proof cases
    case 1
    then show ?thesis using request_logged_votes [OF step.IH [OF 1(1)] 1(2) grow been] by blast
  next
    case 2
    have "\<exists>v t. server_steps x cf ldap s t \<and> known_user t v \<and> user_Id v = cr_RequestUserId c \<and>
        Audit_Log (Some v) ''Consensus'' (request_message c) \<in> set (srv_audit u)"
      using 2(2) been unfolding filing_line_def by blast
    then show ?thesis unfolding request_logged_def 2(1) by simp
  qed
qed



end
