(* ===== verification/Form_Values.thy ===== *)
theory Form_Values
  imports Go_Strings
begin

text \<open>
  data_table/http_request.go: the keys of form fields and the tree of values that they describe.
\<close>

section \<open>Keys\<close>

text \<open>
  \<open>ParseKey\<close>: \<open>columns[0][search][value]\<close> is a path of four names. The loop of the code, over the name
  read so far and the names found.
\<close>

definition bracket :: "char \<Rightarrow> bool" where
  "bracket c \<longleftrightarrow> c = CHR ''['' \<or> c = CHR '']''"

fun parse_key_loop :: "string \<Rightarrow> string list \<Rightarrow> string \<Rightarrow> string list" where
  "parse_key_loop currKey res [] = (if length currKey > 0 then res @ [currKey] else res)"
| "parse_key_loop currKey res (c # key) =
     (if bracket c then
        if length currKey > 0 then parse_key_loop [] (res @ [currKey]) key else parse_key_loop currKey res key
      else parse_key_loop (currKey @ [c]) res key)"

definition ParseKey :: "string \<Rightarrow> string list" where
  "ParseKey key = parse_key_loop [] [] key"

text \<open>A key as a browser writes the path.\<close>

fun form_key :: "string list \<Rightarrow> string" where
  "form_key [] = []"
| "form_key (k # ks) = k @ concat (map (\<lambda>k. ''['' @ k @ '']'') ks)"

definition plain_name :: "string \<Rightarrow> bool" where
  "plain_name k \<longleftrightarrow> k \<noteq> [] \<and> (\<forall>c \<in> set k. \<not> bracket c)"

lemma parse_name: "\<forall>c \<in> set k. \<not> bracket c \<Longrightarrow> parse_key_loop cur res (k @ key) = parse_key_loop (cur @ k) res key"
  by (induction k arbitrary: cur) auto

lemma parse_names:
  assumes "list_all plain_name ks"
  shows "parse_key_loop cur res (concat (map (\<lambda>k. ''['' @ k @ '']'') ks)) =
    res @ (if cur = [] then [] else [cur]) @ ks"
  using assms
proof (induction ks arbitrary: cur res)
  case (Cons k ks)
  then have k: "k \<noteq> []" "\<forall>c \<in> set k. \<not> bracket c" by (simp_all add: plain_name_def)
  have "parse_key_loop [] r (k @ '']'' @ key) = parse_key_loop [] (r @ [k]) key" for r key
    using k parse_name [OF k(2), of "[]" r "'']'' @ key"] by (simp add: bracket_def)
  then show ?case using Cons by (simp add: bracket_def)
qed simp

text \<open>
  Names of form fields: the parser recovers the path that a browser has written as a key with brackets, and
  whatever the key is, the names it yields are free of brackets and not empty.
\<close>

theorem ParseKey_form_key:
  "(list_all plain_name path \<longrightarrow> ParseKey (form_key path) = path) \<and> list_all plain_name (ParseKey key)"
proof -
  have "ParseKey (form_key path) = path" if "list_all plain_name path"
  proof (cases path)
    case (Cons k ks)
    with that have "k \<noteq> []" "\<forall>c \<in> set k. \<not> bracket c" "list_all plain_name ks" by (simp_all add: plain_name_def)
    with Cons show ?thesis using parse_names [of ks k "[]"] by (simp add: ParseKey_def parse_name)
  qed (simp add: ParseKey_def)
  moreover have "list_all plain_name (parse_key_loop cur res key)"
    if "list_all plain_name res" "\<forall>c \<in> set cur. \<not> bracket c" for cur res
    using that
  proof (induction key arbitrary: cur res)
    case (Cons c key)
    then have "cur \<noteq> [] \<longrightarrow> plain_name cur" by (simp add: plain_name_def)
    with Cons show ?case by auto
  qed (auto simp: plain_name_def)
  ultimately show ?thesis by (simp add: ParseKey_def)
qed

theorem ParseKey_form_key_witness:
  "ParseKey ''columns[0][data]'' = [''columns'', ''0'', ''data'']"
  using ParseKey_form_key [of "[''columns'', ''0'', ''data'']" "[]"] by (simp add: plain_name_def bracket_def)

section \<open>Form values as a tree\<close>

text \<open>A \<open>map[string]interface{}\<close> whose values are strings or maps again.\<close>

datatype form_value = Leaf string | Branch "(string \<times> form_value) list"

type_synonym form_tree = "(string, form_value) gomap"

text \<open>
  The walk along a path. The assertion that a value on the way is a map panics if the key of another
  field has put a string there.
\<close>

fun tree_put :: "string list \<Rightarrow> string \<Rightarrow> form_tree \<Rightarrow> panic + form_tree" where
  "tree_put [] v t = Inr t"
| "tree_put [key] v t = Inr (gm_set key (Leaf v) t)"
| "tree_put (key # k # ks) v t =
     (case (case gm_get t key of None \<Rightarrow> Branch [] | Some x \<Rightarrow> x) of
        Leaf _ \<Rightarrow> Inl TypeAssertion
      | Branch sub \<Rightarrow>
          (case tree_put (k # ks) v sub of
             Inl p \<Rightarrow> Inl p
           | Inr sub' \<Rightarrow> Inr (gm_set key (Branch sub') t)))"

fun tree_values :: "(string, string list) gomap \<Rightarrow> form_tree \<Rightarrow> panic + form_tree" where
  "tree_values [] res = Inr res"
| "tree_values ((rawKey, vs) # vals) res =
     (if length vs > 0 then
        (case tree_put (ParseKey rawKey) (vs ! 0) res of
           Inl p \<Rightarrow> Inl p
         | Inr res \<Rightarrow> tree_values vals res)
      else tree_values vals res)"

definition TreePostFormValues :: "(string, string list) gomap \<Rightarrow> panic + form_tree" where
  "TreePostFormValues vals = tree_values vals []"

text \<open>The value at the end of a path.\<close>

fun tree_get :: "string list \<Rightarrow> form_tree \<Rightarrow> form_value option" where
  "tree_get [] t = Some (Branch t)"
| "tree_get (k # ks) t =
     (case gm_get t k of
        None \<Rightarrow> None
      | Some (Leaf v) \<Rightarrow> if ks = [] then Some (Leaf v) else None
      | Some (Branch sub) \<Rightarrow> tree_get ks sub)"

lemma tree_get_put_same: "tree_put p v t = Inr t' \<Longrightarrow> p \<noteq> [] \<Longrightarrow> tree_get p t' = Some (Leaf v)"
proof (induction p v t arbitrary: t' rule: tree_put.induct)
  case (3 key k ks v t)
  obtain sub sub' where sub: "(case gm_get t key of None \<Rightarrow> Branch [] | Some x \<Rightarrow> x) = Branch sub"
      "tree_put (k # ks) v sub = Inr sub'" "t' = gm_set key (Branch sub') t"
    using "3.prems"(1) by (auto split: form_value.splits sum.splits)
  with "3.IH" [OF sub(1,2)] show ?case by (simp del: tree_get.simps(2) add: tree_get.simps(2) [of key])
qed auto

lemma tree_get_put_other:
  "tree_put p v t = Inr t' \<Longrightarrow> \<not> prefix p q \<Longrightarrow> \<not> prefix q p \<Longrightarrow> tree_get q t' = tree_get q t"
proof (induction p v t arbitrary: q t' rule: tree_put.induct)
  case (2 key v t)
  then show ?case by (cases q) (auto split: form_value.splits option.splits)
next
  case (3 key k ks v t)
  obtain k' q' where q: "q = k' # q'" using "3.prems"(3) by (cases q) auto
  obtain sub sub' where sub: "(case gm_get t key of None \<Rightarrow> Branch [] | Some x \<Rightarrow> x) = Branch sub"
      "tree_put (k # ks) v sub = Inr sub'" "t' = gm_set key (Branch sub') t"
    using "3.prems"(1) by (auto split: form_value.splits sum.splits)
  show ?case
  proof (cases "k' = key")
    case True
    with "3.prems" q have "tree_get q' sub' = tree_get q' sub" by (intro "3.IH" [OF sub(1,2)]) auto
    moreover have "q' \<noteq> []" using True "3.prems"(3) q by auto
    ultimately show ?thesis using sub q True by (cases q') (auto split: option.splits)
  next
    case False
    then show ?thesis using sub q by simp
  qed
qed simp

text \<open>A path can be put if no string stands on the way.\<close>

lemma tree_put_total:
  "(\<And>q v. strict_prefix q p \<Longrightarrow> tree_get q t \<noteq> Some (Leaf v)) \<Longrightarrow> \<exists>t'. tree_put p v t = Inr t'"
proof (induction p v t rule: tree_put.induct)
  case (3 key k ks v t)
  have "\<exists>sub. (case gm_get t key of None \<Rightarrow> Branch [] | Some x \<Rightarrow> x) = Branch sub"
  proof (cases "gm_get t key")
    case (Some x)
    then show ?thesis using "3.prems" [of "[key]"] by (cases x) auto
  qed simp
  then obtain sub where sub: "(case gm_get t key of None \<Rightarrow> Branch [] | Some x \<Rightarrow> x) = Branch sub" by blast
  have "tree_get q sub \<noteq> Some (Leaf w)" if "strict_prefix q (k # ks)" for q w
    using "3.prems" [of "key # q" w] sub that by (cases q) (auto split: option.splits)
  from "3.IH" [OF sub this] show ?case using sub by auto
qed auto

text \<open>Where strings stand after a path has been put.\<close>

lemma tree_leaf_put:
  assumes "tree_put p v t = Inr t'" "p \<noteq> []" "tree_get q t' = Some (Leaf w)"
  shows "q = p \<or> \<not> prefix p q \<and> \<not> prefix q p \<and> tree_get q t = Some (Leaf w)"
proof -
  have below: "tree_get (a @ b) t = None" if "tree_get a t = Some (Leaf u)" "b \<noteq> []" for a b u t
    using that by (induction a t rule: tree_get.induct) (auto split: option.splits form_value.splits if_splits)
  have p: "tree_get p t' = Some (Leaf v)" using tree_get_put_same [OF assms(1,2)] .
  consider "q = p" | r where "q = p @ r" "r \<noteq> []" | r where "p = q @ r" "r \<noteq> []" | "\<not> prefix p q" "\<not> prefix q p"
    by (auto simp: prefix_def)
  then show ?thesis
  proof cases
    case (2 r)
    then show ?thesis using below [OF p 2(2)] assms(3) by simp
  next
    case (3 r)
    then show ?thesis using below [OF assms(3) 3(2)] p by simp
  qed (use tree_get_put_other [OF assms(1)] assms(3) in auto)
qed

text \<open>Fields whose paths do not get in each other's way.\<close>

definition apart :: "string list \<Rightarrow> string list \<Rightarrow> bool" where
  "apart p q \<longleftrightarrow> \<not> prefix p q \<and> \<not> prefix q p"

fun paths_apart :: "string list list \<Rightarrow> bool" where
  "paths_apart [] \<longleftrightarrow> True"
| "paths_apart (p # ps) \<longleftrightarrow> p \<noteq> [] \<and> list_all (apart p) ps \<and> paths_apart ps"

lemma tree_values_apart:
  assumes "paths_apart (map (\<lambda>f. ParseKey (fst f)) vals)" "list_all (\<lambda>(k, vs). vs \<noteq> []) vals"
    "\<forall>q w. tree_get q t = Some (Leaf w) \<longrightarrow> (\<forall>p \<in> set (map (\<lambda>f. ParseKey (fst f)) vals). apart p q)"
  shows "\<exists>t'. tree_values vals t = Inr t' \<and>
    (\<forall>(k, vs) \<in> set vals. tree_get (ParseKey k) t' = Some (Leaf (vs ! 0))) \<and>
    (\<forall>q w. tree_get q t = Some (Leaf w) \<longrightarrow> tree_get q t' = Some (Leaf w))"
  using assms
proof (induction vals arbitrary: t)
  case (Cons kv vals)
  obtain k vs where kv: "kv = (k, vs)" by (cases kv)
  let ?p = "ParseKey k"
  have p: "?p \<noteq> []" "vs \<noteq> []" using Cons.prems kv by simp_all
  have "tree_get q t \<noteq> Some (Leaf w)" if "strict_prefix q ?p" for q w
    using Cons.prems(3) [rule_format, of q w ?p] that kv by (auto simp: apart_def strict_prefix_def)
  then obtain t1 where t1: "tree_put ?p (vs ! 0) t = Inr t1" using tree_put_total by metis
  have leaves: "apart p q" if "tree_get q t1 = Some (Leaf w)" "p \<in> set (map (\<lambda>f. ParseKey (fst f)) vals)" for q w p
    using tree_leaf_put [OF t1 p(1) that(1)] Cons.prems(1) Cons.prems(3) [rule_format, of q w p] that(2) kv
    by (auto simp: list_all_iff apart_def)
  obtain t' where t': "tree_values vals t1 = Inr t'"
      "\<forall>(k, vs) \<in> set vals. tree_get (ParseKey k) t' = Some (Leaf (vs ! 0))"
      "\<forall>q w. tree_get q t1 = Some (Leaf w) \<longrightarrow> tree_get q t' = Some (Leaf w)"
  proof -
    have *: "paths_apart (map (\<lambda>f. ParseKey (fst f)) vals)" "list_all (\<lambda>(k, vs). vs \<noteq> []) vals"
      using Cons.prems(1,2) by simp_all
    have "\<forall>q w. tree_get q t1 = Some (Leaf w) \<longrightarrow> (\<forall>p \<in> set (map (\<lambda>f. ParseKey (fst f)) vals). apart p q)"
      using leaves by blast
    from Cons.IH [OF * this] show ?thesis using that by blast
  qed
  have "tree_get ?p t' = Some (Leaf (vs ! 0))" using t'(3) tree_get_put_same [OF t1 p(1)] by blast
  moreover have "tree_get q t' = Some (Leaf w)" if "tree_get q t = Some (Leaf w)" for q w
    using t'(3) tree_get_put_other [OF t1, of q] Cons.prems(3) [rule_format, OF that, of ?p] that kv by (simp add: apart_def)
  ultimately show ?case using kv t1 t' p(2) by auto
qed simp

text \<open>
  Form values as a tree: if no field's path is the beginning of another's, the fields arrive in the tree
  whatever the order in which the map is visited, each value at its path.
\<close>

theorem form_fields_arrive:
  assumes "paths_apart (map (\<lambda>f. ParseKey (fst f)) vals)" "list_all (\<lambda>(k, vs). vs \<noteq> []) vals"
  shows "\<exists>t. TreePostFormValues vals = Inr t \<and>
    (\<forall>(k, vs) \<in> set vals. tree_get (ParseKey k) t = Some (Leaf (vs ! 0)))"
proof -
  have "tree_get q [] \<noteq> Some (Leaf w)" for q w by (cases q) simp_all
  then show ?thesis using tree_values_apart [OF assms, of "[]"] by (fastforce simp: TreePostFormValues_def)
qed

theorem form_fields_arrive_witness:
  "\<exists>t. TreePostFormValues [(''search[value]'', [''web'']), (''start'', [''0''])] = Inr t \<and>
     tree_get [''search'', ''value''] t = Some (Leaf ''web'')"
proof -
  have "ParseKey ''search[value]'' = [''search'', ''value'']" "ParseKey ''start'' = [''start'']"
    by (simp_all add: ParseKey_def bracket_def)
  then show ?thesis
    using form_fields_arrive [of "[(''search[value]'', [''web'']), (''start'', [''0''])]"] by (auto simp: apart_def)
qed

text \<open>Fields that get in each other's way: the outcome depends on the order of the map.\<close>

lemma form_fields_clash:
  "TreePostFormValues [(''a'', [''x'']), (''a[b]'', [''y''])] = Inl TypeAssertion"
  "TreePostFormValues [(''a[b]'', [''y'']), (''a'', [''x''])] = Inr [(''a'', Leaf ''x'')]"
  by (simp_all add: TreePostFormValues_def ParseKey_def bracket_def)

end
