(* ===== verification/Data_Table.thy ===== *)
theory Data_Table
  imports Form_Values Authentication
begin

text \<open>
  data_table/core.go, default_store.go and sortable_rowset.go: searches and the filter of rows, the ordered set of rows and its
  pages, the request of a table and its reply. Package regexp, package cast and the tree of package rbtree are
  parameters.
\<close>

section \<open>Searches\<close>

text \<open>
  \<open>SearchDefinition\<close> with its cache of the compiled expression. Package regexp is the parameter \<open>re\<close>:
  \<open>Compile\<close>, with \<open>None\<close> for an error, and \<open>MatchString\<close> of the result.
\<close>

type_synonym regexps = "string \<Rightarrow> (string \<Rightarrow> bool) option"

record search_definition =
  sd_Value :: string
  sd_Regexp :: bool
  sd_regExp :: "(string \<Rightarrow> bool) option"
  sd_InvalidRegExp :: bool

definition getRegExp :: "regexps \<Rightarrow> search_definition \<Rightarrow> (string \<Rightarrow> bool) option \<times> search_definition" where
  "getRegExp re sd =
     (if \<not> sd_Regexp sd then (None, sd)
      else case sd_regExp sd of
        None \<Rightarrow>
          (case re (sd_Value sd) of
             Some regExp \<Rightarrow> (Some regExp, sd\<lparr>sd_regExp := Some regExp\<rparr>)
           | None \<Rightarrow> (None, sd\<lparr>sd_InvalidRegExp := True\<rparr>))
      | Some regExp \<Rightarrow> (Some regExp, sd))"

definition IsApplicable :: "regexps \<Rightarrow> search_definition \<Rightarrow> bool \<times> search_definition" where
  "IsApplicable re sd =
     (if sd_Regexp sd then
        if \<not> sd_InvalidRegExp sd then let (regExp, sd) = getRegExp re sd in (regExp \<noteq> None, sd)
        else (False, sd)
      else (sd_Value sd \<noteq> [], sd))"

definition IsMatch :: "regexps \<Rightarrow> string \<Rightarrow> search_definition \<Rightarrow> bool \<times> search_definition" where
  "IsMatch re val sd =
     (case getRegExp re sd of
        (Some regExp, sd) \<Rightarrow> (regExp val, sd)
      | (None, sd) \<Rightarrow> (Contains (ToLower val) (ToLower (sd_Value sd)), sd))"

text \<open>The same without the cache.\<close>

definition regexp_of :: "regexps \<Rightarrow> search_definition \<Rightarrow> (string \<Rightarrow> bool) option" where
  "regexp_of re sd = (if sd_Regexp sd then re (sd_Value sd) else None)"

definition applicable :: "regexps \<Rightarrow> search_definition \<Rightarrow> bool" where
  "applicable re sd \<longleftrightarrow> (if sd_Regexp sd then regexp_of re sd \<noteq> None else sd_Value sd \<noteq> [])"

definition matching :: "regexps \<Rightarrow> search_definition \<Rightarrow> string \<Rightarrow> bool" where
  "matching re sd val =
     (case regexp_of re sd of
        Some regExp \<Rightarrow> regExp val
      | None \<Rightarrow> Contains (ToLower val) (ToLower (sd_Value sd)))"

text \<open>What the cache may hold.\<close>

definition cache_ok :: "regexps \<Rightarrow> search_definition \<Rightarrow> bool" where
  "cache_ok re sd \<longleftrightarrow>
     (\<forall>regExp. sd_regExp sd = Some regExp \<longrightarrow> re (sd_Value sd) = Some regExp) \<and>
     (sd_InvalidRegExp sd \<longrightarrow> re (sd_Value sd) = None)"

definition same_search :: "search_definition \<Rightarrow> search_definition \<Rightarrow> bool" where
  "same_search sd sd' \<longleftrightarrow> sd_Value sd' = sd_Value sd \<and> sd_Regexp sd' = sd_Regexp sd"

lemma getRegExp_cache:
  assumes "cache_ok re sd"
  shows "fst (getRegExp re sd) = regexp_of re sd \<and> cache_ok re (snd (getRegExp re sd)) \<and>
    same_search sd (snd (getRegExp re sd))"
  using assms
  by (auto simp: getRegExp_def cache_ok_def regexp_of_def same_search_def split: option.split)

text \<open>
  The cache of the compiled expression changes no answer: a search that has been asked before answers as a
  new one, also when its expression does not compile.
\<close>

lemma search_cache_transparent:
  assumes "cache_ok re sd"
  shows "fst (IsApplicable re sd) = applicable re sd \<and> fst (IsMatch re val sd) = matching re sd val \<and>
    (\<forall>sd' \<in> {snd (IsApplicable re sd), snd (IsMatch re val sd)}. cache_ok re sd' \<and>
       applicable re sd' = applicable re sd \<and> matching re sd' = matching re sd)"
proof -
  have same: "applicable re sd' = applicable re sd \<and> matching re sd' = matching re sd" if "same_search sd sd'" for sd'
    using that by (simp add: same_search_def applicable_def matching_def regexp_of_def fun_eq_iff split: option.split)
  have get: "fst (getRegExp re sd) = regexp_of re sd" "cache_ok re (snd (getRegExp re sd))"
      "same_search sd (snd (getRegExp re sd))"
    using getRegExp_cache [OF assms] by simp_all
  have app: "fst (IsApplicable re sd) = applicable re sd \<and> cache_ok re (snd (IsApplicable re sd)) \<and>
      same_search sd (snd (IsApplicable re sd))"
    using get assms
    by (auto simp: IsApplicable_def applicable_def split_beta cache_ok_def regexp_of_def same_search_def)
  have "fst (IsMatch re val sd) = matching re sd val \<and> cache_ok re (snd (IsMatch re val sd)) \<and>
      same_search sd (snd (IsMatch re val sd))"
    using get by (auto simp: IsMatch_def matching_def same_search_def split_beta split: option.split prod.split)
  with app same show ?thesis by blast
qed

definition sample_regexps :: regexps where
  "sample_regexps p = (if p = ''['' then None else Some (\<lambda>s. Contains s p))"

definition newSearch :: "string \<Rightarrow> bool \<Rightarrow> search_definition" where
  "newSearch v rx = \<lparr>sd_Value = v, sd_Regexp = rx, sd_regExp = None, sd_InvalidRegExp = False\<rparr>"

lemma search_cache_transparent_witness:
  "fst (IsApplicable sample_regexps (newSearch ''['' True)) = False \<and>
   fst (IsMatch sample_regexps ''WebServer'' (newSearch ''web'' False)) = True"
proof -
  have ok: "cache_ok sample_regexps (newSearch v rx)" for v rx by (simp add: cache_ok_def newSearch_def)
  have "\<not> applicable sample_regexps (newSearch ''['' True)"
    by (simp add: applicable_def regexp_of_def newSearch_def sample_regexps_def)
  moreover have "Contains (ToLower ''WebServer'') (ToLower ''web'')" by code_simp
  then have "matching sample_regexps (newSearch ''web'' False) ''WebServer''"
    by (simp only: matching_def regexp_of_def newSearch_def search_definition.simps if_False option.case)
  ultimately show ?thesis
    using search_cache_transparent [OF ok [of "''[''" True]] search_cache_transparent [OF ok [of "''web''" False], of "''WebServer''"]
    by simp
qed

section \<open>Rows and columns\<close>

text \<open>
  A row: its data with every value as \<open>cast.ToString\<close> renders it, the text of the address of its map, and
  what is for the table's rendering. A slot of the list of columns that no form field filled is a nil pointer.
\<close>

record table_row =
  row_ptr :: string
  row_Data :: "(string, string) gomap"
  row_RowId :: string
  row_RowClass :: string
  row_RowData :: "(string, string) gomap"
  row_RowAttr :: "(string, string) gomap"

definition newTableRow :: "string \<Rightarrow> (string, string) gomap \<Rightarrow> table_row" where
  "newTableRow p d = \<lparr>row_ptr = p, row_Data = d, row_RowId = [], row_RowClass = [], row_RowData = [], row_RowAttr = []\<rparr>"

definition ORDER_DESC :: string where "ORDER_DESC = ''desc''"
definition ORDER_ASC :: string where "ORDER_ASC = ''asc''"
definition ORDER_UNDEFINED :: string where "ORDER_UNDEFINED = []"

record column_definition =
  col_Name :: string
  col_Searchable :: bool
  col_Orderable :: bool
  col_Order :: string
  col_Search :: search_definition

fun ColumnByName :: "string \<Rightarrow> column_definition option list \<Rightarrow> panic + column_definition option" where
  "ColumnByName name [] = Inr None"
| "ColumnByName name (None # cols) = Inl NilDeref"
| "ColumnByName name (Some col # cols) =
     (if col_Name col = name then Inr (Some col) else ColumnByName name cols)"

text \<open>
  The loop of \<open>FilterRow\<close> over the row's data, in the order in which the map is visited. The search of the
  whole table is a nil pointer if the request had no columns.
\<close>

fun filter_loop ::
  "regexps \<Rightarrow> search_definition option \<Rightarrow> column_definition option list \<Rightarrow> bool \<Rightarrow> (string \<times> string) list \<Rightarrow> panic + bool"
where
  "filter_loop re search cols foundGlobally [] = Inr foundGlobally"
| "filter_loop re search cols foundGlobally ((name, strValue) # vs) =
     (case search of
        None \<Rightarrow> Inl NilDeref
      | Some f \<Rightarrow>
          if applicable re f \<and> matching re f strValue then Inr True
          else
            let foundGlobally = (if applicable re f then False else foundGlobally)
            in (case ColumnByName name cols of
                  Inl p \<Rightarrow> Inl p
                | Inr None \<Rightarrow> filter_loop re search cols foundGlobally vs
                | Inr (Some col) \<Rightarrow>
                    if col_Searchable col \<and> applicable re (col_Search col) \<and> \<not> matching re (col_Search col) strValue
                    then Inr False
                    else filter_loop re search cols foundGlobally vs))"

definition FilterRow ::
  "regexps \<Rightarrow> (string, string) gomap \<Rightarrow> search_definition option \<Rightarrow> column_definition option list \<Rightarrow> panic + bool"
where
  "FilterRow re data search cols =
     (if length data = 0 then Inr False else filter_loop re search cols True data)"

text \<open>The search of a column that a name leads to.\<close>

definition column_search :: "regexps \<Rightarrow> column_definition option list \<Rightarrow> string \<Rightarrow> search_definition option" where
  "column_search re cols name =
     (case ColumnByName name cols of
        Inr (Some col) \<Rightarrow> if col_Searchable col \<and> applicable re (col_Search col) then Some (col_Search col) else None
      | _ \<Rightarrow> None)"

lemma ColumnByName_total: "None \<notin> set cols \<Longrightarrow> \<exists>c. ColumnByName name cols = Inr c"
  by (induction name cols rule: ColumnByName.induct) auto

lemma filter_loop_global:
  assumes "None \<notin> set cols" "\<forall>name. column_search re cols name = None"
  shows "filter_loop re (Some f) cols found data =
    Inr (if applicable re f then data = [] \<and> found \<or> (\<exists>(k, v) \<in> set data. matching re f v) else found)"
proof (induction data arbitrary: found)
  case (Cons kv data)
  obtain k v where kv: "kv = (k, v)" by (cases kv)
  obtain c where c: "ColumnByName k cols = Inr c" using ColumnByName_total [OF assms(1)] by blast
  have "\<not> (col_Searchable col \<and> applicable re (col_Search col))" if "c = Some col" for col
    using assms(2) [rule_format, of k] c that by (auto simp: column_search_def split: if_splits)
  then show ?case using Cons c kv by (cases c) auto
qed simp

lemma filter_loop_columns:
  assumes "None \<notin> set cols" "\<not> applicable re f"
  shows "filter_loop re (Some f) cols found data =
    Inr (found \<and> (\<forall>(k, v) \<in> set data. \<forall>sd. column_search re cols k = Some sd \<longrightarrow> matching re sd v))"
proof (induction data arbitrary: found)
  case (Cons kv data)
  obtain k v where kv: "kv = (k, v)" by (cases kv)
  obtain c where c: "ColumnByName k cols = Inr c" using ColumnByName_total [OF assms(1)] by blast
  show ?case using Cons c kv assms(2) by (cases c) (auto simp: column_search_def)
qed simp

text \<open>
  The filter of rows: with a search of the whole table only, the rows with a matching value pass; with searches
  of columns only, the rows all of whose searched columns match; an empty row never passes.
\<close>

theorem FilterRow_single_kind:
  assumes "None \<notin> set cols"
  shows "((\<forall>name. column_search re cols name = None) \<longrightarrow>
      FilterRow re data (Some f) cols =
        Inr (data \<noteq> [] \<and> (applicable re f \<longrightarrow> (\<exists>(k, v) \<in> set data. matching re f v)))) \<and>
    (\<not> applicable re f \<longrightarrow>
      FilterRow re data (Some f) cols =
        Inr (data \<noteq> [] \<and> (\<forall>(k, v) \<in> set data. \<forall>sd. column_search re cols k = Some sd \<longrightarrow> matching re sd v)))"
  using filter_loop_global [OF assms, of re f True data] filter_loop_columns [OF assms, of re f True data]
  by (auto simp: FilterRow_def)

definition sample_column :: column_definition where
  "sample_column = \<lparr>col_Name = ''state'', col_Searchable = True, col_Orderable = True, col_Order = ''asc'',
     col_Search = newSearch ''done'' False\<rparr>"

theorem FilterRow_single_kind_witness:
  "FilterRow sample_regexps [(''state'', ''pending'')] (Some (newSearch [] False)) [Some sample_column] = Inr False"
proof -
  have "\<not> applicable sample_regexps (newSearch [] False)" by (simp add: applicable_def newSearch_def)
  moreover have "column_search sample_regexps [Some sample_column] ''state'' = Some (newSearch ''done'' False)"
    by (simp add: column_search_def sample_column_def applicable_def newSearch_def)
  moreover have "\<not> matching sample_regexps (newSearch ''done'' False) ''pending''"
    by (simp add: matching_def regexp_of_def newSearch_def lower_char_def)
  ultimately show ?thesis
    using FilterRow_single_kind [of "[Some sample_column]" sample_regexps "[(''state'', ''pending'')]" "newSearch [] False"]
    by auto
qed

text \<open>
  With both kinds of search, the answer depends on the order in which the map of the row is visited: a match of the
  search of the whole table lets the row pass before the columns that come later are looked at.
\<close>

lemma FilterRow_depends_on_order:
  assumes "applicable re f" "matching re f v" "\<not> matching re f w"
    "column_search re cols b = Some sd" "\<not> matching re sd w" "None \<notin> set cols"
  shows "FilterRow re [(a, v), (b, w)] (Some f) cols = Inr True \<and>
    FilterRow re [(b, w), (a, v)] (Some f) cols = Inr False"
proof -
  obtain col where "ColumnByName b cols = Inr (Some col)" "col_Searchable col \<and> applicable re (col_Search col)"
      "sd = col_Search col"
    using assms(4) by (auto simp: column_search_def split: sum.splits option.splits if_splits)
  with assms show ?thesis by (simp add: FilterRow_def)
qed

lemma FilterRow_depends_on_order_witness:
  "\<exists>data data'. set data = set data' \<and> distinct (map fst data) \<and>
     FilterRow sample_regexps data (Some (newSearch ''web'' False)) [Some sample_column] = Inr True \<and>
     FilterRow sample_regexps data' (Some (newSearch ''web'' False)) [Some sample_column] = Inr False"
proof -
  have "applicable sample_regexps (newSearch ''web'' False)" by (simp add: applicable_def newSearch_def)
  moreover have "matching sample_regexps (newSearch ''web'' False) ''web1''"
    "\<not> matching sample_regexps (newSearch ''web'' False) ''new''"
    "\<not> matching sample_regexps (newSearch ''done'' False) ''new''"
    by (simp_all add: matching_def regexp_of_def newSearch_def lower_char_def)
  moreover have "column_search sample_regexps [Some sample_column] ''state'' = Some (newSearch ''done'' False)"
    by (simp add: column_search_def sample_column_def applicable_def newSearch_def)
  ultimately have "FilterRow sample_regexps [(''client'', ''web1''), (''state'', ''new'')] (Some (newSearch ''web'' False)) [Some sample_column] = Inr True \<and>
    FilterRow sample_regexps [(''state'', ''new''), (''client'', ''web1'')] (Some (newSearch ''web'' False)) [Some sample_column] = Inr False"
    by (intro FilterRow_depends_on_order [where sd = "newSearch ''done'' False"]) simp_all
  then show ?thesis
    by (intro exI [of _ "[(''client'', ''web1''), (''state'', ''new'')]"] exI [of _ "[(''state'', ''new''), (''client'', ''web1'')]"])
      auto
qed

section \<open>Order\<close>

text \<open>\<open>strings.Compare\<close>: bytes from the left, a beginning of a string comes before it.\<close>

fun Compare :: "string \<Rightarrow> string \<Rightarrow> int" where
  "Compare [] [] = 0"
| "Compare [] (d # ds) = - 1"
| "Compare (c # cs) [] = 1"
| "Compare (c # cs) (d # ds) =
     (if (of_char c :: nat) < of_char d then - 1
      else if (of_char d :: nat) < of_char c then 1
      else Compare cs ds)"

lemma Compare_swap: "Compare t s = - Compare s t"
  by (induction s t rule: Compare.induct) auto

lemma Compare_cases: "Compare s t = - 1 \<or> Compare s t = 0 \<or> Compare s t = 1"
proof (induction s t rule: Compare.induct)
  case (4 c cs d ds)
  then show ?case by (simp only: Compare.simps split: if_split) blast
qed simp_all

lemma Compare_Cons_minus:
  "Compare (c # cs) (d # ds) = - 1 \<longleftrightarrow>
     (of_char c :: nat) < of_char d \<or> (of_char c :: nat) = of_char d \<and> Compare cs ds = - 1"
  unfolding Compare.simps(4) by (simp only: split: if_split) (metis less_irrefl linorder_neqE_nat not_less_iff_gr_or_eq zero_neq_neg_one one_neq_neg_one)

lemma Compare_trans: "Compare s t = - 1 \<Longrightarrow> Compare t u = - 1 \<Longrightarrow> Compare s u = - 1"
proof (induction s t arbitrary: u rule: Compare.induct)
  case (4 c cs d ds)
  obtain e es where u: "u = e # es" using "4.prems"(2) by (cases u) simp_all
  show ?case
    using "4.prems" "4.IH" unfolding u Compare_Cons_minus by (metis less_trans nat_neq_iff)
next
  case (2 d ds)
  then show ?case by (cases u) simp_all
qed simp_all

lemma Compare_zero [simp]: "Compare s t = 0 \<longleftrightarrow> s = t"
  by (induction s t rule: Compare.induct) auto

lemma Compare_same [simp]: "Compare s s = 0"
  by simp

text \<open>\<open>IsLess\<close>: the columns in order, and the addresses if they leave the rows equal. Less means shown later.\<close>

fun IsLess :: "column_definition option list \<Rightarrow> table_row \<Rightarrow> table_row \<Rightarrow> panic + bool" where
  "IsLess [] origin than = Inr (Compare (row_ptr origin) (row_ptr than) = - 1)"
| "IsLess (None # cols) origin than = Inl NilDeref"
| "IsLess (Some val # cols) origin than =
     (if col_Orderable val \<and> col_Order val \<noteq> ORDER_UNDEFINED then
        let res = Compare (value_of (row_Data origin) (col_Name val)) (value_of (row_Data than) (col_Name val))
        in if res \<noteq> 0 then Inr (if col_Order val = ORDER_DESC then res = - 1 else res = 1)
           else IsLess cols origin than
      else IsLess cols origin than)"

text \<open>The same for columns that are there, without the panic.\<close>

fun later :: "column_definition list \<Rightarrow> table_row \<Rightarrow> table_row \<Rightarrow> bool" where
  "later [] origin than \<longleftrightarrow> Compare (row_ptr origin) (row_ptr than) = - 1"
| "later (val # cols) origin than \<longleftrightarrow>
     (let res = Compare (value_of (row_Data origin) (col_Name val)) (value_of (row_Data than) (col_Name val))
      in if col_Orderable val \<and> col_Order val \<noteq> ORDER_UNDEFINED \<and> res \<noteq> 0
         then (if col_Order val = ORDER_DESC then res = - 1 else res = 1)
         else later cols origin than)"

lemma IsLess_later: "IsLess (map Some cols) = (\<lambda>origin than. Inr (later cols origin than))"
  by (induction cols) (auto simp: fun_eq_iff Let_def)

lemma later_irrefl [simp]: "\<not> later cols r r"
  by (induction cols) simp_all

text \<open>The verdict of one column, and the order as a lexicographic one.\<close>

definition column_later :: "column_definition \<Rightarrow> table_row \<Rightarrow> table_row \<Rightarrow> bool" where
  "column_later val r r' \<longleftrightarrow> col_Orderable val \<and> col_Order val \<noteq> ORDER_UNDEFINED \<and>
     (if col_Order val = ORDER_DESC
      then Compare (value_of (row_Data r) (col_Name val)) (value_of (row_Data r') (col_Name val)) = - 1
      else Compare (value_of (row_Data r') (col_Name val)) (value_of (row_Data r) (col_Name val)) = - 1)"

definition column_same :: "column_definition \<Rightarrow> table_row \<Rightarrow> table_row \<Rightarrow> bool" where
  "column_same val r r' \<longleftrightarrow> \<not> (col_Orderable val \<and> col_Order val \<noteq> ORDER_UNDEFINED) \<or>
     value_of (row_Data r) (col_Name val) = value_of (row_Data r') (col_Name val)"

lemma compared:
  fixes a b :: string
  obtains "a \<noteq> b" "Compare a b = - 1" "Compare b a = 1"
    | "a = b" "Compare a b = 0" "Compare b a = 0"
    | "a \<noteq> b" "Compare a b = 1" "Compare b a = - 1"
  using Compare_cases [of a b] Compare_swap [of b a] Compare_zero [of a b] by fastforce

lemma column_cases:
  obtains "column_later val r s" "\<not> column_same val r s" "\<not> column_later val s r"
    | "\<not> column_later val r s" "column_same val r s" "\<not> column_later val s r"
    | "\<not> column_later val r s" "\<not> column_same val r s" "column_later val s r"
proof (cases "col_Orderable val \<and> col_Order val \<noteq> ORDER_UNDEFINED")
  case True
  show ?thesis
    by (cases rule: compared [of "value_of (row_Data r) (col_Name val)" "value_of (row_Data s) (col_Name val)"];
        cases "col_Order val = ORDER_DESC")
      (use True that in \<open>simp_all add: column_later_def column_same_def\<close>)
qed (use that in \<open>simp add: column_later_def column_same_def\<close>)

lemma column_order:
  "column_later val r s \<Longrightarrow> column_later val s t \<Longrightarrow> column_later val r t"
  "column_later val r s \<Longrightarrow> column_same val s t \<Longrightarrow> column_later val r t"
  "column_same val r s \<Longrightarrow> column_later val s t \<Longrightarrow> column_later val r t"
  "column_same val r s \<Longrightarrow> column_same val s t \<Longrightarrow> column_same val r t"
proof -
  show "column_later val r s \<Longrightarrow> column_later val s t \<Longrightarrow> column_later val r t"
    unfolding column_later_def by (cases "col_Order val = ORDER_DESC") (simp_all, blast intro: Compare_trans, blast intro: Compare_trans)
qed (simp_all add: column_later_def column_same_def, auto)

lemma later_Cons: "later (val # cols) r r' \<longleftrightarrow> column_later val r r' \<or> column_same val r r' \<and> later cols r r'"
  by (cases rule: compared [of "value_of (row_Data r) (col_Name val)" "value_of (row_Data r') (col_Name val)"];
      cases "col_Orderable val"; cases "col_Order val = ORDER_UNDEFINED"; cases "col_Order val = ORDER_DESC")
    (simp_all add: Let_def column_later_def column_same_def)

declare later.simps(2) [simp del]

lemma later_total: "row_ptr r \<noteq> row_ptr r' \<Longrightarrow> later cols r r' \<longleftrightarrow> \<not> later cols r' r"
proof (induction cols)
  case Nil
  then show ?case using Compare_cases [of "row_ptr r" "row_ptr r'"] Compare_swap [of "row_ptr r'" "row_ptr r"] by auto
next
  case (Cons val cols)
  show ?case by (cases rule: column_cases [of val r r']; cases rule: column_cases [of val r' r])
    (use Cons in \<open>simp_all add: later_Cons\<close>)
qed

lemma later_trans: "later cols r s \<Longrightarrow> later cols s t \<Longrightarrow> later cols r t"
proof (induction cols)
  case Nil
  then show ?case by (auto intro: Compare_trans)
next
  case (Cons val cols)
  then show ?case using column_order(1-4) unfolding later_Cons by metis
qed

section \<open>The tree of rows\<close>

text \<open>
  Package rbtree, a parameter: an ordered tree, its operations given the comparison that the items carry. \<open>rb_Descend\<close>
  lists the items from the greatest on; a comparison may panic.
\<close>

record 't rbtree =
  rb_New :: 't
  rb_Insert :: "(table_row \<Rightarrow> table_row \<Rightarrow> panic + bool) \<Rightarrow> table_row \<Rightarrow> 't \<Rightarrow> panic + 't"
  rb_Len :: "'t \<Rightarrow> 64 word"
  rb_Min :: "'t \<Rightarrow> table_row option"
  rb_Descend :: "(table_row \<Rightarrow> table_row \<Rightarrow> panic + bool) \<Rightarrow> 't \<Rightarrow> panic + table_row list"

record 't sortable_rowset =
  rs_Limit :: "64 word"
  rs_Start :: "64 word"
  rs_cols :: "column_definition option list"
  rs_Rows :: 't

definition newSortableRowSet :: "'t rbtree \<Rightarrow> 64 word \<Rightarrow> 64 word \<Rightarrow> column_definition option list \<Rightarrow> 't sortable_rowset" where
  "newSortableRowSet tr start limit cols = \<lparr>rs_Limit = limit, rs_Start = start, rs_cols = cols, rs_Rows = rb_New tr\<rparr>"

definition Insert_row :: "'t rbtree \<Rightarrow> table_row \<Rightarrow> 't sortable_rowset \<Rightarrow> panic + 't sortable_rowset" where
  "Insert_row tr row rs =
     (case rb_Insert tr (IsLess (rs_cols rs)) row (rs_Rows rs) of
        Inl p \<Rightarrow> Inl p
      | Inr t \<Rightarrow> Inr (rs\<lparr>rs_Rows := t\<rparr>))"

definition RowSet_Add :: "'t rbtree \<Rightarrow> table_row \<Rightarrow> 't sortable_rowset \<Rightarrow> panic + 't sortable_rowset" where
  "RowSet_Add tr row rs =
     (if rb_Len tr (rs_Rows rs) > rs_Limit rs then
        (case rb_Min tr (rs_Rows rs) of
           None \<Rightarrow> Inl NilDeref
         | Some m \<Rightarrow>
             (case IsLess (rs_cols rs) m row of
                Inl p \<Rightarrow> Inl p
              | Inr True \<Rightarrow> Inr rs
              | Inr False \<Rightarrow> Insert_row tr row rs))
      else Insert_row tr row rs)"

fun page_loop :: "64 word \<Rightarrow> 64 word \<Rightarrow> 64 word \<Rightarrow> table_row list \<Rightarrow> table_row list" where
  "page_loop start limit count [] = []"
| "page_loop start limit count (row # rows) =
     (if count \<ge> start \<and> count < limit then row # page_loop start limit (count + 1) rows
      else page_loop start limit (count + 1) rows)"

definition GetRows :: "'t rbtree \<Rightarrow> 't sortable_rowset \<Rightarrow> panic + table_row list" where
  "GetRows tr rs =
     (if rb_Len tr (rs_Rows rs) \<ge> rs_Start rs then
        (case rb_Descend tr (IsLess (rs_cols rs)) (rs_Rows rs) of
           Inl p \<Rightarrow> Inl p
         | Inr rows \<Rightarrow> Inr (page_loop (rs_Start rs) (rs_Limit rs) 0 rows))
      else Inr [])"

section \<open>What the tree promises\<close>

text \<open>A row at its place in a list in descending order; an item that is already there stays.\<close>

fun place :: "(table_row \<Rightarrow> table_row \<Rightarrow> bool) \<Rightarrow> table_row \<Rightarrow> table_row list \<Rightarrow> table_row list" where
  "place lt r [] = [r]"
| "place lt r (x # xs) =
     (if lt x r then r # x # xs else if lt r x then x # place lt r xs else x # xs)"

text \<open>
  The documented behaviour of the tree: \<open>items\<close> are its items from the greatest to the smallest, as long as the comparison
  orders them strictly and does not panic.
\<close>

definition strict_order :: "(table_row \<Rightarrow> table_row \<Rightarrow> bool) \<Rightarrow> table_row set \<Rightarrow> bool" where
  "strict_order lt A \<longleftrightarrow> (\<forall>x \<in> A. \<not> lt x x) \<and> (\<forall>x \<in> A. \<forall>y \<in> A. \<forall>z \<in> A. lt x y \<longrightarrow> lt y z \<longrightarrow> lt x z)
     \<and> (\<forall>x \<in> A. \<forall>y \<in> A. x \<noteq> y \<longrightarrow> lt x y \<or> lt y x)"

lemma strict_order_trans:
  "strict_order lt A \<Longrightarrow> x \<in> A \<Longrightarrow> y \<in> A \<Longrightarrow> z \<in> A \<Longrightarrow> lt x y \<Longrightarrow> lt y z \<Longrightarrow> lt x z"
  unfolding strict_order_def by blast

lemma strict_order_total: "strict_order lt A \<Longrightarrow> x \<in> A \<Longrightarrow> y \<in> A \<Longrightarrow> x \<noteq> y \<Longrightarrow> lt x y \<or> lt y x"
  unfolding strict_order_def by blast

lemma strict_order_subset: "strict_order lt A \<Longrightarrow> B \<subseteq> A \<Longrightarrow> strict_order lt B"
  unfolding strict_order_def by blast

definition rbtree_contract :: "'t rbtree \<Rightarrow> ('t \<Rightarrow> table_row list) \<Rightarrow> bool" where
  "rbtree_contract tr items \<longleftrightarrow>
     items (rb_New tr) = [] \<and>
     (\<forall>t. rb_Len tr t = of_nat (length (items t))) \<and>
     (\<forall>t. rb_Min tr t = (if items t = [] then None else Some (last (items t)))) \<and>
     (\<forall>lt t. strict_order lt (set (items t)) \<and> sorted_wrt (\<lambda>x y. lt y x) (items t) \<longrightarrow>
        rb_Descend tr (\<lambda>x y. Inr (lt x y)) t = Inr (items t)) \<and>
     (\<forall>lt r t. strict_order lt (insert r (set (items t))) \<and> sorted_wrt (\<lambda>x y. lt y x) (items t) \<longrightarrow>
        (\<exists>t'. rb_Insert tr (\<lambda>x y. Inr (lt x y)) r t = Inr t' \<and> items t' = place lt r (items t)))"

lemma set_place: "set (place lt r xs) \<subseteq> insert r (set xs)" "set xs \<subseteq> set (place lt r xs)"
  by (induction xs) auto

lemma place_new:
  assumes "strict_order lt (insert r (set xs))" "sorted_wrt (\<lambda>x y. lt y x) xs" "r \<notin> set xs"
  shows "set (place lt r xs) = insert r (set xs) \<and> sorted_wrt (\<lambda>x y. lt y x) (place lt r xs) \<and>
    length (place lt r xs) = Suc (length xs)"
  using assms
proof (induction xs)
  case (Cons x xs)
  have so: "strict_order lt (insert r (set xs))" by (rule strict_order_subset [OF Cons.prems(1)]) auto
  have IH: "set (place lt r xs) = insert r (set xs)" "sorted_wrt (\<lambda>x y. lt y x) (place lt r xs)"
      "length (place lt r xs) = Suc (length xs)"
    using Cons.IH [OF so] Cons.prems by auto
  show ?case
  proof (cases "lt x r")
    case True
    have "lt y r" if "y \<in> set xs" for y
      by (rule strict_order_trans [OF Cons.prems(1), of y x r]) (use True that Cons.prems(2) in auto)
    with True Cons.prems show ?thesis by auto
  next
    case False
    then have "lt r x" using strict_order_total [OF Cons.prems(1), of x r] Cons.prems(3) by auto
    with False IH Cons.prems show ?thesis by auto
  qed
qed simp

text \<open>A tree that is a list, for examples.\<close>

fun place_sum :: "(table_row \<Rightarrow> table_row \<Rightarrow> panic + bool) \<Rightarrow> table_row \<Rightarrow> table_row list \<Rightarrow> panic + table_row list" where
  "place_sum cmp r [] = Inr [r]"
| "place_sum cmp r (x # xs) =
     (case cmp x r of
        Inl p \<Rightarrow> Inl p
      | Inr True \<Rightarrow> Inr (r # x # xs)
      | Inr False \<Rightarrow>
          (case cmp r x of
             Inl p \<Rightarrow> Inl p
           | Inr True \<Rightarrow> (case place_sum cmp r xs of Inl p \<Rightarrow> Inl p | Inr ys \<Rightarrow> Inr (x # ys))
           | Inr False \<Rightarrow> Inr (x # xs)))"

definition list_tree :: "table_row list rbtree" where
  "list_tree = \<lparr>rb_New = [], rb_Insert = place_sum, rb_Len = (\<lambda>t. of_nat (length t)),
     rb_Min = (\<lambda>t. if t = [] then None else Some (last t)), rb_Descend = (\<lambda>cmp t. Inr t)\<rparr>"

lemma place_sum_pure: "place_sum (\<lambda>x y. Inr (lt x y)) r xs = Inr (place lt r xs)"
  by (induction xs) auto

lemma list_tree_contract: "rbtree_contract list_tree (\<lambda>t. t)"
  by (simp add: rbtree_contract_def list_tree_def place_sum_pure)

section \<open>Pages\<close>

lemma strict_order_later: "inj_on row_ptr A \<Longrightarrow> strict_order (later cols) A"
  unfolding strict_order_def
  by (intro conjI ballI impI) (auto intro: later_trans dest: later_total inj_onD)

text \<open>Row sets over a tree that keeps its contract.\<close>

definition rowset_ok :: "('t \<Rightarrow> table_row list) \<Rightarrow> column_definition list \<Rightarrow> 't sortable_rowset \<Rightarrow> bool" where
  "rowset_ok items cols rs \<longleftrightarrow> rs_cols rs = map Some cols \<and> inj_on row_ptr (set (items (rs_Rows rs))) \<and>
     sorted_wrt (\<lambda>x y. later cols y x) (items (rs_Rows rs)) \<and> length (items (rs_Rows rs)) < 2 ^ 64"

lemma rb_Len_unat:
  assumes "rbtree_contract tr items" "rowset_ok items cols rs"
  shows "unat (rb_Len tr (rs_Rows rs)) = length (items (rs_Rows rs))"
  using assms by (simp add: rbtree_contract_def rowset_ok_def unat_of_nat)

lemma Insert_row_ok:
  assumes "rbtree_contract tr items" "rowset_ok items cols rs" "row_ptr row \<notin> row_ptr ` set (items (rs_Rows rs))"
    "Suc (length (items (rs_Rows rs))) < 2 ^ 64"
  shows "\<exists>rs'. Insert_row tr row rs = Inr rs' \<and> rowset_ok items cols rs' \<and>
    items (rs_Rows rs') = place (later cols) row (items (rs_Rows rs)) \<and>
    set (items (rs_Rows rs')) = insert row (set (items (rs_Rows rs))) \<and>
    length (items (rs_Rows rs')) = Suc (length (items (rs_Rows rs))) \<and>
    rs_Limit rs' = rs_Limit rs \<and> rs_Start rs' = rs_Start rs"
proof -
  let ?xs = "items (rs_Rows rs)"
  have inj: "inj_on row_ptr (insert row (set ?xs))" using assms(2,3) by (auto simp: rowset_ok_def)
  have so: "strict_order (later cols) (insert row (set ?xs))" by (rule strict_order_later [OF inj])
  have sorted: "sorted_wrt (\<lambda>x y. later cols y x) ?xs" and cols: "rs_cols rs = map Some cols"
    using assms(2) by (simp_all add: rowset_ok_def)
  obtain t' where t': "rb_Insert tr (\<lambda>x y. Inr (later cols x y)) row (rs_Rows rs) = Inr t'"
      "items t' = place (later cols) row ?xs"
    using assms(1) so sorted unfolding rbtree_contract_def by blast
  have "row \<notin> set ?xs" using assms(3) by blast
  from place_new [OF so sorted this] t' cols inj assms(4) show ?thesis
    by (simp add: Insert_row_def IsLess_later rowset_ok_def)
qed

lemma page_loop_spec:
  "unat count + length rows < 2 ^ 64 \<Longrightarrow>
     page_loop start limit count rows = drop (unat start - unat count) (take (unat limit - unat count) rows)"
proof (induction rows arbitrary: count)
  case (Cons row rows)
  have Suc: "unat (count + 1) = Suc (unat count)"
    using Cons.prems by (simp add: unat_word_ariths)
  have IH: "page_loop start limit (count + 1) rows =
      drop (unat start - Suc (unat count)) (take (unat limit - Suc (unat count)) rows)"
    using Cons.IH [of "count + 1"] Cons.prems Suc by simp
  have "unat limit - Suc (unat count) = unat limit - unat count - 1" "unat start - Suc (unat count) = unat start - unat count - 1"
    by simp_all
  then show ?case
    using IH by (cases "unat limit - unat count"; cases "unat start - unat count")
      (auto simp: word_le_nat_alt word_less_nat_alt)
qed simp

lemma GetRows_ok:
  assumes "rbtree_contract tr items" "rowset_ok items cols rs"
  shows "GetRows tr rs = Inr (drop (unat (rs_Start rs)) (take (unat (rs_Limit rs)) (items (rs_Rows rs))))"
proof -
  let ?xs = "items (rs_Rows rs)"
  have len: "unat (rb_Len tr (rs_Rows rs)) = length ?xs" by (rule rb_Len_unat [OF assms])
  have "strict_order (later cols) (set ?xs)" "sorted_wrt (\<lambda>x y. later cols y x) ?xs" "rs_cols rs = map Some cols"
      "length ?xs < 2 ^ 64"
    using assms(2) strict_order_later by (auto simp: rowset_ok_def)
  then have "rb_Descend tr (IsLess (rs_cols rs)) (rs_Rows rs) = Inr ?xs" "page_loop (rs_Start rs) (rs_Limit rs) 0 ?xs =
      drop (unat (rs_Start rs)) (take (unat (rs_Limit rs)) ?xs)"
    using assms(1) page_loop_spec [of 0 ?xs] by (simp_all add: rbtree_contract_def IsLess_later)
  then show ?thesis using len by (auto simp: GetRows_def word_le_nat_alt)
qed

lemma RowSet_Add_room:
  assumes "rbtree_contract tr items" "rowset_ok items cols rs" "length (items (rs_Rows rs)) \<le> unat (rs_Limit rs)"
  shows "RowSet_Add tr row rs = Insert_row tr row rs"
  using assms rb_Len_unat [OF assms(1,2)] by (simp add: RowSet_Add_def word_less_nat_alt)

text \<open>Rows that are added one after the other.\<close>

fun add_rows :: "'t rbtree \<Rightarrow> table_row list \<Rightarrow> 't sortable_rowset \<Rightarrow> panic + 't sortable_rowset" where
  "add_rows tr [] rs = Inr rs"
| "add_rows tr (row # rows) rs =
     (case RowSet_Add tr row rs of Inl p \<Rightarrow> Inl p | Inr rs \<Rightarrow> add_rows tr rows rs)"

lemma add_rows_room:
  assumes "rbtree_contract tr items" "rowset_ok items cols rs"
    "distinct (map row_ptr rows)" "row_ptr ` set rows \<inter> row_ptr ` set (items (rs_Rows rs)) = {}"
    "length (items (rs_Rows rs)) + length rows \<le> Suc (unat (rs_Limit rs))"
    "length (items (rs_Rows rs)) + length rows < 2 ^ 64"
  shows "\<exists>rs'. add_rows tr rows rs = Inr rs' \<and> rowset_ok items cols rs' \<and>
    set (items (rs_Rows rs')) = set rows \<union> set (items (rs_Rows rs)) \<and>
    rs_Limit rs' = rs_Limit rs \<and> rs_Start rs' = rs_Start rs"
  using assms
proof (induction rows arbitrary: rs)
  case (Cons row rows)
  have "RowSet_Add tr row rs = Insert_row tr row rs"
    using Cons.prems by (intro RowSet_Add_room [OF Cons.prems(1,2)]) simp
  moreover obtain rs1 where rs1: "Insert_row tr row rs = Inr rs1" "rowset_ok items cols rs1"
      "set (items (rs_Rows rs1)) = insert row (set (items (rs_Rows rs)))"
      "length (items (rs_Rows rs1)) = Suc (length (items (rs_Rows rs)))" "rs_Limit rs1 = rs_Limit rs" "rs_Start rs1 = rs_Start rs"
    using Insert_row_ok [OF Cons.prems(1,2), of row] Cons.prems(4,6) by auto
  moreover obtain rs' where "add_rows tr rows rs1 = Inr rs'" "rowset_ok items cols rs'"
      "set (items (rs_Rows rs')) = set rows \<union> set (items (rs_Rows rs1))" "rs_Limit rs' = rs_Limit rs1" "rs_Start rs' = rs_Start rs1"
    using Cons.IH [OF Cons.prems(1) rs1(2)] Cons.prems(3-6) rs1 by auto
  ultimately show ?case by auto
qed auto

text \<open>
  C31: Pages: as long as not more rows are added than the end of the page and one, the page shows what it should: of all the
  rows, in the order of the request, those from the start to the end.
\<close>

theorem page_of_few_rows:
  assumes "rbtree_contract tr items" "distinct (map row_ptr rows)" "length rows \<le> Suc (unat limit)" "length rows < 2 ^ 64"
  shows "\<exists>rs shown. add_rows tr rows (newSortableRowSet tr start limit (map Some cols)) = Inr rs \<and>
    GetRows tr rs = Inr (drop (unat start) (take (unat limit) shown)) \<and>
    set shown = set rows \<and> sorted_wrt (\<lambda>r r'. later cols r' r) shown"
proof -
  let ?rs = "newSortableRowSet tr start limit (map Some cols)"
  have new: "items (rs_Rows ?rs) = []" using assms(1) by (simp add: newSortableRowSet_def rbtree_contract_def)
  then have "rowset_ok items cols ?rs" by (simp add: rowset_ok_def) (simp add: newSortableRowSet_def)
  moreover have "rs_Limit ?rs = limit" "rs_Start ?rs = start" by (simp_all add: newSortableRowSet_def)
  ultimately obtain rs where "add_rows tr rows ?rs = Inr rs" "rowset_ok items cols rs" "set (items (rs_Rows rs)) = set rows"
      "rs_Limit rs = limit" "rs_Start rs = start"
    using add_rows_room [OF assms(1), of cols ?rs rows] assms(2-4) new by auto
  then show ?thesis
    using GetRows_ok [OF assms(1), of cols rs] by (intro exI [of _ rs] exI [of _ "items (rs_Rows rs)"]) (simp add: rowset_ok_def)
qed

definition sample_row :: "string \<Rightarrow> string \<Rightarrow> table_row" where
  "sample_row p v = newTableRow p [(''state'', v)]"

theorem page_of_few_rows_witness:
  "\<exists>rs shown. GetRows list_tree rs = Inr (take 1 shown) \<and>
     set shown = {sample_row ''0x2'' ''b'', sample_row ''0x1'' ''a''} \<and>
     sorted_wrt (\<lambda>r r'. later [sample_column] r' r) shown"
  using page_of_few_rows [OF list_tree_contract, of "[sample_row ''0x2'' ''b'', sample_row ''0x1'' ''a'']" 1 0 "[sample_column]"]
  by (auto simp: sample_row_def newTableRow_def)

text \<open>
  The page that is wrong: once the set holds more rows than the end of the page, it takes rows that are shown after the
  last one and drops those that are shown before it. With a page of one row, the first row of the table is missing.
\<close>

theorem full_page_drops_first_row:
  assumes "rbtree_contract tr items" "distinct (map row_ptr [x, y, z])" "later cols y x" "later cols x z"
  shows "\<exists>rs. add_rows tr [x, y, z] (newSortableRowSet tr 0 1 (map Some cols)) = Inr rs \<and> GetRows tr rs = Inr [x] \<and>
    sorted_wrt (\<lambda>r r'. later cols r' r) [z, x, y]"
proof -
  let ?rs = "newSortableRowSet tr 0 1 (map Some cols)"
  have zy: "later cols y z" using later_trans [OF assms(3,4)] .
  have new: "items (rs_Rows ?rs) = []" using assms(1) by (simp add: newSortableRowSet_def rbtree_contract_def)
  then have ok: "rowset_ok items cols ?rs" by (simp add: rowset_ok_def) (simp add: newSortableRowSet_def)
  have lim: "rs_Limit ?rs = 1" "rs_Start ?rs = 0" by (simp_all add: newSortableRowSet_def)
  obtain rs1 where rs1: "Insert_row tr x ?rs = Inr rs1" "rowset_ok items cols rs1" "items (rs_Rows rs1) = [x]"
      "rs_Limit rs1 = 1" "rs_Start rs1 = 0"
    using Insert_row_ok [OF assms(1) ok, of x] new lim by auto
  obtain rs2 where rs2: "Insert_row tr y rs1 = Inr rs2" "rowset_ok items cols rs2" "items (rs_Rows rs2) = [x, y]"
      "rs_Limit rs2 = 1" "rs_Start rs2 = 0"
    using Insert_row_ok [OF assms(1) rs1(2), of y] rs1 assms(2,3) later_total [of y x cols] by auto
  have "rb_Len tr (rs_Rows rs2) = 2" "rb_Min tr (rs_Rows rs2) = Some y" "rs_cols rs2 = map Some cols"
    using assms(1) rs2(2,3) by (simp_all add: rbtree_contract_def rowset_ok_def)
  then have "RowSet_Add tr z rs2 = Inr rs2" using zy rs2(4) by (simp add: RowSet_Add_def IsLess_later)
  moreover have "RowSet_Add tr x ?rs = Inr rs1" "RowSet_Add tr y rs1 = Inr rs2"
    using RowSet_Add_room [OF assms(1) ok, of x] RowSet_Add_room [OF assms(1) rs1(2), of y] new lim rs1 rs2(1) by simp_all
  ultimately have "add_rows tr [x, y, z] ?rs = Inr rs2" by simp
  moreover have "GetRows tr rs2 = Inr [x]" using GetRows_ok [OF assms(1) rs2(2)] rs2 by simp
  ultimately show ?thesis using assms(3,4) zy by auto
qed

theorem full_page_drops_first_row_witness:
  "\<exists>rs. add_rows list_tree [sample_row ''0x1'' ''b'', sample_row ''0x2'' ''c'', sample_row ''0x3'' ''a'']
       (newSortableRowSet list_tree 0 1 [Some sample_column]) = Inr rs \<and> GetRows list_tree rs = Inr [sample_row ''0x1'' ''b'']"
proof -
  have "later [sample_column] (sample_row ''0x2'' ''c'') (sample_row ''0x1'' ''b'')"
    "later [sample_column] (sample_row ''0x1'' ''b'') (sample_row ''0x3'' ''a'')"
    by (simp_all add: later.simps(2) sample_column_def sample_row_def newTableRow_def value_of_def ORDER_UNDEFINED_def ORDER_DESC_def Let_def)
  then show ?thesis
    using full_page_drops_first_row [OF list_tree_contract, of "sample_row ''0x1'' ''b''" "sample_row ''0x2'' ''c''"
        "sample_row ''0x3'' ''a''" "[sample_column]"]
    by (auto simp: sample_row_def newTableRow_def)
qed

section \<open>Requests and results\<close>

text \<open>
  Package cast, a parameter: what it makes of a form value, or of one that is missing.
\<close>

record cast =
  ct_ToInt :: "form_value option \<Rightarrow> int"
  ct_ToBool :: "form_value option \<Rightarrow> bool"
  ct_ToString :: "form_value \<Rightarrow> string"

text \<open>Assertions that a value is a map, or a string.\<close>

fun as_map :: "form_value option \<Rightarrow> panic + form_tree" where
  "as_map (Some (Branch t)) = Inr t"
| "as_map (Some (Leaf s)) = Inl TypeAssertion"
| "as_map None = Inl TypeAssertion"

fun as_string :: "form_value option \<Rightarrow> panic + string" where
  "as_string (Some (Leaf s)) = Inr s"
| "as_string (Some (Branch t)) = Inl TypeAssertion"
| "as_string None = Inl TypeAssertion"

fun parse_orders :: "cast \<Rightarrow> form_tree \<Rightarrow> (string, string) gomap \<Rightarrow> panic + (string, string) gomap" where
  "parse_orders ct [] orderings = Inr orderings"
| "parse_orders ct ((k, val) # orders) orderings =
     (case as_map (Some val) of
        Inl p \<Rightarrow> Inl p
      | Inr mapValue \<Rightarrow>
          (case (gm_get mapValue ''column'', gm_get mapValue ''dir'') of
             (Some column, Some dir) \<Rightarrow>
               parse_orders ct orders (gm_set (ct_ToString ct column) (ct_ToString ct dir) orderings)
           | _ \<Rightarrow> parse_orders ct orders orderings))"

definition parseOrdering :: "cast \<Rightarrow> form_tree \<Rightarrow> panic + (string, string) gomap" where
  "parseOrdering ct formValues =
     (case gm_get formValues ''order'' of
        None \<Rightarrow> Inr []
      | Some orders \<Rightarrow> (case as_map (Some orders) of Inl p \<Rightarrow> Inl p | Inr m \<Rightarrow> parse_orders ct m []))"

definition newSearchDefinition :: "cast \<Rightarrow> form_tree \<Rightarrow> panic + search_definition" where
  "newSearchDefinition ct search =
     (case as_string (gm_get search ''value'') of
        Inl p \<Rightarrow> Inl p
      | Inr val \<Rightarrow> Inr (newSearch val (ct_ToBool ct (gm_get search ''regexp''))))"

definition newColumnDefinition :: "cast \<Rightarrow> form_tree \<Rightarrow> string \<Rightarrow> panic + column_definition" where
  "newColumnDefinition ct column order =
     (case as_string (gm_get column ''data'') of
        Inl p \<Rightarrow> Inl p
      | Inr name \<Rightarrow>
          (case as_map (gm_get column ''search'') of
             Inl p \<Rightarrow> Inl p
           | Inr search \<Rightarrow>
               (case newSearchDefinition ct search of
                  Inl p \<Rightarrow> Inl p
                | Inr sd \<Rightarrow>
                    Inr \<lparr>col_Name = name, col_Searchable = ct_ToBool ct (gm_get column ''searchable''),
                         col_Orderable = ct_ToBool ct (gm_get column ''orderable''), col_Order = order,
                         col_Search = sd\<rparr>)))"

record search_request =
  sr_Draw :: int
  sr_Columns :: "column_definition option list"
  sr_Start :: int
  sr_Length :: int
  sr_Search :: "search_definition option"

definition empty_request :: search_request where
  "empty_request = \<lparr>sr_Draw = 0, sr_Columns = [], sr_Start = 0, sr_Length = 0, sr_Search = None\<rparr>"

text \<open>\<open>End()\<close> as the word that \<open>QueryData\<close> makes of it.\<close>

definition sr_End :: "search_request \<Rightarrow> 64 word" where
  "sr_End sr = word_of_int (sr_Start sr) + word_of_int (sr_Length sr)"

text \<open>The loop over the columns: the key of a column is its place in the list.\<close>

fun set_columns ::
  "cast \<Rightarrow> (string, string) gomap \<Rightarrow> form_tree \<Rightarrow> column_definition option list \<Rightarrow> panic + column_definition option list"
where
  "set_columns ct orderings [] cols = Inr cols"
| "set_columns ct orderings ((key, column) # columnsList) cols =
     (case as_map (Some column) of
        Inl p \<Rightarrow> Inl p
      | Inr m \<Rightarrow>
          (case newColumnDefinition ct m (value_of orderings key) of
             Inl p \<Rightarrow> Inl p
           | Inr col \<Rightarrow>
               let i = ct_ToInt ct (Some (Leaf key))
               in if 0 \<le> i \<and> i < int (length cols)
                  then set_columns ct orderings columnsList (cols[nat i := Some col])
                  else Inl IndexOutOfRange))"

record data_request =
  dr_Method :: string
  dr_PostForm :: "(string, string list) gomap"
  dr_Query :: "(string, string list) gomap"

definition getRequestValues :: "data_request \<Rightarrow> (string, string list) gomap option" where
  "getRequestValues r =
     (if dr_Method r = ''POST'' then Some (dr_PostForm r)
      else if dr_Method r = ''GET'' then Some (dr_Query r) else None)"

definition newSearchRequest :: "cast \<Rightarrow> data_request \<Rightarrow> panic + search_request" where
  "newSearchRequest ct r =
     (case getRequestValues r of
        None \<Rightarrow> Inr empty_request
      | Some vals \<Rightarrow>
          (case TreePostFormValues vals of
             Inl p \<Rightarrow> Inl p
           | Inr formValues \<Rightarrow>
               (case parseOrdering ct formValues of
                  Inl p \<Rightarrow> Inl p
                | Inr orderings \<Rightarrow>
                    (case gm_get formValues ''columns'' of
                       None \<Rightarrow> Inr empty_request
                     | Some columns \<Rightarrow>
                         (case as_map (Some columns) of
                            Inl p \<Rightarrow> Inl p
                          | Inr columnsList \<Rightarrow>
                              (case set_columns ct orderings columnsList (replicate (length columnsList) None) of
                                 Inl p \<Rightarrow> Inl p
                               | Inr cols \<Rightarrow>
                                   (case as_map (gm_get formValues ''search'') of
                                      Inl p \<Rightarrow> Inl p
                                    | Inr search \<Rightarrow>
                                        (case newSearchDefinition ct search of
                                           Inl p \<Rightarrow> Inl p
                                         | Inr sd \<Rightarrow>
                                             Inr \<lparr>sr_Draw = ct_ToInt ct (gm_get formValues ''draw''),
                                                  sr_Columns = cols,
                                                  sr_Start = ct_ToInt ct (gm_get formValues ''start''),
                                                  sr_Length = ct_ToInt ct (gm_get formValues ''length''),
                                                  sr_Search = Some sd\<rparr>))))))))"

record 't default_store =
  ds_rows :: "'t sortable_rowset option"
  ds_search :: "search_definition option"
  ds_filtered :: int
  ds_total :: int

text \<open>\<open>AddRow\<close>: its error is dropped by its callers, so it is a store that stays as it is.\<close>

definition AddRow ::
  "regexps \<Rightarrow> 't rbtree \<Rightarrow> table_row \<Rightarrow> 't default_store \<Rightarrow> panic + 't default_store"
where
  "AddRow re tr row ds =
     (case ds_rows ds of
        None \<Rightarrow> Inr ds
      | Some rows \<Rightarrow>
          (case FilterRow re (row_Data row) (ds_search ds) (rs_cols rows) of
             Inl p \<Rightarrow> Inl p
           | Inr False \<Rightarrow> Inr (ds\<lparr>ds_total := ds_total ds + 1\<rparr>)
           | Inr True \<Rightarrow>
               (case RowSet_Add tr row rows of
                  Inl p \<Rightarrow> Inl p
                | Inr rows \<Rightarrow>
                    Inr (ds\<lparr>ds_rows := Some rows, ds_filtered := ds_filtered ds + 1, ds_total := ds_total ds + 1\<rparr>))))"

record table_result =
  tr_Draw :: int
  tr_Total :: int
  tr_Filtered :: int
  tr_Data :: "table_row list"

definition query_store :: "'t rbtree \<Rightarrow> search_request \<Rightarrow> 't default_store" where
  "query_store tr sr =
     \<lparr>ds_rows = Some (newSortableRowSet tr (word_of_int (sr_Start sr)) (sr_End sr) (sr_Columns sr)),
      ds_search = sr_Search sr, ds_filtered = 0, ds_total = 0\<rparr>"

definition query_result :: "'t rbtree \<Rightarrow> search_request \<Rightarrow> 't default_store \<Rightarrow> panic + table_result" where
  "query_result tr sr ds =
     (case ds_rows ds of
        None \<Rightarrow> Inl NilDeref
      | Some rows \<Rightarrow>
          (case GetRows tr rows of
             Inl p \<Rightarrow> Inl p
           | Inr rows \<Rightarrow>
               Inr \<lparr>tr_Draw = sr_Draw sr, tr_Total = ds_total ds, tr_Filtered = ds_filtered ds, tr_Data = rows\<rparr>))"

text \<open>What a row looks like in the reply; data of the row's own hide the fields of the table.\<close>

datatype row_value = Row_String string | Row_Map "(string, string) gomap"

definition TableRow_MarshalJSON :: "table_row \<Rightarrow> (string, row_value) gomap" where
  "TableRow_MarshalJSON r =
     (let data = [];
          data = (if length (row_RowId r) > 0 then gm_set ''DT_RowId'' (Row_String (row_RowId r)) data else data);
          data = (if length (row_RowClass r) > 0 then gm_set ''DT_RowClass'' (Row_String (row_RowClass r)) data else data);
          data = (if length (row_RowData r) > 0 then gm_set ''DT_RowData'' (Row_String (row_RowId r)) data else data);
          data = (if length (row_RowAttr r) > 0 then gm_set ''DT_RowAttr'' (Row_Map (row_RowAttr r)) data else data)
      in foldl (\<lambda>data (key, val). gm_set key (Row_String val) data) data (row_Data r))"

end
