(* ===== verification/Dispatched_Query.thy ===== *)
theory Dispatched_Query
  imports Data_Table Samples
begin

text \<open>
  The history table: DispatchedCmdQuery of server.go, the source of the rows, and the handler of data_table/http_request.go that
  serves it, with the lock on the clients that the query takes.
\<close>

section \<open>The lock\<close>

text \<open>\<open>sync.RWMutex\<close>: who has it. \<open>None\<close> stands for a call that waits.\<close>

record rwmutex =
  rw_readers :: nat
  rw_writing :: bool

definition RLock :: "rwmutex \<Rightarrow> rwmutex option" where
  "RLock m = (if rw_writing m then None else Some (m\<lparr>rw_readers := rw_readers m + 1\<rparr>))"

definition RUnlock :: "rwmutex \<Rightarrow> rwmutex" where
  "RUnlock m = m\<lparr>rw_readers := rw_readers m - 1\<rparr>"

definition Lock :: "rwmutex \<Rightarrow> rwmutex option" where
  "Lock m = (if rw_writing m \<or> rw_readers m > 0 then None else Some (m\<lparr>rw_writing := True\<rparr>))"

section \<open>The query\<close>

text \<open>
  What the query takes from its surroundings: how a time is written (in the time zone of the host), the addresses of the maps
  it makes, and the order in which each of them is visited.
\<close>

record query_env =
  qe_format :: "int \<Rightarrow> string"
  qe_addr :: "nat \<Rightarrow> string"
  qe_order :: "nat \<Rightarrow> (string, string) gomap \<Rightarrow> (string, string) gomap"

definition dispatched_row :: "query_env \<Rightarrow> time \<Rightarrow> server \<Rightarrow> nat \<Rightarrow> string \<Rightarrow> cmd \<Rightarrow> table_row" where
  "dispatched_row q now s n clientId d =
     (let commandTime = cmd_Created d;
          template = (case TemplateStore_Get (srv_templateStore s) (cmd_TemplateId d) of
                        Some t \<Rightarrow> tmpl_Title t | None \<Rightarrow> ''-'');
          user = (case ById (srv_userStore s) (cmd_RequestUserId d) of
                    None \<Rightarrow> ''-''
                  | Some i \<Rightarrow> (case get_user (srv_userStore s) i of Some u \<Rightarrow> user_Username u | None \<Rightarrow> ''-''));
          row = [(''created'', qe_format q commandTime), (''template'', template), (''user'', user),
                 (''client'', clientId), (''state'', cmd_State d),
                 (''link'', ''logs?id='' @ cmd_Id d @ ''&client='' @ clientId)];
          rowObj = newTableRow (qe_addr q n) (qe_order q n row)
      in if now - commandTime * nanosecond_per_second > 24 * 3600 * nanosecond_per_second
         then rowObj\<lparr>row_RowClass := ''history-old''\<rparr> else rowObj)"

text \<open>The inner loop, over the commands of one client; \<open>n\<close> rows have been made.\<close>

fun query_cmds ::
  "regexps \<Rightarrow> 't rbtree \<Rightarrow> query_env \<Rightarrow> time \<Rightarrow> server \<Rightarrow> string \<Rightarrow> (string, ref) gomap \<Rightarrow> nat \<Rightarrow> 't default_store \<Rightarrow>
   panic + (nat \<times> 't default_store)"
where
  "query_cmds re tr q now s clientId [] n ds = Inr (n, ds)"
| "query_cmds re tr q now s clientId ((k, r) # cmds) n ds =
     (case get_cmd (srv_clients s) r of
        None \<Rightarrow> Inl NilDeref
      | Some d \<Rightarrow>
          (case AddRow re tr (dispatched_row q now s n clientId d) ds of
             Inl p \<Rightarrow> Inl p
           | Inr ds \<Rightarrow> query_cmds re tr q now s clientId cmds (n + 1) ds))"

fun query_clients ::
  "regexps \<Rightarrow> 't rbtree \<Rightarrow> query_env \<Rightarrow> time \<Rightarrow> (string, ref) gomap \<Rightarrow> nat \<Rightarrow> 't default_store \<Rightarrow> server \<Rightarrow>
   (panic + 't default_store) \<times> server"
where
  "query_clients re tr q now [] n ds s = (Inr ds, s)"
| "query_clients re tr q now ((k, client) # clients) n ds s =
     (case get_client (srv_clients s) client of
        None \<Rightarrow> (Inl NilDeref, s)
      | Some c \<Rightarrow>
          (case GetDispatchedCmds now client (srv_clients s) of
             (cmds, store) \<Rightarrow>
               let s = s\<lparr>srv_clients := store\<rparr>
               in (case query_cmds re tr q now s (rc_ClientId c) cmds n ds of
                     Inl p \<Rightarrow> (Inl p, s)
                   | Inr (n, ds) \<Rightarrow> query_clients re tr q now clients n ds s)))"

text \<open>
  \<open>DispatchedCmdQuery\<close>, from a state in which the lock is free to read. The lock is given back after the loops, not by a
  deferred call.
\<close>

definition DispatchedCmdQuery ::
  "regexps \<Rightarrow> 't rbtree \<Rightarrow> query_env \<Rightarrow> time \<Rightarrow> 't default_store \<Rightarrow> server \<times> rwmutex \<Rightarrow>
   ((panic + 't default_store) \<times> server \<times> rwmutex) option"
where
  "DispatchedCmdQuery re tr q now ds sm =
     (case sm of (s, m) \<Rightarrow>
        (case RLock m of
           None \<Rightarrow> None
         | Some m \<Rightarrow>
             (case query_clients re tr q now (cs_clients (srv_clients s)) 0 ds s of
                (Inl p, s) \<Rightarrow> Some (Inl p, s, m)
              | (Inr ds, s) \<Rightarrow> Some (Inr ds, s, RUnlock m))))"

text \<open>
  \<open>QueryData\<close> with this source, and \<open>DataStoreHandler\<close>, the handler of \<open>POST /dispatched\<close>. It is registered as it is: no
  session is asked for. A panic in it is recovered by the http package.
\<close>

definition QueryData ::
  "regexps \<Rightarrow> 't rbtree \<Rightarrow> query_env \<Rightarrow> time \<Rightarrow> search_request \<Rightarrow> server \<times> rwmutex \<Rightarrow>
   ((panic + table_result) \<times> server \<times> rwmutex) option"
where
  "QueryData re tr q now sr sm =
     (case DispatchedCmdQuery re tr q now (query_store tr sr) sm of
        None \<Rightarrow> None
      | Some (Inl p, sm) \<Rightarrow> Some (Inl p, sm)
      | Some (Inr ds, sm) \<Rightarrow> Some (query_result tr sr ds, sm))"

definition DataStoreHandler ::
  "cast \<Rightarrow> regexps \<Rightarrow> 't rbtree \<Rightarrow> query_env \<Rightarrow> time \<Rightarrow> data_request \<Rightarrow> server \<times> rwmutex \<Rightarrow>
   ((panic + table_result) \<times> server \<times> rwmutex) option"
where
  "DataStoreHandler ct re tr q now r sm =
     (case newSearchRequest ct r of
        Inl p \<Rightarrow> Some (Inl p, sm)
      | Inr sr \<Rightarrow> QueryData re tr q now sr sm)"

section \<open>A request without columns\<close>

lemma no_columns: "dr_Method r = ''POST'' \<Longrightarrow> dr_PostForm r = [] \<Longrightarrow> newSearchRequest ct r = Inr empty_request"
  by (simp add: newSearchRequest_def getRequestValues_def TreePostFormValues_def parseOrdering_def)

text \<open>Adding a row follows the pointer to the search that the request did not have.\<close>

lemma AddRow_without_search:
  assumes "ds_rows ds \<noteq> None" "ds_search ds = None" "row_Data row \<noteq> []"
  shows "AddRow re tr row ds = Inl NilDeref"
proof -
  obtain name v vs where "row_Data row = (name, v) # vs" using assms(3) by (cases "row_Data row") auto
  with assms(1,2) show ?thesis by (auto simp: AddRow_def FilterRow_def)
qed

lemma dispatched_row_data:
  assumes "\<And>n m. set (qe_order q n m) = set m"
  shows "row_Data (dispatched_row q now s n clientId d) \<noteq> []"
proof -
  have "qe_order q n (x # m) \<noteq> []" for x m using assms [of n "x # m"] by auto
  then show ?thesis by (simp add: dispatched_row_def newTableRow_def Let_def)
qed

lemma query_cmds_without_search:
  assumes "\<And>n m. set (qe_order q n m) = set m" "ds_rows ds \<noteq> None" "ds_search ds = None" "cmds \<noteq> []"
  shows "query_cmds re tr q now s clientId cmds n ds = Inl NilDeref"
proof -
  obtain k r cmds' where "cmds = (k, r) # cmds'" using assms(4) by (cases cmds) auto
  then show ?thesis
    using AddRow_without_search [OF assms(2,3) dispatched_row_data [OF assms(1)]] by (simp split: option.split)
qed

lemma purge_nothing:
  assumes "fst (GetDispatchedCmds now client cs) = []"
  shows "\<not> (\<exists>c k r. get_client cs client = Some c \<and> (k, r) \<in> set (rc_DispatchedCmds c) \<and> recent_cmd now cs r)"
  using assms by (fastforce simp: GetDispatchedCmds_def Let_def filter_empty_conv)

lemma purge_others:
  "client' \<noteq> client \<Longrightarrow> get_client (snd (GetDispatchedCmds now client cs)) client' = get_client cs client'"
  "recent_cmd now (snd (GetDispatchedCmds now client cs)) r = recent_cmd now cs r"
  by (auto simp: GetDispatchedCmds_def Let_def recent_cmd_def split: option.split)

lemma query_clients_without_search:
  assumes "\<And>n m. set (qe_order q n m) = set m" "ds_rows ds \<noteq> None" "ds_search ds = None"
    "(k, client) \<in> set clients" "get_client (srv_clients s) client = Some c" "(j, r) \<in> set (rc_DispatchedCmds c)"
    "recent_cmd now (srv_clients s) r"
  shows "fst (query_clients re tr q now clients n ds s) = Inl NilDeref"
  using assms(4-7)
proof (induction clients arbitrary: n s)
  case (Cons kc clients)
  obtain k' client' where kc: "kc = (k', client')" by (cases kc)
  show ?case
  proof (cases "get_client (srv_clients s) client'")
    case (Some c')
    let ?g = "GetDispatchedCmds now client' (srv_clients s)"
    show ?thesis
    proof (cases "fst ?g = []")
      case True
      have "client' \<noteq> client" using purge_nothing [OF True] Cons.prems by auto
      then have "fst (query_clients re tr q now clients n ds (s\<lparr>srv_clients := snd ?g\<rparr>)) = Inl NilDeref"
        using Cons.prems kc by (intro Cons.IH) (auto simp: purge_others)
      with kc Some True show ?thesis by (simp add: split_beta Let_def)
    next
      case False
      then show ?thesis using kc Some query_cmds_without_search [OF assms(1-3)] by (simp add: split_beta Let_def)
    qed
  qed (simp add: kc)
qed simp

text \<open>
  C28: The history table can bring the server to a halt: a POST without form fields, for which nobody has to log in, ends in a nil
  pointer as soon as there is one command in the history. The http package recovers the panic, but the lock on the
  clients stays taken: from then on it cannot be locked for writing, as looking up, registering and cleaning up clients need.
\<close>

theorem history_request_wedges_server:
  assumes "dr_Method r = ''POST''" "dr_PostForm r = []" "\<And>n m. set (qe_order q n m) = set m" "\<not> rw_writing m"
    "(k, client) \<in> set (cs_clients (srv_clients s))" "get_client (srv_clients s) client = Some c"
    "(j, ref) \<in> set (rc_DispatchedCmds c)" "recent_cmd now (srv_clients s) ref"
  shows "\<exists>s' m'. DataStoreHandler ct re tr q now r (s, m) = Some (Inl NilDeref, s', m') \<and>
    rw_readers m' = Suc (rw_readers m) \<and> Lock m' = None"
proof -
  let ?ds = "query_store tr empty_request"
  obtain m1 where m1: "RLock m = Some m1" "rw_readers m1 = Suc (rw_readers m)" using assms(4) by (simp add: RLock_def)
  have "ds_rows ?ds \<noteq> None" "ds_search ?ds = None" by (simp_all add: query_store_def empty_request_def)
  from query_clients_without_search [OF assms(3) this assms(5-8), of re tr 0]
  obtain s' where "query_clients re tr q now (cs_clients (srv_clients s)) 0 ?ds s = (Inl NilDeref, s')"
    by (metis prod.collapse)
  with m1 have "DataStoreHandler ct re tr q now r (s, m) = Some (Inl NilDeref, s', m1)"
    by (simp add: DataStoreHandler_def no_columns [OF assms(1,2)] QueryData_def DispatchedCmdQuery_def)
  with m1 show ?thesis by (simp add: Lock_def)
qed

definition sample_cast :: cast where
  "sample_cast = \<lparr>ct_ToInt = (\<lambda>v. 0), ct_ToBool = (\<lambda>v. False),
     ct_ToString = (\<lambda>v. case v of Leaf s \<Rightarrow> s | Branch t \<Rightarrow> [])\<rparr>"

definition sample_query :: query_env where
  "sample_query = \<lparr>qe_format = (\<lambda>t. ''2020-01-01 00:00:00''), qe_addr = (\<lambda>n. replicate n (CHR ''1'')), qe_order = (\<lambda>n m. m)\<rparr>"

text \<open>A server with one command in its history.\<close>

definition history_server :: server where
  "history_server = on_clients (\<lambda>cs. cs\<lparr>cs_heap := [sample_client\<lparr>rc_DispatchedCmds := [(''idx'', 0)]\<rparr>],
     cs_cmds := [newCmd ''z'' 0 ''uptime'' 10]\<rparr>) sample_server"

theorem history_request_wedges_server_witness:
  "\<exists>s' m'. DataStoreHandler sample_cast sample_regexps list_tree sample_query 0
       \<lparr>dr_Method = ''POST'', dr_PostForm = [], dr_Query = []\<rparr> (history_server, \<lparr>rw_readers = 0, rw_writing = False\<rparr>) =
     Some (Inl NilDeref, s', m') \<and> Lock m' = None"
proof -
  have "recent_cmd 0 (srv_clients history_server) 0"
    by (simp add: recent_cmd_def history_server_def h_get_def newCmd_def max_age_def)
  moreover have "(''c1'', 0) \<in> set (cs_clients (srv_clients history_server))"
    "get_client (srv_clients history_server) 0 = Some (sample_client\<lparr>rc_DispatchedCmds := [(''idx'', 0)]\<rparr>)"
    by (simp_all add: history_server_def h_get_def)
  ultimately show ?thesis
    using history_request_wedges_server [where r = "\<lparr>dr_Method = ''POST'', dr_PostForm = [], dr_Query = []\<rparr>" and q = sample_query
        and m = "\<lparr>rw_readers = 0, rw_writing = False\<rparr>" and s = history_server and ref = 0 and client = 0 and now = 0
        and j = "''idx''" and k = "''c1''"]
    by (fastforce simp: sample_query_def)
qed

section \<open>Totals\<close>

definition history_size :: "time \<Rightarrow> client_store \<Rightarrow> (string, ref) gomap \<Rightarrow> nat" where
  "history_size now cs clients = sum_list (map (\<lambda>(k, client). length (fst (GetDispatchedCmds now client cs))) clients)"

lemma AddRow_total:
  "AddRow re tr row ds = Inr ds' \<Longrightarrow> ds_rows ds \<noteq> None \<Longrightarrow>
     ds_rows ds' \<noteq> None \<and> ds_total ds' = ds_total ds + 1 \<and>
     ds_filtered ds \<le> ds_filtered ds' \<and> ds_filtered ds' \<le> ds_filtered ds + 1"
  by (auto simp: AddRow_def split: sum.splits bool.splits option.splits)

lemma query_cmds_total:
  "query_cmds re tr q now s clientId cmds n ds = Inr (n', ds') \<Longrightarrow> ds_rows ds \<noteq> None \<Longrightarrow>
     ds_rows ds' \<noteq> None \<and> ds_total ds' = ds_total ds + int (length cmds) \<and>
     ds_filtered ds \<le> ds_filtered ds' \<and> ds_filtered ds' \<le> ds_filtered ds + int (length cmds)"
proof (induction cmds arbitrary: n ds)
  case (Cons kr cmds)
  obtain k r where kr: "kr = (k, r)" by (cases kr)
  obtain d ds1 where "AddRow re tr (dispatched_row q now s n clientId d) ds = Inr ds1"
      "query_cmds re tr q now s clientId cmds (n + 1) ds1 = Inr (n', ds')"
    using Cons.prems(1) kr by (auto split: option.splits sum.splits)
  with Cons.IH [OF this(2)] AddRow_total [OF this(1) Cons.prems(2)] show ?case by auto
qed auto

lemma purge_twice:
  "fst (GetDispatchedCmds now client (snd (GetDispatchedCmds now client' cs))) = fst (GetDispatchedCmds now client cs)"
proof (cases "client = client'")
  case True
  have r: "recent_cmd now (upd_client client f cs) = recent_cmd now cs" for f by (simp add: recent_cmd_def fun_eq_iff)
  show ?thesis unfolding True
    by (auto simp: GetDispatchedCmds_def Let_def r [unfolded True] filter_filter split: option.split)
next
  case False
  have r: "recent_cmd now (snd (GetDispatchedCmds now client' cs)) = recent_cmd now cs"
    by (intro ext) (rule purge_others)
  show ?thesis
    unfolding GetDispatchedCmds_def [of now client] purge_others(1) [OF False] r
    by (simp add: Let_def split: option.split)
qed

lemma history_size_purge: "history_size now (snd (GetDispatchedCmds now client cs)) clients = history_size now cs clients"
  by (simp add: history_size_def purge_twice)

lemma query_clients_total:
  "query_clients re tr q now clients n ds s = (Inr ds', s') \<Longrightarrow> ds_rows ds \<noteq> None \<Longrightarrow>
     ds_rows ds' \<noteq> None \<and> ds_total ds' = ds_total ds + int (history_size now (srv_clients s) clients) \<and>
     ds_filtered ds \<le> ds_filtered ds' \<and>
     ds_filtered ds' \<le> ds_filtered ds + int (history_size now (srv_clients s) clients)"
proof (induction clients arbitrary: n ds s)
  case (Cons kc clients)
  obtain k client where kc: "kc = (k, client)" by (cases kc)
  let ?g = "GetDispatchedCmds now client (srv_clients s)"
  obtain c :: registered_client and x where q: "query_cmds re tr q now (s\<lparr>srv_clients := snd ?g\<rparr>) (rc_ClientId c) (fst ?g) n ds = Inr x"
      "query_clients re tr q now clients (fst x) (snd x) (s\<lparr>srv_clients := snd ?g\<rparr>) = (Inr ds', s')"
    using Cons.prems(1) kc by (simp add: Let_def split_beta split: option.splits sum.splits)
  have "history_size now (srv_clients (s\<lparr>srv_clients := snd ?g\<rparr>)) clients = history_size now (srv_clients s) clients"
    by (simp add: history_size_purge)
  moreover have "history_size now (srv_clients s) (kc # clients) = length (fst ?g) + history_size now (srv_clients s) clients"
    by (simp add: history_size_def kc)
  ultimately show ?case
    using Cons.IH [OF q(2)] query_cmds_total [of re tr q now "s\<lparr>srv_clients := snd ?g\<rparr>" "rc_ClientId c" "fst ?g" n ds "fst x" "snd x"]
      q(1) Cons.prems(2) by auto
qed (simp add: history_size_def)

text \<open>
  The numbers of the history table: a query that succeeds counts every command of the last fourteen days once, and of them
  those that pass the searches; it leaves the lock as it found it.
\<close>

theorem history_counts:
  assumes "QueryData re tr q now sr (s, m) = Some (Inr res, s', m')"
  shows "tr_Total res = int (history_size now (srv_clients s) (cs_clients (srv_clients s))) \<and>
    0 \<le> tr_Filtered res \<and> tr_Filtered res \<le> tr_Total res \<and> tr_Draw res = sr_Draw sr \<and> m' = m"
proof -
  obtain ds where ds: "query_clients re tr q now (cs_clients (srv_clients s)) 0 (query_store tr sr) s = (Inr ds, s')"
      "query_result tr sr ds = Inr res" "m' = m"
    using assms by (auto simp: QueryData_def DispatchedCmdQuery_def RLock_def RUnlock_def
        split: option.splits sum.splits prod.splits if_splits)
  then have "tr_Total res = ds_total ds" "tr_Filtered res = ds_filtered ds" "tr_Draw res = sr_Draw sr"
    by (auto simp: query_result_def split: option.splits sum.splits)
  with query_clients_total [OF ds(1)] ds(3) show ?thesis by (simp add: query_store_def)
qed

definition open_search :: search_request where
  "open_search = \<lparr>sr_Draw = 7, sr_Columns = [Some sample_column], sr_Start = 0, sr_Length = 10,
     sr_Search = Some (newSearch [] False)\<rparr>"

theorem history_counts_witness:
  "\<exists>res s' m'. QueryData sample_regexps list_tree sample_query 0 open_search
       (history_server, \<lparr>rw_readers = 0, rw_writing = False\<rparr>) = Some (Inr res, s', m') \<and>
     tr_Total res = 1 \<and> tr_Draw res = 7"
proof -
  let ?m = "\<lparr>rw_readers = 0, rw_writing = False\<rparr>"
  have "isl (fst (the (QueryData sample_regexps list_tree sample_query 0 open_search (history_server, ?m)))) = False \<and>
      QueryData sample_regexps list_tree sample_query 0 open_search (history_server, ?m) \<noteq> None"
    by code_simp
  then obtain res s' m' where q: "QueryData sample_regexps list_tree sample_query 0 open_search (history_server, ?m) = Some (Inr res, s', m')"
    by (metis option.exhaust_sel prod.collapse sum.collapse(2))
  moreover have "history_size 0 (srv_clients history_server) (cs_clients (srv_clients history_server)) = 1"
    by (simp add: history_size_def history_server_def GetDispatchedCmds_def h_get_def recent_cmd_def newCmd_def max_age_def)
  ultimately show ?thesis using history_counts [OF q] by (simp add: open_search_def)
qed

end
