(* ===== verification/Shared_Query.thy ===== *)
theory Shared_Query
  imports Dispatched_Query Server_Theorems
begin

text \<open>
  Requests for the history table that arrive together (data\_table/default\_store.go, http\_request.go): they share one store.
\<close>

section \<open>One request in its steps\<close>

text \<open>
  Where a request for the history table is: before \<open>QueryData\<close> sets the store up for it, with some rows still to add, and answered.
\<close>

datatype query_thread =
    Opening search_request "table_row list"
  | Adding search_request "table_row list"
  | Answered "panic + table_result"

text \<open>
  There is one store for all requests: \<open>DefaultStoreHandler\<close> is called once, when the routes are registered, and makes it.
\<close>

fun query_step :: "regexps \<Rightarrow> 't rbtree \<Rightarrow> query_thread \<Rightarrow> 't default_store \<Rightarrow> query_thread \<times> 't default_store" where
  "query_step re tr (Opening sr rows) ds = (Adding sr rows, query_store tr sr)"
| "query_step re tr (Adding sr []) ds = (Answered (query_result tr sr ds), ds)"
| "query_step re tr (Adding sr (row # rows)) ds =
     (case AddRow re tr row ds of
        Inl p \<Rightarrow> (Answered (Inl p), ds)
      | Inr ds \<Rightarrow> (Adding sr rows, ds))"
| "query_step re tr (Answered r) ds = (Answered r, ds)"

text \<open>Requests by their number; a schedule says whose turn it is.\<close>

fun run_queries ::
  "regexps \<Rightarrow> 't rbtree \<Rightarrow> nat list \<Rightarrow> query_thread list \<Rightarrow> 't default_store \<Rightarrow> query_thread list \<times> 't default_store"
where
  "run_queries re tr [] ts ds = (ts, ds)"
| "run_queries re tr (i # is) ts ds =
     (case query_step re tr (ts ! i) ds of (t, ds) \<Rightarrow> run_queries re tr is (ts[i := t]) ds)"

fun add_all :: "regexps \<Rightarrow> 't rbtree \<Rightarrow> table_row list \<Rightarrow> 't default_store \<Rightarrow> panic + 't default_store" where
  "add_all re tr [] ds = Inr ds"
| "add_all re tr (row # rows) ds = (case AddRow re tr row ds of Inl p \<Rightarrow> Inl p | Inr ds \<Rightarrow> add_all re tr rows ds)"

lemma add_all_append:
  "add_all re tr (xs @ ys) ds = (case add_all re tr xs ds of Inl p \<Rightarrow> Inl p | Inr ds \<Rightarrow> add_all re tr ys ds)"
  by (induction xs arbitrary: ds) (auto split: sum.split)

lemma run_queries_append:
  "run_queries re tr (xs @ ys) ts ds = (case run_queries re tr xs ts ds of (ts, ds) \<Rightarrow> run_queries re tr ys ts ds)"
  by (induction xs arbitrary: ts ds) (auto split: prod.split)

text \<open>The rows that a query adds do not depend on the store.\<close>

lemma query_cmds_rows:
  assumes "\<And>k r. (k, r) \<in> set cmds \<Longrightarrow> get_cmd (srv_clients s) r \<noteq> None"
  shows "\<exists>rows. \<forall>ds. query_cmds re tr q now s clientId cmds n ds = 
    (case add_all re tr rows ds of Inl p \<Rightarrow> Inl p | Inr ds \<Rightarrow> Inr (n + length cmds, ds))"
  using assms
proof (induction cmds arbitrary: n)
  case (Cons kr cmds)
  obtain k r where kr: "kr = (k, r)" by (cases kr)
  obtain d where d: "get_cmd (srv_clients s) r = Some d" using Cons.prems kr by auto
  obtain rows where rows: "\<And>ds. query_cmds re tr q now s clientId cmds (n + 1) ds =
      (case add_all re tr rows ds of Inl p \<Rightarrow> Inl p | Inr ds \<Rightarrow> Inr (n + 1 + length cmds, ds))"
    using Cons.IH [of "n + 1"] Cons.prems by auto
  have "query_cmds re tr q now s clientId (kr # cmds) n ds =
      (case add_all re tr (dispatched_row q now s n clientId d # rows) ds of Inl p \<Rightarrow> Inl p | Inr ds \<Rightarrow> Inr (n + length (kr # cmds), ds))" for ds
    using rows by (auto simp: kr d split: sum.split)
  then show ?case by blast
qed (auto intro: exI [of _ "[]"])

lemma query_clients_rows:
  assumes "client_store_ok (srv_clients s)" "set clients \<subseteq> set (cs_clients (srv_clients s))"
  shows "\<exists>rows. \<forall>ds. fst (query_clients re tr q now clients n ds s) = add_all re tr rows ds"
  using assms
proof (induction clients arbitrary: n s)
  case (Cons kc clients)
  obtain k client where kc: "kc = (k, client)" by (cases kc)
  obtain c where c: "get_client (srv_clients s) client = Some c" using client_store_okD(2) [OF Cons.prems(1), of k client] Cons.prems(2) kc by auto
  let ?g = "GetDispatchedCmds now client (srv_clients s)"
  let ?s = "s\<lparr>srv_clients := snd ?g\<rparr>"
  have ok: "client_store_ok (srv_clients ?s)" by (simp add: client_store_ok_GetDispatched Cons.prems(1))
  have "(j, r) \<in> set (fst ?g) \<Longrightarrow> (j, r) \<in> set (rc_DispatchedCmds c)" for j r
    by (auto simp: GetDispatchedCmds_def Let_def c)
  then have "get_cmd (srv_clients s) r \<noteq> None" if "(j, r) \<in> set (fst ?g)" for j r
    using client_store_okD(3) [OF Cons.prems(1) c] that cmd_map_okD unfolding client_ok_def by blast
  moreover have "cs_cmds (snd ?g) = cs_cmds (srv_clients s)" by (simp add: GetDispatchedCmds_def Let_def split: option.split)
  ultimately have valid: "get_cmd (srv_clients ?s) r \<noteq> None" if "(j, r) \<in> set (fst ?g)" for j r using that by simp
  obtain rows1 where rows1: "\<And>ds. query_cmds re tr q now ?s (rc_ClientId c) (fst ?g) n ds =
      (case add_all re tr rows1 ds of Inl p \<Rightarrow> Inl p | Inr ds \<Rightarrow> Inr (n + length (fst ?g), ds))"
    using query_cmds_rows [of "fst ?g" ?s re tr q now "rc_ClientId c" n] valid by blast
  have "cs_clients (snd ?g) = cs_clients (srv_clients s)" by (simp add: GetDispatchedCmds_def Let_def split: option.split)
  then have "set clients \<subseteq> set (cs_clients (srv_clients ?s))" using Cons.prems(2) by simp
  from Cons.IH [OF ok this, of "n + length (fst ?g)"] obtain rows2 where
    rows2: "\<And>ds. fst (query_clients re tr q now clients (n + length (fst ?g)) ds ?s) = add_all re tr rows2 ds" by blast
  have "fst (query_clients re tr q now (kc # clients) n ds s) = add_all re tr (rows1 @ rows2) ds" for ds
    using rows1 [of ds] rows2 by (simp add: kc c split_beta Let_def add_all_append split: sum.split)
  then show ?case by blast
qed (auto intro: exI [of _ "[]"])

lemma QueryData_rows:
  assumes "client_store_ok (srv_clients s)" "\<not> rw_writing m"
  shows "\<exists>rows. \<forall>sr. \<exists>sm. QueryData re tr q now sr (s, m) =
    Some (case add_all re tr rows (query_store tr sr) of Inl p \<Rightarrow> Inl p | Inr ds \<Rightarrow> query_result tr sr ds, sm)"
proof -
  obtain rows where rows: "\<And>ds. fst (query_clients re tr q now (cs_clients (srv_clients s)) 0 ds s) = add_all re tr rows ds"
    using query_clients_rows [OF assms(1) subset_refl] by blast
  have "\<exists>sm. QueryData re tr q now sr (s, m) =
    Some (case add_all re tr rows (query_store tr sr) of Inl p \<Rightarrow> Inl p | Inr ds \<Rightarrow> query_result tr sr ds, sm)" for sr
  proof -
    obtain r s' where "query_clients re tr q now (cs_clients (srv_clients s)) 0 (query_store tr sr) s = (r, s')" by fastforce
    moreover from this rows [of "query_store tr sr"] have "r = add_all re tr rows (query_store tr sr)" by simp
    ultimately show ?thesis
      using assms(2) by (auto simp: QueryData_def DispatchedCmdQuery_def RLock_def split: sum.splits)
  qed
  then show ?thesis by blast
qed

section \<open>Two requests at once\<close>

lemma run_answered:
  "i < length ts \<Longrightarrow> run_queries re tr (replicate k i) (ts[i := Answered r]) ds = (ts[i := Answered r], ds)"
  by (induction k) simp_all

lemma run_adding:
  assumes "i < length ts" "ts ! i = Adding sr rows"
  shows "add_all re tr rows ds = Inl p \<Longrightarrow>
      fst (run_queries re tr (replicate (Suc (length rows)) i) ts ds) = ts[i := Answered (Inl p)]"
    "add_all re tr rows ds = Inr ds' \<Longrightarrow>
      run_queries re tr (replicate (Suc (length rows)) i) ts ds = (ts[i := Answered (query_result tr sr ds')], ds')"
  using assms
proof (induction rows arbitrary: ts ds)
  case (Cons row rows)
  {
    case 1
    show ?case
    proof (cases "AddRow re tr row ds")
      case (Inl p')
      then show ?thesis using 1 run_answered [OF 1(2), of re tr "Suc (length rows)" "Inl p'"] by simp
    next
      case (Inr ds1)
      then show ?thesis using 1 Cons.IH(1) [of ds1 "ts[i := Adding sr rows]"] by (simp del: replicate_Suc) simp
    qed
  next
    case 2
    then obtain ds1 where "AddRow re tr row ds = Inr ds1" "add_all re tr rows ds1 = Inr ds'" by (auto split: sum.splits)
    then show ?case using 2 Cons.IH(2) [of ds1 "ts[i := Adding sr rows]"] by (simp del: replicate_Suc) simp
  }
qed simp_all

lemma add_all_total:
  "add_all re tr rows ds = Inr ds' \<Longrightarrow> ds_rows ds \<noteq> None \<Longrightarrow> ds_total ds' = ds_total ds + int (length rows) \<and> ds_rows ds' \<noteq> None"
proof (induction rows arbitrary: ds)
  case (Cons row rows)
  then obtain ds1 where ds1: "AddRow re tr row ds = Inr ds1" "add_all re tr rows ds1 = Inr ds'"
    by (auto split: sum.splits)
  have "ds_total ds1 = ds_total ds + 1 \<and> ds_rows ds1 \<noteq> None"
    using ds1(1) Cons.prems(2) by (auto simp: AddRow_def split: option.splits sum.splits bool.splits)
  then show ?case using Cons.IH [OF ds1(2)] by simp
qed simp

lemma query_result_draw:
  "query_result tr sr ds = Inr result \<Longrightarrow> query_result tr sr' ds = Inr (result\<lparr>tr_Draw := sr_Draw sr'\<rparr>)"
  by (auto simp: query_result_def split: option.splits sum.splits)



end
