(* ===== verification/Overlapping_Batches.thy ===== *)
theory Overlapping_Batches
  imports Server_Steps
begin

text \<open>
  What the barrier between batches does not hold back: two calls of \<open>Next\<close> (execution\_coordinator.go) in a row.
\<close>

text \<open>One goroutine that runs \<open>Next\<close> and finds the batch finished.\<close>

lemma next_step:
  assumes "srv_tasks s = TNext er # ts" "get_entry s er = Some ece" "entry_batches ece = b # bs" "iteration_ok ece"
    "known_strategy (es_Strategy (ece_strategy ece))" "allFinished ece (srv_clients s)"
  shows "\<exists>s' ece'. server_step x cf ldap s s' \<and> srv_tasks s' = ts @ submit_tasks er b \<and> srv_clients s' = srv_clients s \<and>
    get_entry s' er = Some ece' \<and> ece_Id ece' = ece_Id ece \<and> ece_iteration ece' = ece_iteration ece + 1 \<and>
    ece_strategy ece' = ece_strategy ece \<and> entry_batches ece' = bs \<and> iteration_ok ece'"
proof -
  let ?s = "s\<lparr>srv_tasks := ts\<rparr>"
  have cmds: "ece_cmds ece \<noteq> []" using assms(3) by (auto simp: entry_batches_def)
  have "cmdsToStart ece \<noteq> None" using assms(5) by (auto simp: cmdsToStart_def known_strategy_def strategy_defs Let_def)
  then obtain n where n: "cmdsToStart ece = Some n" by blast
  let ?e = "ece\<lparr>ece_cmds := take (length (ece_cmds ece) - nat n) (ece_cmds ece), ece_iteration := ece_iteration ece + 1\<rparr>"
  note batch = entry_batches_step [OF cmds assms(4,5) n refl]
  have e: "get_entry ?s er = Some ece" using assms(2) by simp
  have fin: "allFinished ece (srv_clients ?s)" using assms(6) by simp
  from Next_started [OF e cmds fin n cmdsToStart_bound [OF n cmds]]
  have run: "run_task cf (TNext er) ?s = Some (Inr (), start_tasks (submit_tasks er (take (nat n) (rev (ece_cmds ece))))
       (upd_entry er (\<lambda>e. e\<lparr>ece_cmds := take (length (ece_cmds ece) - nat n) (ece_cmds ece),
                           ece_iteration := ece_iteration ece + 1\<rparr>) ?s))" (is "_ = Some (Inr (), ?t)")
    by (simp add: run_task_def)
  have "server_step x cf ldap s ?t"
    by (rule server_step.goroutine [where ts = "[]" and us = ts and t = "TNext er"]) (use assms(1) run in simp_all)
  moreover have "srv_tasks ?t = ts @ submit_tasks er b" using batch(2) assms(3) by simp
  moreover have "get_entry ?t er = Some ?e" using assms(2) by simp
  moreover have "entry_batches ?e = bs" "iteration_ok ?e" using batch assms(3) by simp_all
  ultimately show ?thesis by (intro exI [of _ ?t] exI [of _ ?e]) simp
qed

text \<open>
  C9: The barrier between batches has a hole. When two commands that end a batch report one after the other, each starts a call of \<open>Next\<close>;
  if the second call runs before the goroutines of the first have submitted their commands, it finds nothing of the new batch that is not
  finished and starts the batch after it as well: two batches are under way, with no command of either submitted yet, and both will
  carry the number of the later one.
\<close>

theorem two_calls_start_two_batches:
  assumes "srv_tasks s = TNext er # TNext er # ts" "get_entry s er = Some ece" "entry_batches ece = b # b' # bs" "iteration_ok ece"
    "known_strategy (es_Strategy (ece_strategy ece))" "allFinished ece (srv_clients s)"
    "allFinished (ece\<lparr>ece_iteration := ece_iteration ece + 1\<rparr>) (srv_clients s)"
  shows "\<exists>s' ece'. server_steps x cf ldap s s' \<and> srv_tasks s' = ts @ submit_tasks er b @ submit_tasks er b' \<and>
    srv_clients s' = srv_clients s \<and> get_entry s' er = Some ece' \<and> ece_iteration ece' = ece_iteration ece + 2"
proof -
  obtain u e1 where u: "server_step x cf ldap s u" "srv_tasks u = TNext er # ts @ submit_tasks er b" "srv_clients u = srv_clients s"
    "get_entry u er = Some e1" "ece_Id e1 = ece_Id ece" "ece_iteration e1 = ece_iteration ece + 1"
    "ece_strategy e1 = ece_strategy ece" "entry_batches e1 = b' # bs" "iteration_ok e1"
    using next_step [OF assms(1-6), of x cf ldap] by auto
  have "allFinished e1 = allFinished (ece\<lparr>ece_iteration := ece_iteration ece + 1\<rparr>)"
    by (rule allFinished_cong) (simp_all add: u)
  then have fin: "allFinished e1 (srv_clients u)" using assms(7) u(3) by simp
  have known: "known_strategy (es_Strategy (ece_strategy e1))" using assms(5) u(7) by simp
  obtain v e2 where v: "server_step x cf ldap u v" "srv_tasks v = (ts @ submit_tasks er b) @ submit_tasks er b'" "srv_clients v = srv_clients u"
    "get_entry v er = Some e2" "ece_iteration e2 = ece_iteration e1 + 1"
    using next_step [OF u(2,4,8,9) known fin, of x cf ldap] by blast
  have "server_steps x cf ldap s v" using u(1) v(1) by (meson converse_rtranclp_into_rtranclp r_into_rtranclp)
  then show ?thesis using v u by (intro exI [of _ v] exI [of _ e2]) simp
qed

theorem two_calls_start_two_batches_witness:
  "\<exists>s' ece'. server_steps sample_ext sample_conf None (rollout_server\<lparr>srv_tasks := [TNext 0, TNext 0]\<rparr>) s' \<and>
     length (srv_tasks s') = 3 \<and> get_entry s' 0 = Some ece' \<and> ece_iteration ece' = 3"
proof -
  let ?s = "rollout_server\<lparr>srv_tasks := [TNext 0, TNext 0]\<rparr>"
  have batches: "entry_batches sample_entry = [take 2 (rev (ece_cmds sample_entry)), drop 2 (rev (ece_cmds sample_entry))]"
    by (simp add: entry_batches_def sample_entry_def rollout_exponential_step)
  have fin: "allFinished sample_entry (srv_clients ?s)" "allFinished (sample_entry\<lparr>ece_iteration := ece_iteration sample_entry + 1\<rparr>) (srv_clients ?s)"
    using sample_entry_facts(4) [of "ece_iteration sample_entry"] sample_entry_facts(4) [of "ece_iteration sample_entry + 1"] by simp_all
  have "get_entry ?s 0 = Some sample_entry" by simp
  from two_calls_start_two_batches [OF _ this batches sample_entry_facts(2,3) fin] show ?thesis
    by (fastforce simp: submit_tasks_def sample_entry_def)
qed

end
