(* ===== verification/Quiescence.thy ===== *)
theory Quiescence
  imports Server_Theorems
begin

text \<open>
  Termination of the server's goroutines: submissions, calls of \<open>Next\<close> and callbacks that are left to themselves come to rest.
\<close>

definition goroutine_step :: "conf \<Rightarrow> server \<Rightarrow> server \<Rightarrow> bool" where
  "goroutine_step cf s s' \<longleftrightarrow>
     (\<exists>ts t us. srv_tasks s = ts @ t # us \<and> run_task cf t (s\<lparr>srv_tasks := ts @ us\<rparr>) = Some (Inr (), s'))"

text \<open>
  The work that is left: a goroutine counts one, a call of \<open>Next\<close> also the callbacks that it can start, and a
  command that waits in an entry one for the goroutine that will submit it.
\<close>

definition all_callbacks :: "server \<Rightarrow> nat" where
  "all_callbacks s = sum_list (map (length \<circ> cr_Callbacks) (con_heap (srv_consensus s)))"

definition task_work :: "nat \<Rightarrow> task \<Rightarrow> nat" where
  "task_work k t = (case t of TNext _ \<Rightarrow> k + 1 | _ \<Rightarrow> 1)"

definition queued_work :: "server \<Rightarrow> nat" where
  "queued_work s = sum_list (map (length \<circ> ece_cmds) (ec_heap (srv_executionCoordinator s)))"

definition work :: "server \<Rightarrow> nat" where
  "work s = sum_list (map (task_work (all_callbacks s)) (srv_tasks s)) + queued_work s"

lemma sum_list_h_upd:
  assumes "h_get h r = Some x"
  shows "sum_list (map f (h_upd r g h)) + f x = sum_list (map f h) + (f (g x) :: nat)"
proof -
  have r: "r < length h" "h ! r = x" using assms by (auto simp: h_get_def split: if_splits)
  then have "f x \<le> sum_list (map f h)" by (auto intro!: member_le_sum_list)
  with r show ?thesis by (simp add: h_upd_def map_update sum_list_update)
qed

lemma task_work_submit: "sum_list (map (task_work k) (submit_tasks er ps)) = length ps"
  by (induction ps) (simp_all add: submit_tasks_def task_work_def)

lemma task_work_callbacks: "sum_list (map (task_work k) (map (\<lambda>cb. TCallback cb r) cbs)) = length cbs"
  by (induction cbs) (simp_all add: task_work_def)

lemma callbacks_le: "get_request s r = Some c \<Longrightarrow> length (cr_Callbacks c) \<le> all_callbacks s"
  unfolding all_callbacks_def by (rule member_le_sum_list) (auto dest: h_get_in_set)

text \<open>Every goroutine that runs makes the work less.\<close>

lemma work_Next:
  assumes "Next er s = (Inr (), s')"
  shows "work s' \<le> work s + all_callbacks s"
proof -
  obtain ece where ece: "get_entry s er = Some ece" using assms by (auto simp: Next_def split: option.splits)
  then show ?thesis
  proof (cases rule: Next_cases)
    case idle
    then show ?thesis using assms by simp
  next
    case callbacks
    then have "ExecuteCallbacks ece s = (Inr (), s')" using assms by simp
    then obtain r c where "get_request s r = Some c" "s' = start_tasks (map (\<lambda>cb. TCallback cb r) (cr_Callbacks c)) s"
      by (auto simp: ExecuteCallbacks_def split: option.splits)
    then show ?thesis
      using callbacks_le [of s r c]
      by (simp add: work_def all_callbacks_def queued_work_def task_work_callbacks del: map_map)
  next
    case unsupported
    then show ?thesis using assms by simp
  next
    case (started n)
    let ?g = "\<lambda>e. e\<lparr>ece_cmds := take (length (ece_cmds ece) - nat n) (ece_cmds ece), ece_iteration := ece_iteration ece + 1\<rparr>"
    let ?ps = "take (nat n) (rev (ece_cmds ece))"
    have q: "queued_work (upd_entry er ?g s) + nat n = queued_work s"
      using sum_list_h_upd [OF ece, of "length \<circ> ece_cmds" ?g] started(4) by (simp add: queued_work_def upd_entry_def)
    have s': "s' = start_tasks (submit_tasks er ?ps) (upd_entry er ?g s)" using assms started(5) by simp
    have "srv_tasks s' = srv_tasks s @ submit_tasks er ?ps" "all_callbacks s' = all_callbacks s"
      "queued_work s' = queued_work (upd_entry er ?g s)"
      unfolding s' by (simp_all add: all_callbacks_def queued_work_def)
    with q started(4) show ?thesis by (simp add: work_def task_work_submit)
  qed
qed

lemma work_decreases:
  assumes "goroutine_step cf s s'"
  shows "work s' < work s"
proof -
  obtain ts t us where t: "srv_tasks s = ts @ t # us" and run: "run_task cf t (s\<lparr>srv_tasks := ts @ us\<rparr>) = Some (Inr (), s')"
    using assms by (auto simp: goroutine_step_def)
  let ?s = "s\<lparr>srv_tasks := ts @ us\<rparr>"
  have less: "work ?s + task_work (all_callbacks s) t = work s"
    by (simp add: work_def all_callbacks_def queued_work_def t)
  show ?thesis
  proof (cases t)
    case (TSubmit cl c er)
    then have "work s' = work ?s"
      using run by (auto simp: run_task_def run_submit_def Let_def work_def all_callbacks_def queued_work_def split: option.splits)
    then show ?thesis using less TSubmit by (simp add: task_work_def)
  next
    case (TNext er)
    then have "work s' \<le> work ?s + all_callbacks ?s" using run by (intro work_Next) (simp add: run_task_def)
    then show ?thesis using less TNext by (simp add: task_work_def all_callbacks_def)
  next
    case (TCallback cb r)
    then have "work s' = work ?s"
      using run by (auto simp: run_task_def run_callback_def work_def all_callbacks_def queued_work_def
          split: option.splits callback.splits if_splits)
    then show ?thesis using less TCallback by (simp add: task_work_def)
  qed
qed

lemma work_bounds_run: "(goroutine_step cf ^^ n) s s' \<Longrightarrow> work s' + n \<le> work s"
proof (induction n arbitrary: s')
  case (Suc n)
  then obtain t where "(goroutine_step cf ^^ n) s t" "goroutine_step cf t s'" by auto
  then have "work t + n \<le> work s" "work s' < work t" using Suc.IH work_decreases by auto
  then show ?case by simp
qed simp

text \<open>A goroutine that cannot run: a value has no room in its channel, or it ends in the panic.\<close>

definition stuck :: "server \<Rightarrow> task \<Rightarrow> bool" where
  "stuck s t \<longleftrightarrow>
     (case t of
        TSubmit _ _ _ \<Rightarrow> False
      | TNext er \<Rightarrow> orphaned s er
      | TCallback cb _ \<Rightarrow>
          (case cb of FinishedNotification \<Rightarrow> False
           | HttpCheckDone ch \<Rightarrow> (case h_get (srv_done s) ch of None \<Rightarrow> True | Some k \<Rightarrow> k \<noteq> 0)))"

lemma not_stuck_runs:
  assumes "server_ok s" "srv_tasks s = ts @ t # us" "\<not> stuck s t"
  shows "\<exists>s'. run_task cf t (s\<lparr>srv_tasks := ts @ us\<rparr>) = Some (Inr (), s')"
proof -
  let ?s = "s\<lparr>srv_tasks := ts @ us\<rparr>"
  have links: "entries_ok s" "requests_ok (srv_consensus s)"
    and t: "task_ok (n_clients s) (n_entries s) (n_requests s) (n_channels s) t"
    using assms(1,2) by (auto simp: server_ok_def links_ok_def tasks_ok_def)
  show ?thesis
  proof (cases t)
    case (TSubmit c cmd er)
    then show ?thesis using t by (auto simp: task_ok_def run_task_def run_submit_def h_get_def Let_def)
  next
    case (TNext er)
    have "entries_ok ?s" using links(1) by (simp add: entries_ok_def Coordinator_Get_def)
    moreover have "orphaned ?s er = orphaned s er" by (simp add: orphaned_def Consensus_Get_def)
    ultimately have "fst (Next er ?s) = Inr ()"
      using Next_result [of ?s er] links(2) t assms(3) TNext by (simp add: task_ok_def stuck_def)
    then show ?thesis using TNext by (cases "Next er ?s") (simp add: run_task_def)
  next
    case (TCallback cb r)
    then show ?thesis using t assms(3)
      by (cases cb) (auto simp: task_ok_def stuck_def run_task_def run_callback_def h_get_def callback_valid_def split: option.splits)
  qed
qed

lemma server_ok_goroutines: "(goroutine_step cf ^^ n) s s' \<Longrightarrow> server_ok s \<Longrightarrow> server_ok s'"
proof (induction n arbitrary: s')
  case (Suc n)
  then obtain t where "(goroutine_step cf ^^ n) s t" "goroutine_step cf t s'" by auto
  with Suc show ?case by (auto simp: goroutine_step_def intro: server_ok_goroutine)
qed simp

text \<open>
  C32: Left to themselves, the goroutines come to rest: in whatever order the scheduler picks them, after at most
  \<open>work s\<close> steps none can run; what is left then waits for a reader of a full channel, or is a call of
  \<open>Next\<close> that would panic.
\<close>

theorem goroutines_come_to_rest:
  assumes "server_ok s" "(goroutine_step cf ^^ n) s s'"
  shows "n \<le> work s \<and> ((\<forall>u. \<not> goroutine_step cf s' u) \<longrightarrow> (\<forall>t \<in> set (srv_tasks s'). stuck s' t))"
proof (intro conjI impI ballI)
  show "n \<le> work s" using work_bounds_run [OF assms(2)] by simp
next
  fix t assume rest: "\<forall>u. \<not> goroutine_step cf s' u" and t: "t \<in> set (srv_tasks s')"
  then obtain ts us where "srv_tasks s' = ts @ t # us" by (metis split_list)
  then show "stuck s' t"
    using not_stuck_runs [OF server_ok_goroutines [OF assms(2,1)]] rest unfolding goroutine_step_def by blast
qed

theorem goroutines_come_to_rest_witness:
  "\<exists>n. (\<exists>s. (goroutine_step sample_conf ^^ 1) check_server s) \<and> 1 \<le> n \<and> n = work check_server"
proof -
  obtain d where d: "srv_tasks check_server = [TSubmit 0 d 0]" using check_server_tasks by blast
  then have "\<not> stuck check_server (TSubmit 0 d 0)" by (simp add: stuck_def)
  from not_stuck_runs [OF check_server_ok _ this, of "[]" "[]" sample_conf] d
  have "\<exists>s. goroutine_step sample_conf check_server s"
    unfolding goroutine_step_def by (metis append_Nil)
  then obtain s where "(goroutine_step sample_conf ^^ 1) check_server s" by auto
  with goroutines_come_to_rest [OF check_server_ok this] show ?thesis by blast
qed

end
