(* ===== verification/Durability.thy ===== *)
theory Durability
  imports Command_Theorems
begin

text \<open>
  What survives the end of the process: the files that a handler leaves behind, and what a restart makes of them.
\<close>

section \<open>What a handler leaves on disk\<close>

text \<open>The stores that a route changes and saves.\<close>

datatype kept = Users_kept | Templates_kept | Checks_kept | Requests_kept

fun saves :: "route \<Rightarrow> kept option" where
  "saves POST_auth = Some Users_kept"
| "saves PUT_user_password = Some Users_kept"
| "saves POST_user = Some Users_kept"
| "saves DELETE_user = Some Users_kept"
| "saves PUT_user = Some Users_kept"
| "saves GET_user_2fa = Some Users_kept"
| "saves PUT_user_2fa = Some Users_kept"
| "saves POST_template = Some Templates_kept"
| "saves DELETE_template = Some Templates_kept"
| "saves POST_template_validation = Some Templates_kept"
| "saves DELETE_template_validation = Some Templates_kept"
| "saves POST_http_check = Some Checks_kept"
| "saves DELETE_http_check = Some Checks_kept"
| "saves POST_consensus_request = Some Requests_kept"
| "saves POST_consensus_approve = Some Requests_kept"
| "saves DELETE_consensus_request = Some Requests_kept"
| "saves _ = None"

definition on_disk :: "kept \<Rightarrow> server \<Rightarrow> bool" where
  "on_disk k s \<longleftrightarrow>
     (case k of
        Users_kept \<Rightarrow> us_file (srv_userStore s) = Json (us_Users (srv_userStore s))
      | Templates_kept \<Rightarrow> ts_file (srv_templateStore s) = Json (ts_Templates (srv_templateStore s))
      | Checks_kept \<Rightarrow> hs_file (srv_httpCheckStore s) = Json (hs_Checks (srv_httpCheckStore s))
      | Requests_kept \<Rightarrow>
          con_file (srv_consensus s) = Json (List.map_filter (request_on_disk s) (con_Pending (srv_consensus s))))"

definition keeps :: "kept \<Rightarrow> reply outcome \<Rightarrow> bool" where
  "keeps k out \<longleftrightarrow> (\<forall>fs. fst out = Inr (ROk fs) \<longrightarrow> on_disk k (snd out))"

lemma keeps_simps [simp]:
  "keeps k (Inl p, s)" "keeps k (Inr (RError msg), s)" "keeps k (Inr RNothing, s)"
  "keeps k (Inr (ROk fs), s) \<longleftrightarrow> on_disk k s"
  by (simp_all add: keeps_def)

lemma as_user_keeps: "(\<And>i u s. keeps k (body i u s)) \<Longrightarrow> keeps k (as_user e r msg body s)"
  by (simp add: as_user_def if_authUser_def split: prod.split bool.split option.split)

lemma if_authUser_keeps: "(\<And>s. keeps k (body s)) \<Longrightarrow> keeps k (if_authUser e r msg body s)"
  by (simp add: if_authUser_def split: prod.split bool.split)

lemma saved_on_disk:
  assumes "env_write e = WriteOk"
  shows "on_disk Users_kept (on_users (users_save e) s)" "on_disk Users_kept (on_users (\<lambda>_. users_save e us) s)"
    "on_disk Templates_kept (on_templates (snd \<circ> templates_save e) s)"
    "on_disk Templates_kept (on_templates (\<lambda>_. snd (templates_save e ts)) s)"
    "on_disk Checks_kept (on_checks (snd \<circ> http_checks_save e) s)"
    "on_disk Checks_kept (on_checks (\<lambda>_. snd (http_checks_save e hs)) s)"
    "on_disk Requests_kept (consensus_save e s)"
  using assms
  by (simp_all add: on_disk_def users_save_def templates_save_def http_checks_save_def consensus_save_def Let_def on_checks_def
      request_on_disk_def [abs_def])

lemma user_handlers_keep:
  assumes "env_write e = WriteOk"
  shows "keeps Users_kept (PostAuth x ldap e r s)" "keeps Users_kept (PutUserPassword x e r s)"
    "keeps Users_kept (PostUser x e r s)" "keeps Users_kept (DeleteUser x e r s)" "keeps Users_kept (PutUser x e r s)"
    "keeps Users_kept (GetUser2fa x e r s)" "keeps Users_kept (PutUser2fa x e r s)"
  unfolding PostAuth_def PutUserPassword_def PostUser_def DeleteUser_def PutUser_def GetUser2fa_def PutUser2fa_def Let_def
  by (auto intro!: as_user_keeps if_authUser_keeps saved_on_disk assms split: option.split prod.split sum.split)

lemma template_handlers_keep:
  assumes "env_write e = WriteOk"
  shows "keeps Templates_kept (PostTemplate e r s)" "keeps Templates_kept (DeleteTemplate e r s)"
    "keeps Templates_kept (PostTemplateValidation e r s)" "keeps Templates_kept (DeleteTemplateValidation e r s)"
  unfolding PostTemplate_def DeleteTemplate_def PostTemplateValidation_def DeleteTemplateValidation_def Let_def
  by (auto intro!: as_user_keeps if_authUser_keeps saved_on_disk assms simp: split_beta split: option.split sum.split)

lemma check_handlers_keep:
  assumes "env_write e = WriteOk"
  shows "keeps Checks_kept (PostHttpCheck x e r s)" "keeps Checks_kept (DeleteHttpCheck e r s)"
  unfolding PostHttpCheck_def DeleteHttpCheck_def Let_def
  by (auto intro!: as_user_keeps saved_on_disk assms simp: split_beta split: option.split)

lemma consensus_handlers_keep:
  assumes "env_write e = WriteOk"
  shows "keeps Requests_kept (PostConsensusRequest x cf e r s)" "keeps Requests_kept (PostConsensusApprove e r s)"
    "keeps Requests_kept (DeleteConsensusRequest e r s)"
  unfolding PostConsensusRequest_def PostConsensusApprove_def DeleteConsensusRequest_def Let_def
  by (auto intro!: as_user_keeps saved_on_disk assms split: option.split prod.split sum.split)

lemma serve_keeps:
  assumes "env_write e = WriteOk" "saves route = Some k"
  shows "keeps k (serve x cf ldap e route r s)"
  using assms(2) user_handlers_keep [OF assms(1)] template_handlers_keep [OF assms(1)] check_handlers_keep [OF assms(1)]
    consensus_handlers_keep [OF assms(1)]
  by (cases route) auto

section \<open>What a restart finds\<close>

text \<open>The pending requests of one server are those of another, without their callbacks.\<close>

definition same_requests :: "server \<Rightarrow> server \<Rightarrow> bool" where
  "same_requests s t \<longleftrightarrow>
     (\<forall>k. case Consensus_Get s k of
        None \<Rightarrow> Consensus_Get t k = None
      | Some r \<Rightarrow> \<exists>c r'. get_request s r = Some c \<and> Consensus_Get t k = Some r' \<and>
          get_request t r' = Some (c\<lparr>cr_Callbacks := []\<rparr>))"

lemma map_of_numbered:
  assumes "distinct (map fst m)" "i < length m"
  shows "map_of (zip (map fst m) [0..<length m]) (fst (m ! i)) = Some i"
proof -
  have "distinct (map fst (zip (map fst m) [0..<length m]))" using assms(1) by simp
  moreover have "(fst (m ! i), i) \<in> set (zip (map fst m) [0..<length m])"
    using assms(2) by (auto simp: set_zip intro!: exI [of _ i])
  ultimately show ?thesis by simp
qed

lemma loaded_requests:
  assumes "gm_ok m" "newConsensus (Json m) = c"
  shows "case gm_get m k of
      None \<Rightarrow> gm_get (con_Pending c) k = None
    | Some q \<Rightarrow> \<exists>r. gm_get (con_Pending c) k = Some r \<and> h_get (con_heap c) r = Some q"
proof (cases "gm_get m k")
  case None
  then have "gm_get (zip (map fst m) [0..<length m]) k = None"
    unfolding map_of_eq_None_iff by (auto dest: set_zip_leftD)
  with None show ?thesis unfolding assms(2) [symmetric] by (simp add: newConsensus_def consensus_load_def)
next
  case (Some q)
  then have "(k, q) \<in> set m" by (rule gm_get_in)
  then obtain i where i: "i < length m" "m ! i = (k, q)" by (auto simp: in_set_conv_nth)
  have "gm_get (zip (map fst m) [0..<length m]) k = Some i"
    using map_of_numbered [of m i] assms(1) i by (simp add: gm_ok_def)
  with Some i show ?thesis unfolding assms(2) [symmetric] by (simp add: newConsensus_def consensus_load_def h_get_def)
qed

lemma requests_restored:
  assumes "on_disk Requests_kept s" "requests_ok (srv_consensus s)" "srv_consensus t = newConsensus (con_file (srv_consensus s))"
  shows "same_requests s t"
proof -
  let ?P = "con_Pending (srv_consensus s)"
  let ?m = "List.map_filter (request_on_disk s) ?P"
  have pending: "gm_ok ?P" "\<And>k r. (k, r) \<in> set ?P \<Longrightarrow> \<exists>c. get_request s r = Some c"
    using assms(2) by (auto simp: requests_ok_def pending_ok_def)
  have "map fst ?m = map fst ?P" using pending(2) by (intro fst_map_filter_disk) fastforce
  then have m: "gm_ok ?m" using pending(1) by (simp add: gm_ok_def)
  have get: "gm_get ?m k = Some (c\<lparr>cr_Callbacks := []\<rparr>)" if "gm_get ?P k = Some r" "get_request s r = Some c" for k r c
  proof -
    have "request_on_disk s (k, r) = Some (k, c\<lparr>cr_Callbacks := []\<rparr>)" using that(2) by (simp add: request_on_disk_Some)
    moreover have "(k, r) \<in> set ?P" using that(1) by (rule gm_get_in)
    ultimately have "(k, c\<lparr>cr_Callbacks := []\<rparr>) \<in> set ?m" by (force simp: List.map_filter_def)
    with m show ?thesis by (simp add: gm_ok_in_get)
  qed
  have none: "gm_get ?m k = None" if "gm_get ?P k = None" for k
    using that \<open>map fst ?m = map fst ?P\<close> by (metis gm_get_None_iff list.set_map)
  have load: "newConsensus (Json ?m) = srv_consensus t" using assms(1,3) by (simp add: on_disk_def)
  show ?thesis
    unfolding same_requests_def Consensus_Get_def
  proof (intro allI)
    fix k
    show "case gm_get ?P k of None \<Rightarrow> gm_get (con_Pending (srv_consensus t)) k = None
      | Some r \<Rightarrow> \<exists>c r'. h_get (con_heap (srv_consensus s)) r = Some c \<and> gm_get (con_Pending (srv_consensus t)) k = Some r' \<and>
          h_get (con_heap (srv_consensus t)) r' = Some (c\<lparr>cr_Callbacks := []\<rparr>)"
    proof (cases "gm_get ?P k")
      case None
      then show ?thesis using none [OF None] loaded_requests [OF m load, of k] by simp
    next
      case (Some r)
      then obtain c where "get_request s r = Some c" using pending(2) gm_get_in by fast
      with Some get [OF Some this] loaded_requests [OF m load, of k] show ?thesis by auto
    qed
  qed
qed

definition restart :: "ext \<Rightarrow> env \<Rightarrow> server \<Rightarrow> server option" where
  "restart x e s =
     start_server x e (us_file (srv_userStore s)) (ts_file (srv_templateStore s)) (con_file (srv_consensus s))
       (hs_file (srv_httpCheckStore s))"

lemma restart_Some:
  assumes "restart x e s = Some t"
  shows "newUserStore x e (us_file (srv_userStore s)) = Some (srv_userStore t)"
    "srv_templateStore t = newTemplateStore (ts_file (srv_templateStore s))"
    "srv_consensus t = newConsensus (con_file (srv_consensus s))"
    "srv_httpCheckStore t = newHttpCheckStore (env_uuid e 1) (hs_file (srv_httpCheckStore s))"
  using assms by (auto simp: restart_def start_server_def split: option.splits)

text \<open>
  C36: What a handler has acknowledged survives the end of the process, if its file could be written: a restart finds the users (those of old
  files with the authentication types they imply), the templates, the http checks or the pending requests with their votes as the handler left them. Only the callbacks of
  requests are lost. A request that had been started is never started again.
\<close>

theorem acknowledged_changes_survive:
  assumes "server_ok s" "ldap_ok ldap" "serve x cf ldap e route r s = (Inr (ROk fs), s')" "env_write e = WriteOk"
    "saves route = Some k" "restart x e' s' = Some t"
  shows "case k of
      Users_kept \<Rightarrow> us_Users (srv_userStore s') \<noteq> [] \<longrightarrow> us_Users (srv_userStore t) = map migrate_user (us_Users (srv_userStore s'))
    | Templates_kept \<Rightarrow> ts_Templates (srv_templateStore t) = ts_Templates (srv_templateStore s')
    | Checks_kept \<Rightarrow> hs_Checks (srv_httpCheckStore t) = hs_Checks (srv_httpCheckStore s')
    | Requests_kept \<Rightarrow> same_requests s' t \<and>
        (\<forall>i r' u. Consensus_Get t i = Some r' \<and> executed t r' \<and> server_steps x cf ldap t u \<longrightarrow>
           snd (Request_check e r' u) = u \<and> snd (Request_start e r' u) = u)"
proof -
  have disk: "on_disk k s'" using serve_keeps [OF assms(4,5), of x cf ldap r s] assms(3) by simp
  note found = restart_Some [OF assms(6)]
  have "server_step x cf ldap s s'" using assms(3) by (rule server_step.request) simp
  then have "server_ok s'" using server_property.step_ok [OF server_ok_property [OF assms(2)]] assms(1) by blast
  then have ok: "requests_ok (srv_consensus s')" by (rule server_okD)
  have once: "snd (Request_check e i u) = u \<and> snd (Request_start e i u) = u"
    if "executed t i" "server_steps x cf ldap t u" for i u
    using executed_idle executed_stays.steps_ok [OF that(2,1)] by blast
  show ?thesis
  proof (cases k)
    case Users_kept
    with disk have "us_file (srv_userStore s') = Json (us_Users (srv_userStore s'))" by (simp add: on_disk_def)
    with found(1) have "srv_userStore t = \<lparr>us_Users = map migrate_user (us_Users (srv_userStore s')), us_file = us_file (srv_userStore s')\<rparr>"
      if "us_Users (srv_userStore s') \<noteq> []"
      using that by (simp add: newUserStore_def users_load_def prepareDefaultUser_def MigrateUsers_def)
    with Users_kept show ?thesis by simp
  next
    case Templates_kept
    with found(2) disk show ?thesis by (simp add: on_disk_def newTemplateStore_def templates_load_def)
  next
    case Checks_kept
    with found(4) disk show ?thesis by (simp add: on_disk_def newHttpCheckStore_def http_checks_load_def Let_def)
  next
    case Requests_kept
    with requests_restored [OF _ ok found(3)] disk once show ?thesis by simp
  qed
qed


text \<open>The sample user approves the request of the sample http check, then the server restarts.\<close>

definition approving_request :: http_request where
  "approving_request = sample_request\<lparr>rq_PostForm := [(''id'', ''id'')]\<rparr>"

lemma approving_facts:
  "session_user sample_env approving_request check_server = Some sample_user" "Consensus_Get check_server ''id'' = Some 0"
  "TrimSpace (PostFormValue approving_request ''id'') = ''id''" "us_file (srv_userStore check_server) = NoFile"
  "\<exists>c. get_request check_server 0 = Some c \<and> cr_Id c = ''id''"
proof -
  have users: "srv_userStore check_server = srv_userStore sample_server" by (simp add: check_server_defs)
  show "session_user sample_env approving_request check_server = Some sample_user"
    unfolding session_user_def users
    by (simp add: getUser_def approving_request_def sample_request_def ByName_def sample_user_def
        sample_env_def h_get_def session_timeout_def nanosecond_per_second_def)
  show "us_file (srv_userStore check_server) = NoFile" by (simp add: users)
  show "Consensus_Get check_server ''id'' = Some 0" by (simp add: Consensus_Get_def check_server_defs)
  show "\<exists>c. get_request check_server 0 = Some c \<and> cr_Id c = ''id''" by (simp add: check_server_defs)
  have "TrimSpace ''id'' = ''id''" by code_simp
  then show "TrimSpace (PostFormValue approving_request ''id'') = ''id''"
    by (simp add: value_of_def approving_request_def)
qed

theorem acknowledged_changes_survive_witness:
  "\<exists>b s' t. serve sample_ext sample_conf None sample_env POST_consensus_approve approving_request check_server =
      (Inr (ROk [(''approved'', VBool b)]), s') \<and> restart sample_ext sample_env s' = Some t \<and> same_requests s' t"
proof -
  obtain i where i: "\<And>msg body. as_user sample_env approving_request msg body check_server =
      body i (TouchSession (env_now sample_env) (rq_RemoteAddr approving_request) sample_user)
        (touch sample_env approving_request i check_server)"
    using approving_facts(1) by (cases rule: as_user_cases [of sample_env approving_request check_server]) auto
  let ?u = "TouchSession (env_now sample_env) (rq_RemoteAddr approving_request) sample_user"
  let ?s = "touch sample_env approving_request i check_server"
  have ok: "server_ok ?s" using check_server_ok by (rule server_ok_touch)
  have pending: "Consensus_Get ?s ''id'' = Some 0" using approving_facts(2) by (simp add: Consensus_Get_def)
  obtain c where "get_request ?s 0 = Some c" "cr_Id c = ''id''" using approving_facts(5) by auto
  then have "\<not> isl (fst (Request_Approve sample_env ?u 0 ?s))" using Approve_result [OF ok, of 0 c] pending by simp
  then obtain b v where v: "Request_Approve sample_env ?u 0 ?s = (Inr b, v)"
    by (cases "Request_Approve sample_env ?u 0 ?s"; cases "fst (Request_Approve sample_env ?u 0 ?s)") auto
  have "HasRole ?u ''approver''" by (simp add: HasRole_def sample_user_def gm_true_def)
  with pending have reply: "serve sample_ext sample_conf None sample_env POST_consensus_approve approving_request check_server =
      (Inr (ROk [(''approved'', VBool b)]), consensus_save sample_env v)"
    using v by (simp add: PostConsensusApprove_def i approving_facts(3))
  have "us_file (srv_userStore v) = NoFile"
    using arg_cong [OF v, of "\<lambda>p. us_file (srv_userStore (snd p))"] approving_facts(4) by simp
  then obtain t where t: "restart sample_ext sample_env (consensus_save sample_env v) = Some t"
    using sample_user_store by (auto simp: restart_def start_server_def consensus_save_def Let_def)
  from acknowledged_changes_survive [OF check_server_ok _ reply _ _ t] show ?thesis
    using reply t by (auto simp: ldap_ok_def sample_env_def)
qed

end
