(* ===== verification/Reply_Types.thy ===== *)
theory Reply_Types
  imports Server_Theorems
begin

text \<open>
  The answers of the handlers: which fields a route yields, of which kinds, and what is never encoded in them.
\<close>

section \<open>The fields of a reply\<close>

datatype value_kind =
    Truth | Text | Texts | Numbers | Commands_list | Requests_list | One_template | Templates_map | Users_list | Names_map
  | Clients_list | Checks_map

fun kind_of :: "reply_value \<Rightarrow> value_kind" where
  "kind_of (VBool b) = Truth"
| "kind_of (VString t) = Text"
| "kind_of (VStrings ts) = Texts"
| "kind_of (VNumbers ns) = Numbers"
| "kind_of (VCmds cs) = Commands_list"
| "kind_of (VRequests rs) = Requests_list"
| "kind_of (VTemplate t) = One_template"
| "kind_of (VTemplates ts) = Templates_map"
| "kind_of (VUsers us) = Users_list"
| "kind_of (VNames ns) = Names_map"
| "kind_of (VClients cs) = Clients_list"
| "kind_of (VChecks cs) = Checks_map"

text \<open>What the console and the client find in the answer of a route that succeeds, next to its status.\<close>

fun reply_schema :: "route \<Rightarrow> (string \<times> value_kind) list" where
  "reply_schema GET_ping = [(''ping'', Text)]"
| "reply_schema GET_tags = [(''tags'', Texts)]"
| "reply_schema GET_client_ping = [(''ack'', Truth), (''server_instance_id'', Text)]"
| "reply_schema (GET_client_cmds timed_out) = [(''cmds'', Commands_list)]"
| "reply_schema GET_client_cmd_logs = [(''log_output'', Texts), (''log_error'', Texts)]"
| "reply_schema POST_client_auth = [(''token'', Text), (''token_signature'', Text)]"
| "reply_schema POST_auth = [(''session_token'', Text), (''user_roles'', Texts), (''user_id'', Text), (''two_factor_enabled'', Truth)]"
| "reply_schema GET_templates = [(''templates'', Templates_map)]"
| "reply_schema POST_template = [(''template'', One_template), (''saved'', Truth)]"
| "reply_schema GET_clients = [(''clients'', Clients_list)]"
| "reply_schema GET_users = [(''users'', Users_list), (''authTypes'', Numbers)]"
| "reply_schema GET_users_names = [(''users'', Names_map)]"
| "reply_schema PUT_user = [(''changed'', Truth)]"
| "reply_schema DELETE_consensus_request = [(''cancelled'', Truth)]"
| "reply_schema POST_consensus_approve = [(''approved'', Truth)]"
| "reply_schema GET_consensus_pending = [(''requests'', Requests_list), (''server_instance_id'', Text), (''work'', Requests_list)]"
| "reply_schema GET_http_checks = [(''checks'', Checks_map)]"
| "reply_schema GET_user_2fa = [(''Secret'', Text), (''Png'', Text)]"
| "reply_schema PUT_user_2fa = [(''enabled'', Truth)]"
| "reply_schema PUT_client_cmd_state = []"
| "reply_schema PUT_client_cmd_logs = []"
| "reply_schema POST_consensus_request = []"
| "reply_schema POST_http_check = []"
| "reply_schema _ = [(''saved'', Truth)]"

text \<open>Fields that are marked \<open>json:"-"\<close> are not encoded.\<close>

definition json_client :: "registered_client \<Rightarrow> registered_client" where
  "json_client c = c\<lparr>rc_AuthToken := [], rc_CmdChan := 0\<rparr>"

definition json_request :: "consensus_request \<Rightarrow> consensus_request" where
  "json_request c = c\<lparr>cr_Callbacks := []\<rparr>"

fun encoded :: "reply_value \<Rightarrow> reply_value" where
  "encoded (VClients cs) = VClients (map json_client cs)"
| "encoded (VRequests rs) = VRequests (map json_request rs)"
| "encoded v = v"

text \<open>Lists of users and of clients hold no hashes of passwords, secrets, tokens or commands.\<close>

fun discreet :: "reply_value \<Rightarrow> bool" where
  "discreet (VUsers us) = list_all (\<lambda>u. user_PasswordHash u = [] \<and> user_SessionToken u = [] \<and> user_TotpSecret u = []) us"
| "discreet (VClients cs) = list_all (\<lambda>c. rc_AuthToken c = [] \<and> rc_Cmds c = [] \<and> rc_DispatchedCmds c = []) cs"
| "discreet _ = True"

definition typed :: "route \<Rightarrow> (string \<times> reply_value) list \<Rightarrow> bool" where
  "typed route fs \<longleftrightarrow> map (\<lambda>(n, v). (n, kind_of v)) fs = reply_schema route \<and> (\<forall>(n, v) \<in> set fs. discreet (encoded v))"

definition replies_typed :: "route \<Rightarrow> reply outcome \<Rightarrow> bool" where
  "replies_typed route out \<longleftrightarrow> (\<forall>fs. fst out = Inr (ROk fs) \<longrightarrow> typed route fs)"

lemma replies_typed_simps [simp]:
  "replies_typed route (Inl p, s)" "replies_typed route (Inr (RError msg), s)" "replies_typed route (Inr RNothing, s)"
  "replies_typed route (Inr (ROk fs), s) \<longleftrightarrow> typed route fs"
  by (simp_all add: replies_typed_def)

lemma if_authUser_typed: "(\<And>s. replies_typed route (body s)) \<Longrightarrow> replies_typed route (if_authUser e r msg body s)"
  by (simp add: if_authUser_def split: prod.split bool.split)

lemma as_user_typed: "(\<And>i u s. replies_typed route (body i u s)) \<Longrightarrow> replies_typed route (as_user e r msg body s)"
  unfolding as_user_def by (rule if_authUser_typed) (simp split: option.split)

lemma list_users_typed: "typed GET_users [(''users'', VUsers (map public_user us)), (''authTypes'', VNumbers ns)]"
  by (simp add: typed_def list_all_iff public_user_def)

lemma list_clients_typed:
  "typed GET_clients [(''clients'', VClients (map (\<lambda>client. client\<lparr>rc_DispatchedCmds := [], rc_Cmds := []\<rparr>) cs))]"
  by (simp add: typed_def list_all_iff json_client_def)

lemma typed_plain:
  "map (\<lambda>(n, v). (n, kind_of v)) fs = reply_schema route \<Longrightarrow> Users_list \<notin> snd ` set (reply_schema route) \<Longrightarrow>
     Clients_list \<notin> snd ` set (reply_schema route) \<Longrightarrow> typed route fs"
proof -
  assume a: "map (\<lambda>(n, v). (n, kind_of v)) fs = reply_schema route" "Users_list \<notin> snd ` set (reply_schema route)"
    "Clients_list \<notin> snd ` set (reply_schema route)"
  have "discreet (encoded v)" if "(n, v) \<in> set fs" for n v
  proof -
    have "(n, kind_of v) \<in> set (reply_schema route)" using that unfolding a(1) [symmetric] by force
    then have "kind_of v \<noteq> Users_list" "kind_of v \<noteq> Clients_list" using a(2,3) by force+
    then show ?thesis by (cases v) auto
  qed
  with a(1) show ?thesis by (auto simp: typed_def)
qed

lemmas reply_typing = if_authUser_typed as_user_typed list_users_typed list_clients_typed typed_plain

lemma client_replies_typed:
  "replies_typed GET_client_ping (ClientPing cf e r s)" "replies_typed (GET_client_cmds timed_out) (ClientCmds timed_out cf r s)"
  "replies_typed PUT_client_cmd_state (PutClientCmdState cf r s)" "replies_typed PUT_client_cmd_logs (PutClientCmdLogs cf r s)"
  "replies_typed GET_client_cmd_logs (GetClientCmdLogs e r s)" "replies_typed POST_client_auth (PostClientAuth cf e r s)"
  "replies_typed GET_tags (GetTags e r s)" "replies_typed GET_clients (GetClients e r s)" "replies_typed GET_ping (Ping s)"
  unfolding ClientPing_def ClientCmds_def PutClientCmdState_def PutClientCmdLogs_def GetClientCmdLogs_def PostClientAuth_def
    GetTags_def GetClients_def Ping_def Let_def
  by (auto intro!: reply_typing split: option.split prod.split log_body.split)

lemma user_replies_typed:
  "replies_typed POST_auth (PostAuth x ldap e r s)" "replies_typed PUT_user_password (PutUserPassword x e r s)"
  "replies_typed GET_users (GetUsers e r s)" "replies_typed GET_users_names (GetUsersNames e r s)"
  "replies_typed POST_user (PostUser x e r s)" "replies_typed DELETE_user (DeleteUser x e r s)"
  "replies_typed PUT_user (PutUser x e r s)"
  "replies_typed GET_user_2fa (GetUser2fa x e r s)" "replies_typed PUT_user_2fa (PutUser2fa x e r s)"
  unfolding PostAuth_def PutUserPassword_def GetUsers_def GetUsersNames_def PostUser_def DeleteUser_def PutUser_def
    GetUser2fa_def PutUser2fa_def Let_def
  by (auto intro!: reply_typing split: option.split prod.split sum.split)

lemma admin_replies_typed:
  "replies_typed GET_templates (GetTemplate e r s)" "replies_typed POST_template (PostTemplate e r s)"
  "replies_typed DELETE_template (DeleteTemplate e r s)" "replies_typed POST_template_validation (PostTemplateValidation e r s)"
  "replies_typed DELETE_template_validation (DeleteTemplateValidation e r s)"
  "replies_typed GET_http_checks (GetHttpChecks e r s)" "replies_typed POST_http_check (PostHttpCheck x e r s)"
  "replies_typed DELETE_http_check (DeleteHttpCheck e r s)"
  unfolding GetTemplate_def PostTemplate_def DeleteTemplate_def PostTemplateValidation_def DeleteTemplateValidation_def
    GetHttpChecks_def PostHttpCheck_def DeleteHttpCheck_def Let_def
  by (auto intro!: reply_typing split: option.split prod.split sum.split)

lemma consensus_replies_typed:
  "replies_typed POST_consensus_request (PostConsensusRequest x cf e r s)"
  "replies_typed POST_consensus_approve (PostConsensusApprove e r s)"
  "replies_typed DELETE_consensus_request (DeleteConsensusRequest e r s)"
  "replies_typed GET_consensus_pending (GetConsensusPending e r s)"
  unfolding PostConsensusRequest_def PostConsensusApprove_def DeleteConsensusRequest_def GetConsensusPending_def Let_def
  by (auto intro!: reply_typing split: option.split prod.split sum.split)

text \<open>
  C34: Every answer of a handler that succeeds has the fields of its route, with values of the kinds that the console and the client read,
  and what is encoded of lists of users and clients holds no password hash, no two factor secret, no session, no token and no command.
\<close>

theorem replies_have_schema:
  assumes "serve x cf ldap e route r s = (Inr (ROk fs), s')"
  shows "map (\<lambda>(n, v). (n, kind_of v)) fs = reply_schema route \<and> (\<forall>(n, v) \<in> set fs. discreet (encoded v))"
proof -
  have "replies_typed route (serve x cf ldap e route r s)"
    by (cases route) (simp_all only: serve.simps client_replies_typed user_replies_typed admin_replies_typed consensus_replies_typed)
  with assms show ?thesis by (simp add: typed_def)
qed

theorem replies_have_schema_witness:
  "\<exists>us fs s'. serve sample_ext sample_conf None sample_env GET_users sample_request sample_server =
      (Inr (ROk ((''users'', VUsers us) # fs)), s') \<and> us \<noteq> [] \<and>
    list_all (\<lambda>u. user_PasswordHash u = [] \<and> user_SessionToken u = []) us"
proof -
  have u: "session_user sample_env sample_request sample_server = Some sample_user"
    by (simp add: session_user_def getUser_def sample_request_def sample_server_def ByName_def sample_user_def
        sample_env_def h_get_def session_timeout_def nanosecond_per_second_def)
  then obtain i where admitted: "\<And>msg body. as_user sample_env sample_request msg body sample_server =
      body i (TouchSession (env_now sample_env) (rq_RemoteAddr sample_request) sample_user) (touch sample_env sample_request i sample_server)"
    by (cases rule: as_user_cases [of sample_env sample_request sample_server]) auto
  let ?us = "map public_user (us_Users (srv_userStore (touch sample_env sample_request i sample_server)))"
  have reply: "serve sample_ext sample_conf None sample_env GET_users sample_request sample_server =
      (Inr (ROk [(''users'', VUsers ?us), (''authTypes'', VNumbers AuthTypes)]), touch sample_env sample_request i sample_server)"
    by (simp add: GetUsers_def admitted HasRole_def gm_true_def sample_user_def del: touch_simps sample_simps)
  moreover have "length ?us = 1" by (simp add: upd_user_def)
  then have "?us \<noteq> []" by (metis list.size(3) zero_neq_one)
  moreover have "list_all (\<lambda>u. user_PasswordHash u = [] \<and> user_SessionToken u = []) ?us"
    using replies_have_schema [OF reply] by (auto simp: list_all_iff simp del: touch_simps)
  ultimately show ?thesis by blast
qed

end
