(* ===== verification/Ldap.thy ===== *)
theory Ldap
  imports Access_Theorems
begin

text \<open>
  ldap_auth.go, and UpdateUser of users.go: the configuration of the directory, the authenticator that asks it, and who gets in
  when it is configured. Package ldap with the directory behind it, and package reflections, are parameters.
\<close>

section \<open>Configuration\<close>

record ldap_config =
  lc_initialized :: bool
  lc_isTLS :: bool
  lc_host :: string
  lc_port :: string
  lc_ServerAddress :: string
  lc_ManagerDN :: string
  lc_ManagerPassword :: string
  lc_RootDN :: string
  lc_UserSearchBase :: string
  lc_UserSearchFilter :: string
  lc_Attributes :: "string list"
  lc_EmailAttr :: string

text \<open>
  \<open>fmt.Sprintf\<close> of a format with one text as argument, for formats whose directives are \<open>%s\<close> and \<open>%%\<close>: the first
  \<open>%s\<close> becomes the text, another one reports a missing argument, and a text that is not used is reported at the end.
\<close>

fun Sprintf_loop :: "string \<Rightarrow> string option \<Rightarrow> string" where
  "Sprintf_loop [] None = []"
| "Sprintf_loop [] (Some arg) = ''%!(EXTRA string='' @ arg @ '')''"
| "Sprintf_loop (c # cs) arg =
     (if c = CHR ''%'' \<and> prefix ''s'' cs then
        (case arg of None \<Rightarrow> ''%!s(MISSING)'' | Some a \<Rightarrow> a) @ Sprintf_loop (drop 1 cs) None
      else if c = CHR ''%'' \<and> prefix ''%'' cs then CHR ''%'' # Sprintf_loop (drop 1 cs) arg
      else c # Sprintf_loop cs arg)"

definition Sprintf :: "string \<Rightarrow> string \<Rightarrow> string" where
  "Sprintf format arg = Sprintf_loop format (Some arg)"

definition GetUserSearchFilter :: "ldap_config \<Rightarrow> string \<Rightarrow> string" where
  "GetUserSearchFilter c login = ''(&('' @ Sprintf (lc_UserSearchFilter c) login @ ''))''"

text \<open>The expression \<open>(ldaps?)://([^/:]+):?([0-9]{0,})?\<close> at one place of the address, and its leftmost match.\<close>

definition ldap_here :: "string \<Rightarrow> (bool \<times> string \<times> string) option" where
  "ldap_here s =
     (let (tls, rest) = (if prefix ''ldaps://'' s then (True, drop 8 s) else (False, drop 7 s))
      in if (prefix ''ldaps://'' s \<or> prefix ''ldap://'' s) \<and> rest \<noteq> [] \<and> host_char (hd rest) then
           let host = takeWhile host_char rest;
               rest = dropWhile host_char rest;
               rest = (if prefix '':'' rest then drop 1 rest else rest)
           in Some (tls, host, takeWhile digit rest)
         else None)"

fun ldap_match :: "string \<Rightarrow> (bool \<times> string \<times> string) option" where
  "ldap_match [] = None"
| "ldap_match (c # cs) = (case ldap_here (c # cs) of Some m \<Rightarrow> Some m | None \<Rightarrow> ldap_match cs)"

definition LdapConfig_Init :: "ldap_config \<Rightarrow> string option \<times> ldap_config" where
  "LdapConfig_Init c =
     (if lc_initialized c then (None, c)
      else case ldap_match (lc_ServerAddress c) of
        None \<Rightarrow> (Some ''Cannot parse server address'', c)
      | Some (tls, host, port) \<Rightarrow>
          let c = c\<lparr>lc_isTLS := tls, lc_host := host, lc_port := port\<rparr>;
              c = (if lc_port c = [] then c\<lparr>lc_port := (if lc_isTLS c then ''636'' else ''389'')\<rparr> else c)
          in (None, c\<lparr>lc_initialized := True\<rparr>))"

definition LdapConfig_GetAttributes :: "ldap_config \<Rightarrow> string list" where
  "LdapConfig_GetAttributes c = lc_Attributes c @ [lc_EmailAttr c, ''dn'']"

definition GetAddress :: "ldap_config \<Rightarrow> string" where
  "GetAddress c = lc_host c @ '':'' @ lc_port c"

section \<open>The directory\<close>

text \<open>
  Package ldap and the directory behind it, parameters: connecting to an address (with TLS or not) and binding as an entry yield an
  error text or nothing, a search below a root yields entries.
\<close>

record ldap_entry =
  le_DN :: string
  le_GetAttributeValue :: "string \<Rightarrow> string"

record directory =
  dir_Dial :: "bool \<Rightarrow> string \<Rightarrow> string option"
  dir_Bind :: "string \<Rightarrow> string \<Rightarrow> string option"
  dir_Search :: "string \<Rightarrow> string \<Rightarrow> string list \<Rightarrow> string + ldap_entry list"

definition createConnection :: "directory \<Rightarrow> ldap_config \<Rightarrow> string option" where
  "createConnection dir c = dir_Dial dir (lc_isTLS c) (GetAddress c)"

text \<open>\<open>Init\<close> of the authenticator: whether there is a connection bound as the manager.\<close>

definition LdapAuthenticator_Init :: "directory \<Rightarrow> ldap_config \<Rightarrow> string option" where
  "LdapAuthenticator_Init dir c =
     (case createConnection dir c of
        Some err \<Rightarrow> Some (''Cannot connect to '' @ GetAddress c @ '' due to: '' @ err)
      | None \<Rightarrow>
          (case dir_Bind dir (lc_ManagerDN c) (lc_ManagerPassword c) of
             Some err \<Rightarrow> Some (''Cannot bind as user '' @ lc_ManagerDN c @ '' due to: '' @ err)
           | None \<Rightarrow> None))"

text \<open>A server whose LDAP set-up fails does not start.\<close>

definition newLdapAuthenticator :: "directory \<Rightarrow> ldap_config \<Rightarrow> panic + ldap_config" where
  "newLdapAuthenticator dir c =
     (case LdapConfig_Init c of
        (Some err, c) \<Rightarrow> Inl LogFatal
      | (None, c) \<Rightarrow>
          (case LdapAuthenticator_Init dir c of
             Some err \<Rightarrow> Inl LogFatal
           | None \<Rightarrow> Inr c))"

definition UserSearch :: "directory \<Rightarrow> ldap_config \<Rightarrow> string \<Rightarrow> string + ldap_entry" where
  "UserSearch dir c login =
     (case dir_Search dir (lc_RootDN c) (GetUserSearchFilter c login) (LdapConfig_GetAttributes c) of
        Inl err \<Rightarrow> Inl err
      | Inr entries \<Rightarrow>
          if length entries < 1 then Inl ''User does not exist''
          else if length entries > 1 then Inl ''Too many entries returned''
          else Inr (entries ! 0))"

section \<open>The authenticator\<close>

text \<open>
  \<open>UpdateUser\<close> of users.go. Package reflections is the parameter \<open>set_field\<close>: an object with the named field set, or
  nothing and the object as it was. Only the error of the last field is seen; the store is saved if that one was set.
\<close>

type_synonym set_field = "string \<Rightarrow> string \<Rightarrow> user \<Rightarrow> user option"

fun set_fields :: "set_field \<Rightarrow> (string, string) gomap \<Rightarrow> bool \<Rightarrow> user \<Rightarrow> bool \<times> user" where
  "set_fields sf [] err u = (err, u)"
| "set_fields sf ((k, v) # changes) err u =
     (case sf k v u of
        Some u \<Rightarrow> set_fields sf changes False u
      | None \<Rightarrow> set_fields sf changes True u)"

definition UpdateUser :: "set_field \<Rightarrow> env \<Rightarrow> user \<Rightarrow> (string, string) gomap \<Rightarrow> user_store \<Rightarrow> (panic + bool) \<times> user_store" where
  "UpdateUser sf e user changes s =
     (case ByName s (user_Username user) of
        None \<Rightarrow> (Inl NilDeref, s)
      | Some i \<Rightarrow>
          (case get_user s i of
             None \<Rightarrow> (Inl NilDeref, s)
           | Some u \<Rightarrow>
               let (err, u) = set_fields sf changes False u;
                   s = upd_user i (\<lambda>_. u) s
               in if err then (Inr False, s) else (Inr True, users_save e s)))"

text \<open>
  \<open>auth\<close>, of an authenticator that \<open>newLdapAuthenticator\<close> has made: it has a connection, so the check for a missing one
  at the head of the method does not apply.
\<close>

definition LdapAuthenticator :: "directory \<Rightarrow> ldap_config \<Rightarrow> set_field \<Rightarrow> env \<Rightarrow> authenticator" where
  "LdapAuthenticator dir c sf e user ar s =
     (let known = (case user of None \<Rightarrow> None | Some i \<Rightarrow> get_user s i)
      in if \<exists>u. known = Some u \<and> \<not> IsAuthType u AUTH_TYPE_LDAP
         then ((None, Some ''User doesn't have LDAP auth enabled''), s)
         else case UserSearch dir c (ar_login ar) of
           Inl err \<Rightarrow> ((None, Some (''User not found in LDAP: '' @ err)), s)
         | Inr userEntry \<Rightarrow>
             if createConnection dir c \<noteq> None
             then ((None, Some ''Cannot create connection to authenticate user''), s)
             else case dir_Bind dir (le_DN userEntry) (ar_credential ar) of
               Some err \<Rightarrow> ((None, Some (''Authenticating user in LDAP faild due to: '' @ err)), s)
             | None \<Rightarrow>
                 let email = le_GetAttributeValue userEntry (lc_EmailAttr c)
                 in case known of
                      None \<Rightarrow>
                        (case AddUser e (ar_login ar) email AUTH_TYPE_LDAP s of
                           (Inl err, s) \<Rightarrow>
                             ((None, Some (''User authenticated by LDAP but cannot be stored in user store due to: '' @ err)), s)
                         | (Inr i, s) \<Rightarrow> ((Some i, None), s))
                    | Some u \<Rightarrow> ((user, None), snd (UpdateUser sf e u [(''EmailAddress'', email)] s)))"

section \<open>Properties\<close>

text \<open>The documented behaviour of \<open>reflections.SetField\<close> on the one field that the code sets.\<close>

definition sets_email :: "set_field \<Rightarrow> bool" where
  "sets_email sf \<longleftrightarrow> (\<forall>v u. sf ''EmailAddress'' v u = Some (u\<lparr>user_EmailAddress := v\<rparr>))"

lemma UpdateUser_email:
  assumes "sets_email sf" "ByName s (user_Username u) = Some i" "get_user s i = Some u"
  shows "UpdateUser sf e u [(''EmailAddress'', v)] s =
    (Inr True, users_save e (upd_user i (\<lambda>_. u\<lparr>user_EmailAddress := v\<rparr>) s))"
  using assms by (simp add: UpdateUser_def sets_email_def)

lemma user_store_ok_set:
  assumes "user_store_ok s" "get_user s i = Some u" "user_Username u' = user_Username u"
  shows "user_store_ok (upd_user i (\<lambda>_. u') s)"
proof -
  have "upd_user i (\<lambda>_. u') s = upd_user i (\<lambda>w. if user_Username w = user_Username u' then u' else w) s"
    using assms(2,3) by (simp add: upd_user_def h_upd_def h_get_def split: if_splits)
  also have "user_store_ok \<dots>" by (rule user_store_ok_upd [OF assms(1)]) simp
  finally show ?thesis .
qed

text \<open>What the directory has to say for a login.\<close>

definition directory_accepts :: "directory \<Rightarrow> ldap_config \<Rightarrow> auth_request \<Rightarrow> bool" where
  "directory_accepts dir c ar \<longleftrightarrow> createConnection dir c = None \<and>
     (\<exists>entry. dir_Search dir (lc_RootDN c) (GetUserSearchFilter c (ar_login ar)) (LdapConfig_GetAttributes c) = Inr [entry] \<and>
        dir_Bind dir (le_DN entry) (ar_credential ar) = None)"

lemma UserSearch_Inr:
  "UserSearch dir c login = Inr entry \<longleftrightarrow>
     dir_Search dir (lc_RootDN c) (GetUserSearchFilter c login) (LdapConfig_GetAttributes c) = Inr [entry]"
proof (cases "dir_Search dir (lc_RootDN c) (GetUserSearchFilter c login) (LdapConfig_GetAttributes c)")
  case (Inr entries)
  then show ?thesis by (cases entries rule: remdups_adj.cases) (auto simp: UserSearch_def)
qed (simp add: UserSearch_def)

lemma accepts_cases:
  assumes "directory_accepts dir c ar"
  obtains entry where "UserSearch dir c (ar_login ar) = Inr entry" "createConnection dir c = None"
    "dir_Bind dir (le_DN entry) (ar_credential ar) = None"
  using assms by (auto simp: directory_accepts_def UserSearch_Inr)

lemma ldap_refuses:
  assumes "\<not> directory_accepts dir c ar \<or> (\<exists>i u. user = Some i \<and> get_user s i = Some u \<and> \<not> IsAuthType u AUTH_TYPE_LDAP)"
  shows "\<exists>err. LdapAuthenticator dir c sf e user ar s = ((None, Some err), s)"
  using assms UserSearch_Inr [of dir c "ar_login ar"]
  by (auto simp: LdapAuthenticator_def Let_def directory_accepts_def split: sum.split option.split)

lemma ldap_adds:
  assumes "directory_accepts dir c ar" "TrimSpace (ar_login ar) \<notin> user_Username ` set (us_Users s)"
  shows "\<exists>u. LdapAuthenticator dir c sf e None ar s = ((Some (length (us_Users s)), None), s\<lparr>us_Users := us_Users s @ [u]\<rparr>) \<and>
    user_Username u = TrimSpace (ar_login ar) \<and> user_Enabled u \<and> user_AuthType u = AUTH_TYPE_LDAP \<and>
    user_Roles u = [] \<and> \<not> HasTwoFactor u"
proof (rule accepts_cases [OF assms(1)])
  fix entry
  assume "UserSearch dir c (ar_login ar) = Inr entry" "createConnection dir c = None"
    "dir_Bind dir (le_DN entry) (ar_credential ar) = None"
  moreover have "\<not> (\<exists>usr \<in> set (us_Users s). user_Username usr = TrimSpace (ar_login ar))"
    using assms(2) by (metis imageI)
  ultimately show ?thesis
    by (intro exI [of _ "(newUser (env_uuid e 0))\<lparr>user_Username := TrimSpace (ar_login ar),
          user_EmailAddress := le_GetAttributeValue entry (lc_EmailAttr c), user_Enabled := True, user_AuthType := AUTH_TYPE_LDAP\<rparr>"])
      (simp add: LdapAuthenticator_def AddUser_def Let_def newUser_def auth_type_bits HasTwoFactor_def LegacyHasTwoFactors_def)
qed

lemma ldap_updates:
  assumes "directory_accepts dir c ar" "sets_email sf" "get_user s i = Some u" "IsAuthType u AUTH_TYPE_LDAP"
  shows "\<exists>m s'. LdapAuthenticator dir c sf e (Some i) ar s = ((Some i, None), s') \<and>
    get_user s' i = Some (u\<lparr>user_EmailAddress := m\<rparr>)"
proof (rule accepts_cases [OF assms(1)])
  fix entry
  assume a: "UserSearch dir c (ar_login ar) = Inr entry" "createConnection dir c = None"
    "dir_Bind dir (le_DN entry) (ar_credential ar) = None"
  let ?v = "le_GetAttributeValue entry (lc_EmailAttr c)"
  let ?r = "UpdateUser sf e u [(''EmailAddress'', ?v)] s"
  have "u \<in> set (us_Users s)" using assms(3) by (rule h_get_in_set)
  then have "ByName s (user_Username u) \<noteq> None" by (simp add: ByName_None_iff)
  then obtain j w where j: "ByName s (user_Username u) = Some j" "get_user s j = Some w" using ByName_SomeD by blast
  have "get_user (snd ?r) i = Some (u\<lparr>user_EmailAddress := if j = i then ?v else user_EmailAddress u\<rparr>)"
    using assms(2,3) j by (auto simp: UpdateUser_def sets_email_def users_save_def Let_def)
  moreover have "LdapAuthenticator dir c sf e (Some i) ar s = ((Some i, None), snd ?r)"
    using a assms(3,4) by (simp add: LdapAuthenticator_def Let_def)
  ultimately show ?thesis by blast
qed

lemma UpdateUser_ok:
  assumes "sets_email sf" "user_store_ok s"
  shows "user_store_ok (snd (UpdateUser sf e u [(''EmailAddress'', v)] s))"
  using assms
  by (auto simp: UpdateUser_def sets_email_def split: option.split intro!: user_store_ok_save user_store_ok_set)

lemma LdapAuthenticator_ok:
  assumes "sets_email sf"
  shows "ldap_ok (Some (LdapAuthenticator dir c sf e))"
proof -
  have "user_store_ok (snd (LdapAuthenticator dir c sf e u ar s))" if "user_store_ok s" for u ar s
    using that user_store_ok_AddUser [OF that, of e "ar_login ar"] UpdateUser_ok [OF assms that]
    by (auto simp: LdapAuthenticator_def Let_def split: option.split sum.split prod.split) (metis snd_conv)+
  moreover have "get_user s' i \<noteq> None" if "LdapAuthenticator dir c sf e user ar s = ((Some i, None), s')" for user ar s i s'
  proof -
    have acc: "directory_accepts dir c ar" and known: "\<And>j u. user = Some j \<Longrightarrow> get_user s j = Some u \<Longrightarrow> IsAuthType u AUTH_TYPE_LDAP"
      using ldap_refuses [of dir c ar user s sf e] that by auto
    show ?thesis
    proof (cases "case user of None \<Rightarrow> None | Some j \<Rightarrow> get_user s j")
      case None
      obtain entry where "UserSearch dir c (ar_login ar) = Inr entry" "createConnection dir c = None"
          "dir_Bind dir (le_DN entry) (ar_credential ar) = None"
        using accepts_cases [OF acc] by blast
      then show ?thesis using that None
        by (auto simp: LdapAuthenticator_def AddUser_def Let_def split: if_splits)
    next
      case (Some u)
      then obtain j where "user = Some j" "get_user s j = Some u" by (auto split: option.splits)
      with ldap_updates [OF acc assms, of s j u e] known that show ?thesis by auto
    qed
  qed
  ultimately show ?thesis by (simp add: ldap_ok_def keeps_users_def finds_users_def)
qed

text \<open>
  The authenticator of the directory keeps the contract that the theorems on the running server ask of it, for every directory
  and configuration: it adds no name twice, and returns a user of the store.
\<close>

theorem LdapAuthenticator_contract:
  assumes "sets_email sf"
  shows "ldap_ok (Some (LdapAuthenticator dir c sf e))"
  by (rule LdapAuthenticator_ok [OF assms])

definition sample_set_field :: set_field where
  "sample_set_field k v u = (if k = ''EmailAddress'' then Some (u\<lparr>user_EmailAddress := v\<rparr>) else None)"

text \<open>A directory that knows one person.\<close>

definition sample_directory :: directory where
  "sample_directory = \<lparr>dir_Dial = (\<lambda>tls address. None),
     dir_Bind = (\<lambda>dn pw. if dn = ''cn=eve'' \<and> pw = ''word'' then None else Some ''invalid credentials''),
     dir_Search = (\<lambda>root flt attrs. Inr (if flt = ''(&(uid=eve))''
       then [\<lparr>le_DN = ''cn=eve'', le_GetAttributeValue = (\<lambda>a. ''eve@host'')\<rparr>] else []))\<rparr>"

definition sample_ldap :: ldap_config where
  "sample_ldap = \<lparr>lc_initialized = True, lc_isTLS = True, lc_host = ''host'', lc_port = ''636'',
     lc_ServerAddress = ''ldaps://host'', lc_ManagerDN = ''cn=manager'', lc_ManagerPassword = ''pw'', lc_RootDN = ''dc=host'', lc_UserSearchBase = [],
     lc_UserSearchFilter = ''uid=%s'', lc_Attributes = [], lc_EmailAttr = ''mail''\<rparr>"

theorem LdapAuthenticator_contract_witness:
  "ldap_ok (Some (LdapAuthenticator sample_directory sample_ldap sample_set_field sample_env))"
  by (rule LdapAuthenticator_contract) (simp add: sets_email_def sample_set_field_def)

section \<open>Who gets in with a directory\<close>

lemma service_ldap:
  "service_authUser (createAuthService x now (Some a)) ar s =
     (case AuthRequest_Validate ar of
        Some err \<Rightarrow> ((None, Some err), s)
      | None \<Rightarrow>
          (case getValidUser ar s of
             (user, Some err) \<Rightarrow> ((user, Some err), s)
           | (user, None) \<Rightarrow>
               (case first_factor_loop [LocalAuthenticator x, a]
                   ''Misconfigured Auth Service, there are no First Factor Authenticators defined'' user ar s of
                  ((user, err), s) \<Rightarrow>
                    (case (user, err) of
                       (Some i, None) \<Rightarrow>
                         (case get_user s i of
                            Some u \<Rightarrow> if HasTwoFactor u then GAuthAuthenticator x now (Some i) ar s else ((Some i, None), s)
                          | None \<Rightarrow> ((Some i, None), s))
                     | _ \<Rightarrow> ((None, Some (''User not authenticated, last authenticator error: ''
                              @ (case err of None \<Rightarrow> ''%!s(<nil>)'' | Some e \<Rightarrow> e))), s)))))"
  by (simp add: service_authUser_def createAuthService_def newAuthService_def appendFirstFactor_def Let_def
      performFirstFactorAuth_def del: first_factor_loop.simps cong: option.case_cong prod.case_cong)

lemma email_only [simp]:
  "HasTwoFactor (u\<lparr>user_EmailAddress := m\<rparr>) = HasTwoFactor u"
  "ValidateTotp x now (u\<lparr>user_EmailAddress := m\<rparr>) t = ValidateTotp x now u t"
  by (simp_all add: HasTwoFactor_def IsAuthType_def LegacyHasTwoFactors_def ValidateTotp_def)

lemma gauth_result:
  "get_user s i = Some u \<Longrightarrow> (\<exists>j s'. GAuthAuthenticator x now (Some i) ar s = ((Some j, None), s')) \<longleftrightarrow> token_ok x now u ar"
  by (auto simp: GAuthAuthenticator_def token_ok_def split: prod.split bool.split)

lemma local_result:
  "get_user s i = Some u \<Longrightarrow> password_ok x u ar \<Longrightarrow> LocalAuthenticator x (Some i) ar s = ((Some i, None), s)"
  "get_user s i = Some u \<Longrightarrow> \<not> password_ok x u ar \<Longrightarrow> \<exists>err. LocalAuthenticator x (Some i) ar s = ((None, Some err), s)"
  "\<exists>err. LocalAuthenticator x None ar s = ((None, Some err), s)"
  by (simp_all add: LocalAuthenticator_def password_ok_def Let_def)

definition logs_in :: "ext \<Rightarrow> time \<Rightarrow> authenticator \<Rightarrow> auth_request \<Rightarrow> user_store \<Rightarrow> bool" where
  "logs_in x now a ar s \<longleftrightarrow> (\<exists>i s'. service_authUser (createAuthService x now (Some a)) ar s = ((Some i, None), s'))"

lemma logs_in_unknown:
  assumes "ByName s (ar_login ar) = None" "TrimSpace (ar_login ar) = ar_login ar"
  shows "logs_in x now (LdapAuthenticator dir c sf e) ar s \<longleftrightarrow>
    ar_login ar \<noteq> [] \<and> ar_credential ar \<noteq> [] \<and> directory_accepts dir c ar"
proof -
  let ?a = "LdapAuthenticator dir c sf e"
  obtain err where l: "LocalAuthenticator x None ar s = ((None, Some err), s)" using local_result(3) by blast
  have valid: "getValidUser ar s = (None, None)" using assms(1) by (simp add: getValidUser_def)
  show ?thesis
  proof (cases "directory_accepts dir c ar")
    case True
    have "TrimSpace (ar_login ar) \<notin> user_Username ` set (us_Users s)" using assms by (simp add: ByName_None_iff)
    from ldap_adds [OF True this, of sf e] obtain u where
      "?a None ar s = ((Some (length (us_Users s)), None), s\<lparr>us_Users := us_Users s @ [u]\<rparr>)" "\<not> HasTwoFactor u" by blast
    with l valid True show ?thesis by (simp add: logs_in_def service_ldap AuthRequest_Validate_def Suc_le_eq not_less)
  next
    case False
    from ldap_refuses [of dir c ar None s sf e] False obtain err' where "?a None ar s = ((None, Some err'), s)" by blast
    with l valid False show ?thesis
      by (cases "AuthRequest_Validate ar") (simp_all add: logs_in_def service_ldap)
  qed
qed

lemma logs_in_known:
  assumes "ByName s (ar_login ar) = Some i" "get_user s i = Some u" "sets_email sf"
  shows "logs_in x now (LdapAuthenticator dir c sf e) ar s \<longleftrightarrow>
    ar_login ar \<noteq> [] \<and> ar_credential ar \<noteq> [] \<and> user_Enabled u \<and> IsAuthDefined u \<and>
    (password_ok x u ar \<or> IsAuthType u AUTH_TYPE_LDAP \<and> directory_accepts dir c ar) \<and>
    (HasTwoFactor u \<longrightarrow> token_ok x now u ar)"
proof -
  let ?a = "LdapAuthenticator dir c sf e"
  have second: "(\<exists>j s'. (if HasTwoFactor u then GAuthAuthenticator x now (Some i) ar t else ((Some i, None), t)) =
      ((Some j, None), s')) \<longleftrightarrow> (HasTwoFactor u \<longrightarrow> token_ok x now u ar)"
    if "get_user t i = Some (u\<lparr>user_EmailAddress := m\<rparr>)" for t m
    using gauth_result [OF that, of x now ar] by (simp add: token_ok_def)
  have same: "get_user s i = Some (u\<lparr>user_EmailAddress := user_EmailAddress u\<rparr>)" using assms(2) by simp
  consider "password_ok x u ar" | "\<not> password_ok x u ar" "IsAuthType u AUTH_TYPE_LDAP \<and> directory_accepts dir c ar"
    | "\<not> password_ok x u ar" "\<not> (IsAuthType u AUTH_TYPE_LDAP \<and> directory_accepts dir c ar)" by blast
  then show ?thesis
  proof cases
    case 1
    then show ?thesis using local_result(1) [OF assms(2) 1] assms(1,2) second [OF same]
      by (auto simp: logs_in_def service_ldap AuthRequest_Validate_def getValidUser_def)
  next
    case 2
    obtain err where l: "LocalAuthenticator x (Some i) ar s = ((None, Some err), s)"
      using local_result(2) [OF assms(2) 2(1)] by blast
    obtain m t where t: "?a (Some i) ar s = ((Some i, None), t)" "get_user t i = Some (u\<lparr>user_EmailAddress := m\<rparr>)"
      using ldap_updates [OF _ assms(3,2), of dir c ar e] 2(2) by blast
    show ?thesis using l t assms(1,2) 2 second [OF t(2)]
      by (auto simp: logs_in_def service_ldap AuthRequest_Validate_def getValidUser_def)
  next
    case 3
    obtain err where l: "LocalAuthenticator x (Some i) ar s = ((None, Some err), s)"
      using local_result(2) [OF assms(2) 3(1)] by blast
    obtain err' where "?a (Some i) ar s = ((None, Some err'), s)"
      using ldap_refuses [of dir c ar "Some i" s sf e] 3(2) assms(2) by blast
    with l assms(1,2) 3 show ?thesis
      by (auto simp: logs_in_def service_ldap AuthRequest_Validate_def getValidUser_def)
  qed
qed

text \<open>
  C22: Who gets in when a directory is configured: a name that the server does not know, exactly if the directory has one entry for
  it that the password binds; a user that it knows, if enabled, with the local password or, for users of the
  directory, with the directory's, and in both cases with the second factor if it is set up. The local password counts whether or
  not the user is one for local logins.
\<close>

theorem ldap_login_iff:
  assumes "sets_email sf" "TrimSpace (ar_login ar) = ar_login ar"
  shows "logs_in x now (LdapAuthenticator dir c sf e) ar s \<longleftrightarrow> ar_login ar \<noteq> [] \<and> ar_credential ar \<noteq> [] \<and>
    (case ByName s (ar_login ar) of
       None \<Rightarrow> directory_accepts dir c ar
     | Some i \<Rightarrow> \<exists>u. get_user s i = Some u \<and> user_Enabled u \<and> IsAuthDefined u \<and>
         (password_ok x u ar \<or> IsAuthType u AUTH_TYPE_LDAP \<and> directory_accepts dir c ar) \<and>
         (HasTwoFactor u \<longrightarrow> token_ok x now u ar))"
proof (cases "ByName s (ar_login ar)")
  case None
  with logs_in_unknown [OF None assms(2)] show ?thesis by simp
next
  case (Some i)
  then obtain u where "get_user s i = Some u" using ByName_SomeD by blast
  with logs_in_known [OF Some this assms(1)] Some show ?thesis by simp
qed

theorem ldap_login_iff_witness:
  "logs_in sample_ext 5 (LdapAuthenticator sample_directory sample_ldap sample_set_field sample_env)
     \<lparr>ar_login = ''eve'', ar_credential = ''word'', ar_token = []\<rparr> (srv_userStore sample_server)"
proof -
  let ?ar = "\<lparr>ar_login = ''eve'', ar_credential = ''word'', ar_token = []\<rparr>"
  have "GetUserSearchFilter sample_ldap ''eve'' = ''(&(uid=eve))''"
    by (simp add: GetUserSearchFilter_def Sprintf_def sample_ldap_def)
  then have "directory_accepts sample_directory sample_ldap ?ar"
    by (simp add: directory_accepts_def createConnection_def sample_directory_def)
  moreover have "ByName (srv_userStore sample_server) ''eve'' = None" by (simp add: ByName_def sample_user_def)
  moreover have "TrimSpace ''eve'' = ''eve''" by code_simp
  ultimately show ?thesis
    using ldap_login_iff [of sample_set_field ?ar] by (simp add: sets_email_def sample_set_field_def)
qed

end
