(* ===== verification/Notification_Services.thy ===== *)
theory Notification_Services
  imports Server_State
begin

text \<open>
  notification_slack.go, SetupNotifications of server.go, and the way of a message through the manager of notifications.go, its
  dispatcher and the receivers. Package slack is a parameter.
\<close>

section \<open>Services\<close>

text \<open>
  The slack service: package slack is a parameter, the look-up of a channel by name and the posting of a message to a channel,
  each with an error text or a result.
\<close>

record slack_config =
  sl_Token :: string
  sl_ChannelName :: string
  sl_NotifyAs :: string

definition Slack_IsValid :: "slack_config \<Rightarrow> string option" where
  "Slack_IsValid c =
     (if length (sl_ChannelName c) < 1 then Some ''CannelName cannot be empty''
      else if length (sl_Token c) < 1 then Some ''Token cannot be empty'' else None)"

definition Slack_IsEnabled :: "slack_config \<Rightarrow> bool" where
  "Slack_IsEnabled c \<longleftrightarrow> length (sl_Token c) > 0"

record slack_options =
  so_AsUser :: bool
  so_Username :: string

record 'w slack_api =
  api_FindChannelByName :: "string \<Rightarrow> string \<Rightarrow> string + string"
  api_ChatPostMessage :: "string \<Rightarrow> string \<Rightarrow> string \<Rightarrow> slack_options \<Rightarrow> 'w \<Rightarrow> string option \<times> 'w"

definition MsgString :: "message \<Rightarrow> string" where
  "MsgString msg = msg_Type msg @ '': '' @ msg_Content msg @ '' '' @ [CHR 0x0A] @ '' see more here: <'' @ msg_Url msg @ ''>''"

definition MsgOptions :: "slack_config \<Rightarrow> slack_options" where
  "MsgOptions c = \<lparr>so_AsUser = False, so_Username = sl_NotifyAs c\<rparr>"

text \<open>The service: the API with the token that it was made for, and the configuration.\<close>

record slack_notify =
  sn_slackApi :: string
  sn_Config :: slack_config

definition newSlackNotify :: "slack_config \<Rightarrow> slack_notify" where
  "newSlackNotify conf = \<lparr>sn_slackApi = sl_Token conf, sn_Config = conf\<rparr>"

definition Slack_GetService :: "slack_config \<Rightarrow> string + slack_notify" where
  "Slack_GetService c = Inr (newSlackNotify c)"

definition Slack_GetName :: "slack_config \<Rightarrow> string" where
  "Slack_GetName c = ''Slack''"

definition SendMessage :: "'w slack_api \<Rightarrow> slack_notify \<Rightarrow> message \<Rightarrow> 'w \<Rightarrow> string option \<times> 'w" where
  "SendMessage api s msg w =
     (case api_FindChannelByName api (sn_slackApi s) (sl_ChannelName (sn_Config s)) of
        Inl err \<Rightarrow> (Some err, w)
      | Inr channel_id \<Rightarrow> api_ChatPostMessage api (sn_slackApi s) channel_id (MsgString msg) (MsgOptions (sn_Config s)) w)"

text \<open>The consumer: an error is written to the log.\<close>

definition Slack_GetConsumer :: "'w slack_api \<Rightarrow> slack_notify \<Rightarrow> message \<Rightarrow> 'w \<Rightarrow> 'w" where
  "Slack_GetConsumer api s msg w = snd (SendMessage api s msg w)"

text \<open>
  \<open>SetupNotifications\<close>: every enabled service is registered. A configuration that is not valid is only logged; the slack service, the
  one that there is, can always be made.
\<close>

fun SetupNotifications :: "slack_config list \<Rightarrow> notification_manager \<Rightarrow> notification_manager" where
  "SetupNotifications [] m = m"
| "SetupNotifications (n # ns) m =
     (if \<not> Slack_IsEnabled n then SetupNotifications ns m
      else case Slack_GetService n of
             Inl err \<Rightarrow> SetupNotifications ns (register m)
           | Inr service \<Rightarrow> SetupNotifications ns (register m))"

section \<open>Messages on their way\<close>

text \<open>A message is sent, the dispatcher turns once, the receiver \<open>k\<close> turns once.\<close>

datatype notification_event = Ev_Notify message | Ev_Dispatch | Ev_Run nat

fun event_step :: "notification_manager \<Rightarrow> notification_event \<Rightarrow> notification_manager" where
  "event_step m (Ev_Notify msg) = Notify msg m"
| "event_step m Ev_Dispatch = dispatch m"
| "event_step m (Ev_Run k) =
     (if k < length (nm_listeners m)
      then m\<lparr>nm_listeners := (nm_listeners m)[k := receiver_run (nm_listeners m ! k)]\<rparr> else m)"

definition notified :: "notification_event list \<Rightarrow> message list" where
  "notified evs = concat (map (\<lambda>e. case e of Ev_Notify msg \<Rightarrow> [msg] | _ \<Rightarrow> []) evs)"

text \<open>What holds on the way: \<open>passed\<close> are the messages that the dispatcher has handed on.\<close>

definition receives :: "message list \<Rightarrow> receiver \<Rightarrow> bool" where
  "receives passed r \<longleftrightarrow> subseq (mr_consumed r @ mr_channel r) passed \<and> length (mr_channel r) \<le> mr_size r \<and>
     mr_size r = 1000 \<and> (length passed \<le> 1000 \<longrightarrow> mr_consumed r @ mr_channel r = passed)"

definition in_transit :: "message list \<Rightarrow> message list \<Rightarrow> notification_manager \<Rightarrow> bool" where
  "in_transit msgs passed m \<longleftrightarrow> msgs = passed @ nm_sendOut m @ nm_blocked m \<and> length (nm_sendOut m) \<le> sendOut_size \<and>
     (nm_blocked m \<noteq> [] \<longrightarrow> length (nm_sendOut m) = sendOut_size) \<and> (\<forall>r \<in> set (nm_listeners m). receives passed r)"

lemma receives_offer:
  assumes "receives passed r"
  shows "receives (passed @ [msg]) (offer msg r)"
proof (cases "length (mr_channel r) < mr_size r")
  case True
  have "subseq ((mr_consumed r @ mr_channel r) @ [msg]) (passed @ [msg])"
    using assms by (intro list_emb_append_mono) (auto simp: receives_def)
  with assms True show ?thesis by (auto simp: receives_def offer_def)
next
  case False
  have "subseq (mr_consumed r @ mr_channel r) (passed @ [msg])"
    using list_emb_append_mono [of "(=)" "mr_consumed r @ mr_channel r" passed "[]" "[msg]"] assms
    by (simp add: receives_def)
  moreover have "length (mr_channel r) \<le> length passed"
    using assms list_emb_length [of "(=)" "mr_consumed r @ mr_channel r" passed] by (simp add: receives_def)
  ultimately show ?thesis using assms False by (auto simp: receives_def offer_def)
qed

lemma receives_run: "receives passed r \<Longrightarrow> receives passed (receiver_run r)"
  by (cases "mr_channel r") (auto simp: receives_def receiver_run_def)

lemma in_transit_step:
  assumes "in_transit msgs passed m"
  shows "\<exists>passed'. in_transit (msgs @ notified [e]) passed' (event_step m e)"
proof (cases e)
  case (Ev_Notify msg)
  with assms show ?thesis
    by (intro exI [of _ passed]) (auto simp: in_transit_def notified_def Notify_def)
next
  case Ev_Dispatch
  show ?thesis
  proof (cases "nm_sendOut m")
    case Nil
    with Ev_Dispatch assms show ?thesis
      by (intro exI [of _ passed]) (simp add: in_transit_def notified_def dispatch_def)
  next
    case (Cons msg rest)
    with Ev_Dispatch assms show ?thesis
      by (intro exI [of _ "passed @ [msg]"])
        (cases "nm_blocked m"; auto simp: in_transit_def notified_def dispatch_def receives_offer)
  qed
next
  case (Ev_Run k)
  show ?thesis
  proof (cases "k < length (nm_listeners m)")
    case True
    have "r \<in> set ((nm_listeners m)[k := receiver_run (nm_listeners m ! k)]) \<Longrightarrow> receives passed r" for r
      using assms True set_update_subset_insert [of "nm_listeners m" k "receiver_run (nm_listeners m ! k)"]
      by (auto simp: in_transit_def intro!: receives_run)
    with Ev_Run True assms show ?thesis
      by (intro exI [of _ passed]) (auto simp: in_transit_def notified_def)
  next
    case False
    with Ev_Run assms show ?thesis by (intro exI [of _ passed]) (simp add: notified_def)
  qed
qed

lemma in_transit_steps:
  assumes "in_transit msgs passed m"
  shows "\<exists>passed'. in_transit (msgs @ notified evs) passed' (foldl event_step m evs)"
  using assms
proof (induction evs arbitrary: msgs passed m)
  case Nil
  then show ?case by (auto simp: notified_def)
next
  case (Cons e evs)
  from in_transit_step [OF Cons.prems, of e] obtain p where "in_transit (msgs @ notified [e]) p (event_step m e)" by blast
  from Cons.IH [OF this] show ?case by (simp add: notified_def)
qed

lemma in_transit_start: "in_transit [] [] (SetupNotifications ns newNotificationManager)"
proof -
  have reg: "in_transit [] [] m \<Longrightarrow> in_transit [] [] (register m)" for m
    by (simp add: in_transit_def register_def registerWithChannelSize_def receives_def)
  have "in_transit [] [] m \<Longrightarrow> in_transit [] [] (SetupNotifications ns m)" for m
  proof (induction ns arbitrary: m)
    case (Cons n ns)
    then show ?case using Cons.IH [OF reg [OF Cons.prems]] by simp
  qed simp
  moreover have "in_transit [] [] newNotificationManager" by (simp add: in_transit_def newNotificationManager_def)
  ultimately show ?thesis by blast
qed

text \<open>
  C39: Notifications: whatever the order in which messages are sent, handed on and consumed, no message is lost before the dispatcher takes it,
  and every service gets those that are handed on in the order in which they were sent; of the first thousand, every one.
\<close>

theorem notifications_in_order:
  "\<exists>passed. let m = foldl event_step (SetupNotifications ns newNotificationManager) evs in
     notified evs = passed @ nm_sendOut m @ nm_blocked m \<and>
     list_all (\<lambda>r. subseq (mr_consumed r @ mr_channel r) passed \<and>
       (length (notified evs) \<le> 1000 \<longrightarrow> mr_consumed r @ mr_channel r = passed)) (nm_listeners m)"
proof -
  obtain passed where "in_transit (notified evs) passed (foldl event_step (SetupNotifications ns newNotificationManager) evs)"
    using in_transit_steps [OF in_transit_start, of evs ns] by auto
  then show ?thesis by (auto simp: in_transit_def receives_def list_all_iff Let_def)
qed

theorem notifications_in_order_witness:
  "\<exists>passed. length passed \<le> 1 \<and> list_all (\<lambda>r. mr_consumed r @ mr_channel r = passed)
     (nm_listeners (foldl event_step (SetupNotifications [\<lparr>sl_Token = ''t'', sl_ChannelName = ''c'', sl_NotifyAs = []\<rparr>]
        newNotificationManager) [Ev_Notify (newMessage ''m'' NEW_CONSENSUS), Ev_Dispatch, Ev_Run 0]))"
proof -
  let ?evs = "[Ev_Notify (newMessage ''m'' NEW_CONSENSUS), Ev_Dispatch, Ev_Run 0]"
  have n: "notified ?evs = [newMessage ''m'' NEW_CONSENSUS]" by (simp add: notified_def)
  from notifications_in_order [of "[\<lparr>sl_Token = ''t'', sl_ChannelName = ''c'', sl_NotifyAs = []\<rparr>]" ?evs]
  obtain passed where "notified ?evs = passed @ (nm_sendOut (foldl event_step (SetupNotifications [\<lparr>sl_Token = ''t'', sl_ChannelName = ''c'', sl_NotifyAs = []\<rparr>]
        newNotificationManager) ?evs)) @ nm_blocked (foldl event_step (SetupNotifications [\<lparr>sl_Token = ''t'', sl_ChannelName = ''c'', sl_NotifyAs = []\<rparr>]
        newNotificationManager) ?evs)"
    "list_all (\<lambda>r. subseq (mr_consumed r @ mr_channel r) passed \<and>
       (length (notified ?evs) \<le> 1000 \<longrightarrow> mr_consumed r @ mr_channel r = passed)) (nm_listeners (foldl event_step (SetupNotifications [\<lparr>sl_Token = ''t'', sl_ChannelName = ''c'', sl_NotifyAs = []\<rparr>]
        newNotificationManager) ?evs))"
    unfolding Let_def by blast
  then show ?thesis unfolding n by (intro exI [of _ passed]) (auto simp: list_all_iff append_eq_Cons_conv Cons_eq_append_conv)
qed

end
