(* ===== verification/Configuration.thy ===== *)
theory Configuration
  imports Ldap Notification_Services Client_Process
begin

text \<open>
  conf.go's loading of the configuration and main.go: options and flags, the old names of options, changes of the file while the process runs,
  and what a process starts. Packages viper and pflag are parameters; Conf holds the fields of the configuration and what is computed from them.
\<close>

section \<open>Packages viper and pflag\<close>

text \<open>
  A value of an option, a flag as \<open>newConfig\<close> declares it, and what the process sees of its host: the arguments, the host's name,
  which paths exist, the environment, and the files that hold the configuration (a parameter of their own type).
\<close>

datatype conf_value = String_value string | Bool_value bool | Int_value int

record flag =
  fl_name :: string
  fl_shorthand :: string
  fl_default :: conf_value

record 'd os =
  os_Args :: "string list"
  os_Hostname :: "string option"
  os_Stat :: "string \<Rightarrow> bool"
  os_Environ :: "string \<Rightarrow> string option"
  os_disk :: 'd

text \<open>
  The packages are parameters. \<open>'v\<close> is the state of a viper object, \<open>'p\<close> what the parsed flags hold; \<open>pf_Parse\<close> yields nothing if it ends the
  process, as it is told to do on an error. \<open>Unmarshal\<close> fills a struct, one function for each of the three structs.
\<close>

record ('v, 'p, 'd) viper =
  vp_New :: 'v
  vp_SetConfigName :: "string \<Rightarrow> 'v \<Rightarrow> 'v"
  vp_SetEnvPrefix :: "string \<Rightarrow> 'v \<Rightarrow> 'v"
  vp_SetDefault :: "string \<Rightarrow> conf_value \<Rightarrow> 'v \<Rightarrow> 'v"
  vp_SetConfigFile :: "string \<Rightarrow> 'v \<Rightarrow> 'v"
  vp_SetConfigType :: "string \<Rightarrow> 'v \<Rightarrow> 'v"
  vp_AddConfigPath :: "string \<Rightarrow> 'v \<Rightarrow> 'v"
  vp_BindPFlags :: "flag list \<Rightarrow> 'p \<Rightarrow> 'v \<Rightarrow> 'v"
  vp_AutomaticEnv :: "(string \<Rightarrow> string option) \<Rightarrow> 'v \<Rightarrow> 'v"
  vp_ReadInConfig :: "'d \<Rightarrow> 'v \<Rightarrow> 'v"
  vp_Set :: "string \<Rightarrow> conf_value \<Rightarrow> 'v \<Rightarrow> 'v"
  vp_GetString :: "'v \<Rightarrow> string \<Rightarrow> string"
  vp_GetBool :: "'v \<Rightarrow> string \<Rightarrow> bool"
  vp_Unmarshal :: "'v \<Rightarrow> conf \<Rightarrow> conf"
  vp_Unmarshal_ldap :: "'v \<Rightarrow> ldap_config \<Rightarrow> ldap_config"
  vp_Unmarshal_slack :: "'v \<Rightarrow> slack_config \<Rightarrow> slack_config"
  pf_Parse :: "flag list \<Rightarrow> string list \<Rightarrow> 'p option"
  pf_String :: "'p \<Rightarrow> string \<Rightarrow> string"

section \<open>Loading the configuration\<close>

text \<open>
  The process's configuration: the global viper object, the fields of \<open>Conf\<close>, and the one function that
  viper calls when the file has changed (a later \<open>OnConfigChange\<close> replaces it).
\<close>

datatype config_callback = No_callback | Reread_notification nat | Update_conf

record 'v config =
  cfg_viper :: 'v
  cfg_conf :: conf
  cfg_ldapViper :: 'v
  cfg_ldapConfig :: ldap_config
  cfg_notificationConfigs :: "slack_config list"
  cfg_notificationVipers :: "'v list"
  cfg_onConfigChange :: config_callback

definition getDefaultHostName :: "'d os \<Rightarrow> string" where
  "getDefaultHostName h = (case os_Hostname h of Some hostname \<Rightarrow> hostname | None \<Rightarrow> ''localhost'')"

definition defaultHomePath :: string where
  "defaultHomePath = ''/etc/indispenso/''"

definition setupHome :: "('v, 'p, 'd) viper \<Rightarrow> string \<Rightarrow> 'v \<Rightarrow> 'v" where
  "setupHome vp homePath v = vp_AddConfigPath vp (if length homePath > 0 then homePath else ''config'') v"

definition config_defaults :: "'d os \<Rightarrow> (string \<times> conf_value) list" where
  "config_defaults h =
     [(''Token'', String_value []),
      (''Hostname'', String_value (getDefaultHostName h)),
      (''UseAutoTag'', Bool_value True),
      (''ServerEnabled'', Bool_value False),
      (''Home'', String_value defaultHomePath),
      (''Debug'', Bool_value False),
      (''ServerPort'', Int_value 897),
      (''EndpointURI'', String_value []),
      (''SslCertFile'', String_value ''cert.pem''),
      (''SslPrivateKeyFile'', String_value ''key.pem''),
      (''AutoGenerateCert'', Bool_value True),
      (''ClientPort'', Int_value 898),
      (''EnableLdap'', Bool_value False),
      (''LdapConfigFile'', String_value [])]"

definition config_flags :: "'d os \<Rightarrow> flag list" where
  "config_flags h = map (\<lambda>(n, s, d). \<lparr>fl_name = n, fl_shorthand = s, fl_default = d\<rparr>)
     [(''config'', ''c'', String_value []),
      (''serverEnabled'', ''s'', Bool_value False),
      (''debug'', ''d'', Bool_value False),
      (''home'', ''p'', String_value defaultHomePath),
      (''endpointUri'', ''e'', String_value []),
      (''token'', ''t'', String_value []),
      (''hostname'', ''i'', String_value (getDefaultHostName h)),
      (''enableLdap'', ''l'', Bool_value False),
      (''help'', ''h'', Bool_value False)]"

definition SetupNotificationConfig ::
  "('v, 'p, 'd) viper \<Rightarrow> 'd os \<Rightarrow> string \<Rightarrow> slack_config \<Rightarrow> 'v config \<Rightarrow> 'v config"
where
  "SetupNotificationConfig vp h filename config c =
     (let v = setupHome vp (vp_GetString vp (cfg_viper c) ''Home'') (vp_New vp);
          v = vp_SetConfigName vp filename v;
          v = vp_ReadInConfig vp (os_disk h) v;
          config = vp_Unmarshal_slack vp v config
      in c\<lparr>cfg_onConfigChange := Reread_notification (length (cfg_notificationConfigs c)),
           cfg_notificationConfigs := cfg_notificationConfigs c @ [config],
           cfg_notificationVipers := cfg_notificationVipers c @ [v]\<rparr>)"

definition EnableAutoUpdate :: "'v config \<Rightarrow> 'v config" where
  "EnableAutoUpdate c = c\<lparr>cfg_onConfigChange := Update_conf\<rparr>"

text \<open>The old names: what the two functions of Conf decide is stored with \<open>viper.Set\<close>.\<close>

definition set_option :: "('v, 'p, 'd) viper \<Rightarrow> ('a \<Rightarrow> conf_value) \<Rightarrow> (string \<times> 'a) option \<Rightarrow> 'v \<Rightarrow> 'v" where
  "set_option vp mk r v = (case r of None \<Rightarrow> v | Some (k, x) \<Rightarrow> vp_Set vp k (mk x) v)"

definition legacy_options :: "('v, 'p, 'd) viper \<Rightarrow> 'v \<Rightarrow> 'v" where
  "legacy_options vp v =
     (let v = set_option vp String_value (UpdateLegacyString (vp_GetString vp v) ''seed'' ''endpointuri'') v;
          v = set_option vp String_value (UpdateLegacyString (vp_GetString vp v) ''secure_token'' ''token'') v
      in set_option vp Bool_value (UpdateLegacyBool (vp_GetBool vp v) ''server_enabled'' ''serverEnabled'' False) v)"

definition setupLdapViper :: "('v, 'p, 'd) viper \<Rightarrow> conf \<Rightarrow> 'v \<Rightarrow> 'v" where
  "setupLdapViper vp cf v =
     setupHome vp (conf_Home cf) (vp_SetConfigName vp ''ldap'' (vp_SetConfigFile vp (conf_LdapConfigFile cf) v))"

definition Conf_Update :: "('v, 'p, 'd) viper \<Rightarrow> 'd os \<Rightarrow> 'v config \<Rightarrow> 'v config" where
  "Conf_Update vp h c =
     (let c = c\<lparr>cfg_viper := legacy_options vp (cfg_viper c)\<rparr>;
          c = c\<lparr>cfg_conf := vp_Unmarshal vp (cfg_viper c) (cfg_conf c)\<rparr>;
          c = (if conf_EnableLdap (cfg_conf c) then
                 let v = vp_ReadInConfig vp (os_disk h) (setupLdapViper vp (cfg_conf c) (cfg_ldapViper c))
                 in c\<lparr>cfg_ldapViper := v, cfg_ldapConfig := vp_Unmarshal_ldap vp v (cfg_ldapConfig c)\<rparr>
               else c)
      in c\<lparr>cfg_conf := AutoRepair (getDefaultHostName h) (cfg_conf c)\<rparr>)"

definition zero_conf :: conf where
  "zero_conf =
     \<lparr>conf_Token = [], conf_Hostname = [], conf_TagsList = [], conf_UseAutoTag = False, conf_ServerEnabled = False,
      conf_EndpointURI = [], conf_ServerPort = 0, conf_SslCertFile = [], conf_SslPrivateKeyFile = [],
      conf_AutoGenerateCert = False, conf_ClientPort = 0, conf_Debug = False, conf_Home = [], conf_LdapConfigFile = [],
      conf_EnableLdap = False\<rparr>"

definition zero_ldap :: ldap_config where
  "zero_ldap =
     \<lparr>lc_initialized = False, lc_isTLS = False, lc_host = [], lc_port = [], lc_ServerAddress = [], lc_ManagerDN = [],
      lc_ManagerPassword = [], lc_RootDN = [], lc_UserSearchBase = [], lc_UserSearchFilter = [], lc_Attributes = [],
      lc_EmailAttr = []\<rparr>"

text \<open>\<open>newConfig\<close>, in the order of the source; \<open>v\<close> is the package's own viper object at the start.\<close>

definition newConfig :: "('v, 'p, 'd) viper \<Rightarrow> 'd os \<Rightarrow> 'v \<Rightarrow> 'v config option" where
  "newConfig vp h v =
     (let ldapViper = vp_New vp;
          v = vp_SetEnvPrefix vp ''ind'' (vp_SetConfigName vp ''indispenso'' v);
          v = foldl (\<lambda>v (k, d). vp_SetDefault vp k d v) v (config_defaults h);
          flags = config_flags h
      in case pf_Parse vp flags (drop 1 (os_Args h)) of
           None \<Rightarrow> None
         | Some p \<Rightarrow>
             let configFile = pf_String vp p ''config'';
                 legacyConfigFile = ''/etc/indispenso/indispenso.conf'';
                 v = (if length configFile > 2 then vp_SetConfigFile vp configFile v
                      else if os_Stat h legacyConfigFile
                      then vp_SetConfigType vp ''yaml'' (vp_SetConfigFile vp legacyConfigFile v) else v);
                 v = vp_AutomaticEnv vp (os_Environ h) (vp_BindPFlags vp flags p v);
                 v = vp_ReadInConfig vp (os_disk h) v;
                 v = setupHome vp (vp_GetString vp v ''Home'') v;
                 ldapViper = setupHome vp (vp_GetString vp v ''Home'') ldapViper;
                 c = \<lparr>cfg_viper = v, cfg_conf = zero_conf, cfg_ldapViper = ldapViper, cfg_ldapConfig = zero_ldap,
                      cfg_notificationConfigs = [], cfg_notificationVipers = [], cfg_onConfigChange = No_callback\<rparr>;
                 c = SetupNotificationConfig vp h ''slack'' \<lparr>sl_Token = [], sl_ChannelName = [], sl_NotifyAs = []\<rparr> c
             in Some (Conf_Update vp h c))"

definition IsHelp :: "('v, 'p, 'd) viper \<Rightarrow> 'v config \<Rightarrow> bool" where
  "IsHelp vp c = vp_GetBool vp (cfg_viper c) ''help''"

text \<open>A change of the configuration file while the process runs: viper reads it again, then calls the function.\<close>

definition config_changed :: "('v, 'p, 'd) viper \<Rightarrow> 'd os \<Rightarrow> 'v config \<Rightarrow> 'v config" where
  "config_changed vp h c =
     (let c = c\<lparr>cfg_viper := vp_ReadInConfig vp (os_disk h) (cfg_viper c)\<rparr>
      in case cfg_onConfigChange c of
           No_callback \<Rightarrow> c
         | Update_conf \<Rightarrow> Conf_Update vp h c
         | Reread_notification k \<Rightarrow>
             if k < length (cfg_notificationVipers c) \<and> k < length (cfg_notificationConfigs c) then
               let v = vp_ReadInConfig vp (os_disk h) (cfg_notificationVipers c ! k)
               in c\<lparr>cfg_notificationVipers := (cfg_notificationVipers c)[k := v],
                    cfg_notificationConfigs :=
                      (cfg_notificationConfigs c)[k := vp_Unmarshal_slack vp v (cfg_notificationConfigs c ! k)]\<rparr>
             else c)"

section \<open>The process\<close>

text \<open>What the files of the stores hold, by path, and the start of the server from the files below the home directory.\<close>

record store_files =
  sf_users :: "string \<Rightarrow> user list stored"
  sf_templates :: "string \<Rightarrow> (string, template) gomap stored"
  sf_consensus :: "string \<Rightarrow> (string, consensus_request) gomap stored"
  sf_checks :: "string \<Rightarrow> (string, http_check) gomap stored"

definition Server_Start :: "ext \<Rightarrow> env \<Rightarrow> store_files \<Rightarrow> conf \<Rightarrow> server option" where
  "Server_Start x e sf cf =
     start_server x e (sf_users sf (HomeFile cf ''users.json'')) (sf_templates sf (HomeFile cf ''templates.conf''))
       (sf_consensus sf (HomeFile cf ''consensus.json'')) (sf_checks sf (HomeFile cf ''httpchecks.json''))"

text \<open>
  \<open>main\<close>: the flags end the process, the help is printed, the configuration is refused, the server cannot start, or the
  process goes on with a server, a client, or both.
\<close>

record ('v, 'w) daemon =
  dm_config :: "'v config"
  dm_server :: "server option"
  dm_client :: "(client \<times> 'w) option"

datatype ('v, 'w) startup =
    Ended_by_flags
  | Help_printed
  | Refused string
  | Server_failed
  | Started "('v, 'w) daemon"

definition start_client ::
  "('v, 'p, 'd) viper \<Rightarrow> 'w net \<Rightarrow> json \<Rightarrow> 'w \<Rightarrow> 'v config \<Rightarrow> (client \<times> 'w) option"
where
  "start_client vp net js w c =
     (if isClientEnabled (cfg_conf c)
      then Some (Client_Start net (cfg_conf c) js (vp_GetBool vp (cfg_viper c) ''useautotag'') (newClient (cfg_conf c)) w)
      else None)"

definition main ::
  "('v, 'p, 'd) viper \<Rightarrow> 'd os \<Rightarrow> 'v \<Rightarrow> ext \<Rightarrow> env \<Rightarrow> store_files \<Rightarrow> 'w net \<Rightarrow> json \<Rightarrow> 'w \<Rightarrow> ('v, 'w) startup"
where
  "main vp h v x e sf net js w =
     (case newConfig vp h v of
        None \<Rightarrow> Ended_by_flags
      | Some c \<Rightarrow>
          if IsHelp vp c then Help_printed
          else
            let c = EnableAutoUpdate c
            in case Conf_Validate (os_Stat h) (cfg_conf c) of
                 Some err \<Rightarrow> Refused err
               | None \<Rightarrow>
                   if conf_ServerEnabled (cfg_conf c) then
                     (case Server_Start x e sf (cfg_conf c) of
                        None \<Rightarrow> Server_failed
                      | Some s \<Rightarrow>
                          let s = s\<lparr>srv_notifications := SetupNotifications (cfg_notificationConfigs c) (srv_notifications s)\<rparr>;
                              c = c\<lparr>cfg_conf := local_endpoint (cfg_conf c)\<rparr>
                          in Started \<lparr>dm_config = c, dm_server = Some s, dm_client = start_client vp net js w c\<rparr>)
                   else Started \<lparr>dm_config = c, dm_server = None, dm_client = start_client vp net js w c\<rparr>)"

section \<open>What a start yields\<close>

text \<open>Whatever package viper does, the address in a configuration that is loaded has been repaired.\<close>

lemma Conf_Update_repaired: "\<exists>u. cfg_conf (Conf_Update vp h c) = AutoRepair (getDefaultHostName h) u"
  by (simp add: Conf_Update_def Let_def) blast

lemma newConfig_repaired: "newConfig vp h v = Some c \<Longrightarrow> \<exists>u. cfg_conf c = AutoRepair (getDefaultHostName h) u"
  using Conf_Update_repaired by (auto simp: newConfig_def Let_def split: option.splits)

lemma AutoRepair_empty: "conf_EndpointURI (AutoRepair d c) = [] \<longleftrightarrow> conf_EndpointURI c = []"
  by (auto simp: AutoRepair_def hostWithPort_def Let_def split: option.split)

lemma local_endpoint_pattern:
  "conf_ServerEnabled c \<Longrightarrow> conf_EndpointURI c = [] \<Longrightarrow> fullUriPattern (conf_EndpointURI (local_endpoint c))"
  using full_uri_https [of "''127.0.0.1''" "'':'' @ itoa (conf_ServerPort c) @ ''/''"]
  by (simp add: local_endpoint_def host_char_def)

lemma local_endpoint_simps [simp]:
  "conf_Token (local_endpoint c) = conf_Token c" "GetHome (local_endpoint c) = GetHome c"
  "conf_ServerEnabled (local_endpoint c) = conf_ServerEnabled c"
  by (simp_all add: local_endpoint_def GetHome_def)

lemma Conf_Validate_None:
  "Conf_Validate exists c = None \<longleftrightarrow> 32 \<le> length (TrimSpace (conf_Token c)) \<and> exists (GetHome c)"
  by (simp add: Conf_Validate_def)

lemma SetupNotifications_count:
  "length (nm_listeners (SetupNotifications ns m)) = length (nm_listeners m) + length (filter Slack_IsEnabled ns)"
  by (induction ns arbitrary: m) (simp_all add: register_def registerWithChannelSize_def)

text \<open>
  C35: A process that goes on after its start has a token of at least 32 characters and a home directory that is there. It runs a server exactly if
  that is configured; then there is one receiver of notifications per service that is. It runs a client exactly if it knows an address or runs a
  server, and the address that the client uses has a scheme and a host, unless what is configured consists of colons and slashes.
\<close>

theorem process_start:
  fixes d :: "('v, 'w) daemon"
  assumes "main vp h v x e sf net js w = Started d" "newConfig vp h v = Some c"
  defines "cf \<equiv> cfg_conf (dm_config d)"
  shows "32 \<le> length (TrimSpace (conf_Token cf)) \<and> os_Stat h (GetHome cf) \<and> \<not> IsHelp vp c \<and>
    (dm_server d \<noteq> None \<longleftrightarrow> conf_ServerEnabled (cfg_conf c)) \<and>
    (\<forall>s. dm_server d = Some s \<longrightarrow>
       length (nm_listeners (srv_notifications s)) = length (filter Slack_IsEnabled (cfg_notificationConfigs c))) \<and>
    (dm_client d \<noteq> None \<longleftrightarrow> conf_ServerEnabled (cfg_conf c) \<or> conf_EndpointURI (cfg_conf c) \<noteq> []) \<and>
    (dm_client d \<noteq> None \<and> (conf_EndpointURI (cfg_conf c) = [] \<or> list_ex host_char (conf_EndpointURI (cfg_conf c))) \<longrightarrow>
       fullUriPattern (conf_EndpointURI cf))"
proof -
  obtain u where u: "cfg_conf c = AutoRepair (getDefaultHostName h) u" using newConfig_repaired [OF assms(2)] by blast
  have pattern: "fullUriPattern (conf_EndpointURI (cfg_conf c))" if "list_ex host_char (conf_EndpointURI (cfg_conf c))"
    using that AutoRepair_pattern [of "getDefaultHostName h" "cfg_conf c"] AutoRepair_stable [of "getDefaultHostName h" u]
    unfolding u by simp
  have start: "\<not> IsHelp vp c" "Conf_Validate (os_Stat h) (cfg_conf c) = None"
    using assms(1,2) by (auto simp: main_def EnableAutoUpdate_def Let_def split: option.splits if_splits)
  show ?thesis
  proof (cases "conf_ServerEnabled (cfg_conf c)")
    case True
    with assms(1,2) start obtain s where s: "Server_Start x e sf (cfg_conf c) = Some s"
      and d: "cfg_conf (dm_config d) = local_endpoint (cfg_conf c)"
        "dm_server d = Some (s\<lparr>srv_notifications := SetupNotifications (cfg_notificationConfigs c) (srv_notifications s)\<rparr>)"
        "dm_client d = start_client vp net js w (dm_config d)"
      by (auto simp: main_def EnableAutoUpdate_def Let_def split: option.splits)
    have "nm_listeners (srv_notifications s) = []"
      using s by (auto simp: Server_Start_def start_server_def newNotificationManager_def split: option.splits)
    moreover have "conf_EndpointURI (local_endpoint (cfg_conf c)) \<noteq> []" using True by (simp add: local_endpoint_def)
    moreover have "fullUriPattern (conf_EndpointURI (local_endpoint (cfg_conf c)))"
      if "conf_EndpointURI (cfg_conf c) = [] \<or> list_ex host_char (conf_EndpointURI (cfg_conf c))"
    proof (cases "conf_EndpointURI (cfg_conf c) = []")
      case False
      then have "local_endpoint (cfg_conf c) = cfg_conf c" by (simp add: local_endpoint_def)
      with False that pattern show ?thesis by simp
    qed (rule local_endpoint_pattern [OF True])
    ultimately show ?thesis
      using start d True unfolding cf_def
      by (auto simp: Conf_Validate_None SetupNotifications_count start_client_def isClientEnabled_def)
  next
    case False
    with assms(1,2) start have d: "cfg_conf (dm_config d) = cfg_conf c" "dm_server d = None"
        "dm_client d = start_client vp net js w (dm_config d)"
      by (auto simp: main_def EnableAutoUpdate_def Let_def split: option.splits)
    with False start pattern show ?thesis
      unfolding cf_def by (auto simp: Conf_Validate_None start_client_def isClientEnabled_def)
  qed
qed


section \<open>What is relied on of viper\<close>

text \<open>
  As documented: keys do not depend on case; what is stored with \<open>Set\<close> (\<open>override\<close> tells what that is) has precedence over everything
  and is left alone by reading the file again; \<open>Unmarshal\<close> gives the fields of the struct the values of the keys of their names.
\<close>

definition unmarshalled :: "(string \<Rightarrow> string) \<Rightarrow> (string \<Rightarrow> bool) \<Rightarrow> conf \<Rightarrow> bool" where
  "unmarshalled str bool c \<longleftrightarrow>
     conf_Token c = str ''token'' \<and> conf_Hostname c = str ''hostname'' \<and> conf_EndpointURI c = str ''endpointuri'' \<and>
     conf_SslCertFile c = str ''sslcertfile'' \<and> conf_SslPrivateKeyFile c = str ''sslprivatekeyfile'' \<and>
     conf_Home c = str ''home'' \<and> conf_LdapConfigFile c = str ''ldapconfigfile'' \<and>
     (conf_ServerEnabled c \<longleftrightarrow> bool ''serverenabled'') \<and> (conf_UseAutoTag c \<longleftrightarrow> bool ''useautotag'') \<and>
     (conf_AutoGenerateCert c \<longleftrightarrow> bool ''autogeneratecert'') \<and> (conf_Debug c \<longleftrightarrow> bool ''debug'') \<and>
     (conf_EnableLdap c \<longleftrightarrow> bool ''enableldap'')"

definition viper_contract :: "('v, 'p, 'd) viper \<Rightarrow> ('v \<Rightarrow> string \<Rightarrow> conf_value option) \<Rightarrow> bool" where
  "viper_contract vp override \<longleftrightarrow>
     (\<forall>v k k'. ToLower k = ToLower k' \<longrightarrow> vp_GetString vp v k = vp_GetString vp v k' \<and> vp_GetBool vp v k = vp_GetBool vp v k') \<and>
     (\<forall>v k x. override (vp_Set vp k x v) (ToLower k) = Some x) \<and>
     (\<forall>v k k' x. ToLower k \<noteq> ToLower k' \<longrightarrow>
        override (vp_Set vp k x v) (ToLower k') = override v (ToLower k') \<and>
        vp_GetString vp (vp_Set vp k x v) k' = vp_GetString vp v k' \<and> vp_GetBool vp (vp_Set vp k x v) k' = vp_GetBool vp v k') \<and>
     (\<forall>d v. override (vp_ReadInConfig vp d v) = override v) \<and>
     (\<forall>v k s. override v (ToLower k) = Some (String_value s) \<longrightarrow> vp_GetString vp v k = s) \<and>
     (\<forall>v k b. override v (ToLower k) = Some (Bool_value b) \<longrightarrow> vp_GetBool vp v k = b) \<and>
     (\<forall>v c. unmarshalled (vp_GetString vp v) (vp_GetBool vp v) (vp_Unmarshal vp v c))"

lemma keys_lower [simp]:
  "ToLower ''seed'' = ''seed''" "ToLower ''endpointuri'' = ''endpointuri''" "ToLower ''secure_token'' = ''secure_token''"
  "ToLower ''token'' = ''token''" "ToLower ''server_enabled'' = ''server_enabled''" "ToLower ''serverEnabled'' = ''serverenabled''"
  "ToLower ''serverenabled'' = ''serverenabled''"
  by code_simp+

declare ToLower.simps [simp del]

lemma contract_Set:
  assumes "viper_contract vp override" "ToLower k \<noteq> ToLower k'"
  shows "override (vp_Set vp k x v) (ToLower k') = override v (ToLower k')"
    "vp_GetString vp (vp_Set vp k x v) k' = vp_GetString vp v k'"
    "vp_GetBool vp (vp_Set vp k x v) k' = vp_GetBool vp v k'"
  using assms unfolding viper_contract_def by blast+

lemma contract_override:
  assumes "viper_contract vp override"
  shows "override (vp_Set vp k x v) (ToLower k) = Some x"
    "override v (ToLower k) = Some (String_value s) \<Longrightarrow> vp_GetString vp v k = s"
    "override v (ToLower k) = Some (Bool_value b) \<Longrightarrow> vp_GetBool vp v k = b"
  using assms unfolding viper_contract_def by blast+

lemma contract_read: "viper_contract vp override \<Longrightarrow> override (vp_ReadInConfig vp d v) = override v"
  unfolding viper_contract_def by blast

lemma contract_case:
  assumes "viper_contract vp override" "ToLower k = ToLower k'"
  shows "vp_GetString vp v k = vp_GetString vp v k'" "vp_GetBool vp v k = vp_GetBool vp v k'"
  using assms(1) [unfolded viper_contract_def, THEN conjunct1, rule_format, OF assms(2), of v] by simp_all

lemma contract_Unmarshal:
  assumes "viper_contract vp override"
  shows "conf_Token (vp_Unmarshal vp v c) = vp_GetString vp v ''token''"
    "conf_EndpointURI (vp_Unmarshal vp v c) = vp_GetString vp v ''endpointuri''"
    "conf_ServerEnabled (vp_Unmarshal vp v c) = vp_GetBool vp v ''serverenabled''"
  using assms unfolding viper_contract_def unmarshalled_def by blast+

section \<open>The old names of options\<close>

definition or_else :: "string \<Rightarrow> string \<Rightarrow> string" where
  "or_else new old = (if new = [] then old else new)"

lemma legacy_string:
  assumes "viper_contract vp override" "v' = set_option vp String_value (UpdateLegacyString (vp_GetString vp v) old new) v"
  shows "vp_GetString vp v' new = or_else (vp_GetString vp v new) (vp_GetString vp v old)"
    "ToLower k \<noteq> ToLower new \<Longrightarrow> override v' (ToLower k) = override v (ToLower k)"
    "ToLower k \<noteq> ToLower new \<Longrightarrow> vp_GetString vp v' k = vp_GetString vp v k"
    "ToLower k \<noteq> ToLower new \<Longrightarrow> vp_GetBool vp v' k = vp_GetBool vp v k"
    "vp_GetString vp v new = [] \<Longrightarrow> vp_GetString vp v old \<noteq> [] \<Longrightarrow>
       override v' (ToLower new) = Some (String_value (vp_GetString vp v old))"
    "vp_GetString vp v new \<noteq> [] \<Longrightarrow> v' = v"
  using assms contract_Set [OF assms(1), of new k] contract_override [OF assms(1)]
  by (auto simp: set_option_def UpdateLegacyString_def or_else_def split: if_splits)

lemma legacy_bool:
  assumes "viper_contract vp override" "v' = set_option vp Bool_value (UpdateLegacyBool (vp_GetBool vp v) old new False) v"
  shows "vp_GetBool vp v' new \<longleftrightarrow> vp_GetBool vp v new \<or> vp_GetBool vp v old"
    "ToLower k \<noteq> ToLower new \<Longrightarrow> override v' (ToLower k) = override v (ToLower k)"
    "ToLower k \<noteq> ToLower new \<Longrightarrow> vp_GetString vp v' k = vp_GetString vp v k"
  using assms contract_Set [OF assms(1), of new k] contract_override [OF assms(1)]
  by (auto simp: set_option_def UpdateLegacyBool_def split: if_splits)

lemma legacy_options_effect:
  assumes "viper_contract vp override"
  shows "vp_GetString vp (legacy_options vp v) ''endpointuri'' = or_else (vp_GetString vp v ''endpointuri'') (vp_GetString vp v ''seed'')"
      (is ?endpoint)
    "vp_GetString vp (legacy_options vp v) ''token'' = or_else (vp_GetString vp v ''token'') (vp_GetString vp v ''secure_token'')"
      (is ?token)
    "vp_GetBool vp (legacy_options vp v) ''serverenabled'' \<longleftrightarrow>
       vp_GetBool vp v ''serverenabled'' \<or> vp_GetBool vp v ''server_enabled''" (is ?server)
    "vp_GetString vp v ''endpointuri'' = [] \<Longrightarrow> vp_GetString vp v ''seed'' = a \<Longrightarrow> a \<noteq> [] \<Longrightarrow>
       override (legacy_options vp v) ''endpointuri'' = Some (String_value a)" (is "_ \<Longrightarrow> _ \<Longrightarrow> _ \<Longrightarrow> ?stored")
    "override v ''endpointuri'' = Some (String_value a) \<Longrightarrow> a \<noteq> [] \<Longrightarrow>
       override (legacy_options vp v) ''endpointuri'' = Some (String_value a)" (is "_ \<Longrightarrow> _ \<Longrightarrow> ?kept")
proof -
  define v1 where "v1 = set_option vp String_value (UpdateLegacyString (vp_GetString vp v) ''seed'' ''endpointuri'') v"
  define v2 where "v2 = set_option vp String_value (UpdateLegacyString (vp_GetString vp v1) ''secure_token'' ''token'') v1"
  define v3 where "v3 = set_option vp Bool_value (UpdateLegacyBool (vp_GetBool vp v2) ''server_enabled'' ''serverEnabled'' False) v2"
  have v3: "legacy_options vp v = v3" by (simp add: legacy_options_def Let_def v1_def v2_def v3_def)
  note one = legacy_string [OF assms v1_def] and two = legacy_string [OF assms v2_def] and three = legacy_bool [OF assms v3_def]
  have lower: "vp_GetBool vp u ''serverEnabled'' = vp_GetBool vp u ''serverenabled''" for u
    by (rule contract_case(2) [OF assms]) simp
  show ?endpoint using three(3) [of "''endpointuri''"] two(3) [of "''endpointuri''"] one(1) by (simp add: v3)
  show ?token using three(3) [of "''token''"] two(1) one(3) [of "''token''"] one(3) [of "''secure_token''"] by (simp add: v3)
  show ?server
    using three(1) two(4) [of "''serverEnabled''"] one(4) [of "''serverEnabled''"] two(4) [of "''server_enabled''"]
      one(4) [of "''server_enabled''"] by (simp add: v3 lower)
  show ?stored if "vp_GetString vp v ''endpointuri'' = []" "vp_GetString vp v ''seed'' = a" "a \<noteq> []"
    using three(2) [of "''endpointuri''"] two(2) [of "''endpointuri''"] one(5) that by (simp add: v3)
  show ?kept if o: "override v ''endpointuri'' = Some (String_value a)" "a \<noteq> []"
  proof -
    have "vp_GetString vp v ''endpointuri'' = a"
      using contract_override(2) [OF assms, of v "''endpointuri''" a] o by simp
    with o show ?thesis
      using three(2) [of "''endpointuri''"] two(2) [of "''endpointuri''"] one(6) by (simp add: v3)
  qed
qed

lemma Conf_Update_fields:
  "cfg_viper (Conf_Update vp h c) = legacy_options vp (cfg_viper c)"
  "cfg_onConfigChange (Conf_Update vp h c) = cfg_onConfigChange c"
  "cfg_conf (Conf_Update vp h c) =
     AutoRepair (getDefaultHostName h) (vp_Unmarshal vp (legacy_options vp (cfg_viper c)) (cfg_conf c))"
  by (simp_all add: Conf_Update_def Let_def)

lemma AutoRepair_simps [simp]:
  "conf_Token (AutoRepair d c) = conf_Token c" "conf_ServerEnabled (AutoRepair d c) = conf_ServerEnabled c"
  by (simp_all add: AutoRepair_def Let_def split: option.split)

lemma AutoRepair_full: "fullUriPattern (conf_EndpointURI c) \<Longrightarrow> AutoRepair d c = c"
  by (simp add: AutoRepair_def)

text \<open>An address that was stored from the old name: no change of the file replaces it.\<close>

definition pinned :: "('v \<Rightarrow> string \<Rightarrow> conf_value option) \<Rightarrow> string \<Rightarrow> 'v config \<Rightarrow> bool" where
  "pinned override a c \<longleftrightarrow> cfg_onConfigChange c = Update_conf \<and>
     override (cfg_viper c) ''endpointuri'' = Some (String_value a) \<and> conf_EndpointURI (cfg_conf c) = a"

lemma pinned_change:
  assumes contract: "viper_contract vp override" and "pinned override a c" and a: "fullUriPattern a"
  shows "pinned override a (config_changed vp h c)"
proof -
  let ?c = "c\<lparr>cfg_viper := vp_ReadInConfig vp (os_disk h) (cfg_viper c)\<rparr>"
  have "a \<noteq> []" using a by auto
  have read: "override (cfg_viper ?c) ''endpointuri'' = Some (String_value a)"
    using assms(2) contract_read [OF contract] by (simp add: pinned_def)
  have stored: "override (legacy_options vp (cfg_viper ?c)) ''endpointuri'' = Some (String_value a)"
    using legacy_options_effect(5) [of vp override "cfg_viper ?c" a] contract read \<open>a \<noteq> []\<close> by argo
  then have "vp_GetString vp (legacy_options vp (cfg_viper ?c)) ''endpointuri'' = a"
    by (rule contract_override(2) [OF contract, of _ "''endpointuri''", unfolded keys_lower])
  then have "conf_EndpointURI (cfg_conf (Conf_Update vp h ?c)) = a"
    using a by (simp add: Conf_Update_fields contract_Unmarshal [OF contract] AutoRepair_full)
  with stored assms(2) show ?thesis by (simp add: pinned_def config_changed_def Let_def Conf_Update_fields)
qed

lemma pinned_changes:
  assumes "viper_contract vp override" "fullUriPattern a" "pinned override a c"
  shows "pinned override a (foldl (\<lambda>c h. config_changed vp h c) c hs)"
  using assms(3) by (induction hs arbitrary: c) (simp_all add: pinned_change [OF assms(1) _ assms(2)])

text \<open>
  A configuration with old names of options is read as one with the new names: an old name counts where the new one has no value. But an address
  that is given as \<open>seed\<close> stays for good: whatever the file says after a change, under either name, the process goes on with the
  address of the start.
\<close>

theorem legacy_options_apply:
  fixes vp :: "('v, 'p, 'd) viper" and c :: "'v config" and h :: "'d os"
  assumes "viper_contract vp override"
  defines "old \<equiv> vp_GetString vp (cfg_viper c)" and "on \<equiv> vp_GetBool vp (cfg_viper c)" and "c' \<equiv> Conf_Update vp h c"
  shows "conf_Token (cfg_conf c') = or_else (old ''token'') (old ''secure_token'') \<and>
    (conf_ServerEnabled (cfg_conf c') \<longleftrightarrow> on ''serverenabled'' \<or> on ''server_enabled'') \<and>
    (\<exists>u. conf_EndpointURI u = or_else (old ''endpointuri'') (old ''seed'') \<and>
       cfg_conf c' = AutoRepair (getDefaultHostName h) u) \<and>
    (old ''endpointuri'' = [] \<and> fullUriPattern (old ''seed'') \<longrightarrow>
       (\<forall>hs. conf_EndpointURI (cfg_conf (foldl (\<lambda>c h. config_changed vp h c) (EnableAutoUpdate c') hs)) = old ''seed''))"
proof (intro conjI impI allI)
  note effect = legacy_options_effect [OF assms(1)] and unmarshal = contract_Unmarshal [OF assms(1)]
  show "conf_Token (cfg_conf c') = or_else (old ''token'') (old ''secure_token'')"
    "conf_ServerEnabled (cfg_conf c') \<longleftrightarrow> on ''serverenabled'' \<or> on ''server_enabled''"
    "\<exists>u. conf_EndpointURI u = or_else (old ''endpointuri'') (old ''seed'') \<and> cfg_conf c' = AutoRepair (getDefaultHostName h) u"
    unfolding c'_def old_def on_def Conf_Update_fields
    by (auto simp: unmarshal effect intro!: exI [of _ "vp_Unmarshal vp (legacy_options vp (cfg_viper c)) (cfg_conf c)"])
  fix hs assume a: "old ''endpointuri'' = [] \<and> fullUriPattern (old ''seed'')"
  then have "old ''seed'' \<noteq> []" by auto
  with a have "pinned override (old ''seed'') (EnableAutoUpdate c')"
    unfolding c'_def old_def
    by (auto simp: pinned_def EnableAutoUpdate_def Conf_Update_fields unmarshal effect or_else_def AutoRepair_full)
  then show "conf_EndpointURI (cfg_conf (foldl (\<lambda>c h. config_changed vp h c) (EnableAutoUpdate c') hs)) = old ''seed''"
    using pinned_changes [OF assms(1)] a by (simp add: pinned_def)
qed


section \<open>The address of a server's own client\<close>

lemma main_local:
  assumes "main vp h v x e sf net js w = Started d" "newConfig vp h v = Some c"
    "conf_ServerEnabled (cfg_conf c)" "conf_EndpointURI (cfg_conf c) = []"
  shows "cfg_conf (dm_config d) = local_endpoint (cfg_conf c)" "cfg_onConfigChange (dm_config d) = Update_conf"
    "dm_client d = start_client vp net js w (dm_config d)" "cfg_viper (dm_config d) = cfg_viper c"
  using assms by (auto simp: main_def EnableAutoUpdate_def Let_def split: option.splits if_splits)

text \<open>
  A server without an address starts a client on the address of the loopback device. The first change of the configuration file that
  gives no address takes it away: from then on the addresses of the client's requests have no scheme and no host.
\<close>

theorem local_address_lost:
  fixes d :: "('v, 'w) daemon" and h' :: "'d os"
  assumes "viper_contract vp override"
    "main vp h v x e sf net js w = Started d" "newConfig vp h v = Some c"
    "conf_ServerEnabled (cfg_conf c)" "conf_EndpointURI (cfg_conf c) = []"
    "vp_GetString vp (vp_ReadInConfig vp (os_disk h') (cfg_viper c)) ''endpointuri'' = []"
    "vp_GetString vp (vp_ReadInConfig vp (os_disk h') (cfg_viper c)) ''seed'' = []"
  defines "cf \<equiv> cfg_conf (config_changed vp h' (dm_config d))"
  shows "conf_EndpointURI (cfg_conf (dm_config d)) = ''https://127.0.0.1:'' @ itoa (conf_ServerPort (cfg_conf c)) @ ''/'' \<and>
    dm_client d \<noteq> None \<and> conf_EndpointURI cf = [] \<and>
    or_Url (signed_request_of cf verb uri data) = CHR ''/'' # TrimLeft (CHR ''/'') uri"
proof -
  note local = main_local [OF assms(2-5)]
  have "conf_EndpointURI cf = []"
    using local(2) assms(6,7) legacy_options_effect(1) [OF assms(1)]
    by (simp add: cf_def config_changed_def Let_def Conf_Update_fields AutoRepair_empty contract_Unmarshal(2) [OF assms(1)]
        or_else_def local(4))
  then show ?thesis
    using local(1,3) assms(4,5)
    by (simp add: local_endpoint_def start_client_def isClientEnabled_def signed_request_of_def ServerRequest_def TrimRight_def)
qed

section \<open>A concrete viper\<close>

text \<open>Values that are stored by keys in lower case, in four layers; the files hold values by key. The flags are left alone.\<close>

type_synonym layer = "(string \<times> conf_value) list"

record settings =
  st_override :: layer
  st_file :: layer
  st_default :: layer

definition settings_get :: "settings \<Rightarrow> string \<Rightarrow> conf_value option" where
  "settings_get v k = map_of (st_override v @ st_file v @ st_default v) (ToLower k)"

definition settings_string :: "settings \<Rightarrow> string \<Rightarrow> string" where
  "settings_string v k = (case settings_get v k of Some (String_value s) \<Rightarrow> s | _ \<Rightarrow> [])"

definition settings_bool :: "settings \<Rightarrow> string \<Rightarrow> bool" where
  "settings_bool v k = (case settings_get v k of Some (Bool_value b) \<Rightarrow> b | _ \<Rightarrow> False)"

definition settings_int :: "settings \<Rightarrow> string \<Rightarrow> int" where
  "settings_int v k = (case settings_get v k of Some (Int_value n) \<Rightarrow> n | _ \<Rightarrow> 0)"

definition sample_viper :: "(settings, layer, layer) viper" where
  "sample_viper =
     \<lparr>vp_New = \<lparr>st_override = [], st_file = [], st_default = []\<rparr>,
      vp_SetConfigName = (\<lambda>n v. v), vp_SetEnvPrefix = (\<lambda>n v. v),
      vp_SetDefault = (\<lambda>k x v. v\<lparr>st_default := (ToLower k, x) # st_default v\<rparr>),
      vp_SetConfigFile = (\<lambda>n v. v), vp_SetConfigType = (\<lambda>n v. v), vp_AddConfigPath = (\<lambda>n v. v),
      vp_BindPFlags = (\<lambda>fs p v. v\<lparr>st_override := p @ st_override v\<rparr>), vp_AutomaticEnv = (\<lambda>env v. v),
      vp_ReadInConfig = (\<lambda>d v. v\<lparr>st_file := d\<rparr>),
      vp_Set = (\<lambda>k x v. v\<lparr>st_override := (ToLower k, x) # st_override v\<rparr>),
      vp_GetString = settings_string, vp_GetBool = settings_bool,
      vp_Unmarshal = (\<lambda>v c. c\<lparr>conf_Token := settings_string v ''token'', conf_Hostname := settings_string v ''hostname'',
        conf_UseAutoTag := settings_bool v ''useautotag'', conf_ServerEnabled := settings_bool v ''serverenabled'',
        conf_EndpointURI := settings_string v ''endpointuri'', conf_ServerPort := settings_int v ''serverport'',
        conf_SslCertFile := settings_string v ''sslcertfile'', conf_SslPrivateKeyFile := settings_string v ''sslprivatekeyfile'',
        conf_AutoGenerateCert := settings_bool v ''autogeneratecert'', conf_ClientPort := settings_int v ''clientport'',
        conf_Debug := settings_bool v ''debug'', conf_Home := settings_string v ''home'',
        conf_LdapConfigFile := settings_string v ''ldapconfigfile'', conf_EnableLdap := settings_bool v ''enableldap''\<rparr>),
      vp_Unmarshal_ldap = (\<lambda>v c. c),
      vp_Unmarshal_slack = (\<lambda>v c. c),
      pf_Parse = (\<lambda>fs args. if args = [] then Some [] else None), pf_String = (\<lambda>p n. [])\<rparr>"

lemma sample_viper_contract: "viper_contract sample_viper (map_of \<circ> st_override)"
proof -
  have u: "unmarshalled (settings_string v) (settings_bool v) (vp_Unmarshal sample_viper v c)" for v c
    by (simp add: unmarshalled_def sample_viper_def)
  have "viper_contract sample_viper (map_of \<circ> st_override) \<longleftrightarrow>
      (\<forall>v c. unmarshalled (settings_string v) (settings_bool v) (vp_Unmarshal sample_viper v c))"
    unfolding viper_contract_def
    by (auto simp: sample_viper_def settings_string_def settings_bool_def settings_get_def map_add_Some_iff
        split: option.split conf_value.split)
  with u show ?thesis by blast
qed

definition sample_os :: "layer \<Rightarrow> layer os" where
  "sample_os file = \<lparr>os_Args = [''indispenso''], os_Hostname = Some ''host'', os_Stat = (\<lambda>p. p = ''/etc/indispenso''),
     os_Environ = (\<lambda>n. None), os_disk = file\<rparr>"


definition sample_file :: layer where
  "sample_file = [(''serverenabled'', Bool_value True), (''token'', String_value (replicate 32 (CHR ''t'')))]"

definition sample_settings :: settings where
  "sample_settings = \<lparr>st_override = [], st_file = sample_file,
     st_default = map (\<lambda>(k, x). (ToLower k, x)) (rev (config_defaults (sample_os sample_file)))\<rparr>"

lemma legacy_options_none:
  "vp_GetString vp v ''seed'' = [] \<Longrightarrow> vp_GetString vp v ''secure_token'' = [] \<Longrightarrow> \<not> vp_GetBool vp v ''server_enabled'' \<Longrightarrow>
     legacy_options vp v = v"
  by (simp add: legacy_options_def set_option_def UpdateLegacyString_def UpdateLegacyBool_def)

lemma sample_defaults:
  "foldl (\<lambda>v (k, d). vp_SetDefault sample_viper k d v) v ds =
     v\<lparr>st_default := map (\<lambda>(k, x). (ToLower k, x)) (rev ds) @ st_default v\<rparr>"
  by (induction ds arbitrary: v) (auto simp: sample_viper_def)

lemma default_keys:
  "map (ToLower \<circ> fst) (config_defaults h) =
     [''token'', ''hostname'', ''useautotag'', ''serverenabled'', ''home'', ''debug'', ''serverport'', ''endpointuri'', ''sslcertfile'',
      ''sslprivatekeyfile'', ''autogeneratecert'', ''clientport'', ''enableldap'', ''ldapconfigfile'']"
  by (simp add: config_defaults_def) code_simp

lemma default_settings:
  "map (\<lambda>(k, x). (ToLower k, x)) (config_defaults h) = zip (map (ToLower \<circ> fst) (config_defaults h)) (map snd (config_defaults h))"
  by (simp add: zip_map_fst_snd comp_def split_beta zip_map_map) (simp add: zip_map1 zip_map2 split_beta zip_same_conv_map)

lemma more_keys_lower [simp]:
  "ToLower ''help'' = ''help''" "ToLower ''home'' = ''home''" "ToLower ''serverport'' = ''serverport''"
  by code_simp+

lemma sample_settings_get:
  "settings_string sample_settings ''seed'' = []" "settings_string sample_settings ''secure_token'' = []"
  "settings_string sample_settings ''endpointuri'' = []" "settings_bool sample_settings ''server_enabled'' = False"
  "settings_bool sample_settings ''serverenabled'' = True" "settings_bool sample_settings ''help'' = False"
  "settings_string sample_settings ''token'' = replicate 32 (CHR ''t'')"
  "settings_string sample_settings ''home'' = ''/etc/indispenso/''" "settings_int sample_settings ''serverport'' = 897"
  unfolding settings_string_def settings_bool_def settings_int_def settings_get_def sample_settings_def
    rev_map [symmetric] default_settings default_keys
  by (simp_all add: sample_file_def config_defaults_def defaultHomePath_def)

lemma sample_legacy: "legacy_options sample_viper sample_settings = sample_settings"
  by (rule legacy_options_none) (simp_all add: sample_viper_def sample_settings_get)

definition sample_config :: "settings config" where
  "sample_config = the (newConfig sample_viper (sample_os sample_file) (vp_New sample_viper))"

lemma sample_config_loaded:
  "newConfig sample_viper (sample_os sample_file) (vp_New sample_viper) = Some sample_config"
  "cfg_viper sample_config = sample_settings"
  "cfg_conf sample_config = AutoRepair ''host'' (vp_Unmarshal sample_viper sample_settings zero_conf)"
proof -
  let ?v = "vp_SetEnvPrefix sample_viper ''ind'' (vp_SetConfigName sample_viper ''indispenso'' (vp_New sample_viper))"
  have v: "vp_ReadInConfig sample_viper sample_file (vp_AutomaticEnv sample_viper env (vp_BindPFlags sample_viper fs []
      (foldl (\<lambda>v (k, d). vp_SetDefault sample_viper k d v) ?v (config_defaults (sample_os sample_file))))) = sample_settings" for env fs
    unfolding sample_defaults by (simp add: sample_viper_def sample_settings_def)
  have home: "setupHome sample_viper p v = v" for p v by (simp add: setupHome_def sample_viper_def)
  have os: "os_disk (sample_os sample_file) = sample_file" "getDefaultHostName (sample_os sample_file) = ''host''"
    "drop (Suc 0) (os_Args (sample_os sample_file)) = []" "\<not> os_Stat (sample_os sample_file) ''/etc/indispenso/indispenso.conf''"
    by (simp_all add: sample_os_def getDefaultHostName_def)
  have flags: "pf_Parse sample_viper fs [] = Some []" "pf_String sample_viper p n = []" for fs p n
    by (simp_all add: sample_viper_def)
  have slack: "cfg_viper (SetupNotificationConfig sample_viper h n s c) = cfg_viper c"
    "cfg_conf (SetupNotificationConfig sample_viper h n s c) = cfg_conf c" for h :: "layer os" and n s c
    by (simp_all add: SetupNotificationConfig_def Let_def)
  have "\<exists>c. newConfig sample_viper (sample_os sample_file) (vp_New sample_viper) = Some (Conf_Update sample_viper (sample_os sample_file) c) \<and>
      cfg_viper c = sample_settings \<and> cfg_conf c = zero_conf"
    by (simp add: newConfig_def Let_def os flags home v) (intro exI conjI, rule refl, simp_all add: slack)
  then obtain c where c: "newConfig sample_viper (sample_os sample_file) (vp_New sample_viper) = Some (Conf_Update sample_viper (sample_os sample_file) c)"
      "cfg_viper c = sample_settings" "cfg_conf c = zero_conf" by blast
  then show "newConfig sample_viper (sample_os sample_file) (vp_New sample_viper) = Some sample_config"
    "cfg_viper sample_config = sample_settings"
    "cfg_conf sample_config = AutoRepair ''host'' (vp_Unmarshal sample_viper sample_settings zero_conf)"
    by (simp_all add: sample_config_def Conf_Update_fields sample_legacy os)
qed

lemma sample_config_fields:
  "conf_EndpointURI (cfg_conf sample_config) = []" "conf_ServerEnabled (cfg_conf sample_config)"
  "conf_ServerPort (cfg_conf sample_config) = 897" "\<not> IsHelp sample_viper sample_config"
  "Conf_Validate (os_Stat (sample_os sample_file)) (cfg_conf sample_config) = None"
proof -
  have cf: "cfg_conf sample_config = vp_Unmarshal sample_viper sample_settings zero_conf"
    unfolding sample_config_loaded by (simp add: AutoRepair_def hostWithPort_def sample_viper_def sample_settings_get)
  show "conf_EndpointURI (cfg_conf sample_config) = []" "conf_ServerEnabled (cfg_conf sample_config)"
    "conf_ServerPort (cfg_conf sample_config) = 897" "\<not> IsHelp sample_viper sample_config"
    unfolding cf by (simp_all add: sample_viper_def sample_settings_get IsHelp_def sample_config_loaded)
  have "TrimSpace (replicate 32 (CHR ''t'')) = replicate 32 (CHR ''t'')" by code_simp
  moreover have "GetHome (cfg_conf sample_config) = ''/etc/indispenso''"
    unfolding cf by (simp add: GetHome_def sample_viper_def sample_settings_get TrimRight_def)
  moreover have "conf_Token (cfg_conf sample_config) = replicate 32 (CHR ''t'')"
    unfolding cf by (simp add: sample_viper_def sample_settings_get)
  ultimately show "Conf_Validate (os_Stat (sample_os sample_file)) (cfg_conf sample_config) = None"
    unfolding Conf_Validate_None by (simp add: sample_os_def)
qed

definition sample_files :: store_files where
  "sample_files = \<lparr>sf_users = (\<lambda>p. NoFile), sf_templates = (\<lambda>p. NoFile), sf_consensus = (\<lambda>p. NoFile), sf_checks = (\<lambda>p. NoFile)\<rparr>"

lemma sample_main:
  "\<exists>d. main sample_viper (sample_os sample_file) (vp_New sample_viper) sample_ext sample_env sample_files net js w = Started d"
proof -
  obtain us where "newUserStore sample_ext sample_env NoFile = Some us" using sample_user_store by blast
  then have "Server_Start sample_ext sample_env sample_files cf \<noteq> None" for cf
    by (simp add: Server_Start_def start_server_def sample_files_def)
  then show ?thesis
    using sample_config_fields by (auto simp: main_def EnableAutoUpdate_def Let_def sample_config_loaded(1) split: option.split)
qed

definition offline :: "unit net" where
  "offline = \<lparr>net_rand = (\<lambda>w. (None, w)), net_send = (\<lambda>q w. (None, w)), net_run = (\<lambda>t n w. (NotStarted, w))\<rparr>"

definition no_json :: json where
  "no_json = \<lparr>js_object = (\<lambda>b. False), js_string = (\<lambda>b k. None), js_cmds = (\<lambda>b. [])\<rparr>"

theorem process_start_witness:
  "\<exists>d. main sample_viper (sample_os sample_file) (vp_New sample_viper) sample_ext sample_env sample_files
      offline no_json () = Started d \<and>
    dm_server d \<noteq> None \<and> dm_client d \<noteq> None \<and> fullUriPattern (conf_EndpointURI (cfg_conf (dm_config d)))"
proof -
  obtain d where d: "main sample_viper (sample_os sample_file) (vp_New sample_viper) sample_ext sample_env sample_files offline no_json () = Started d"
    using sample_main [of offline no_json "()"] by blast
  with process_start [OF d sample_config_loaded(1)] sample_config_fields show ?thesis by (intro exI [of _ d]) simp
qed

theorem local_address_lost_witness:
  "\<exists>d. main sample_viper (sample_os sample_file) (vp_New sample_viper) sample_ext sample_env sample_files
      offline no_json () = Started d \<and>
    conf_EndpointURI (cfg_conf (dm_config d)) = ''https://127.0.0.1:'' @ itoa 897 @ ''/'' \<and>
    or_Url (signed_request_of (cfg_conf (config_changed sample_viper (sample_os sample_file) (dm_config d))) ''GET'' ''/ping'' None) = ''/ping''"
proof -
  obtain d where d: "main sample_viper (sample_os sample_file) (vp_New sample_viper) sample_ext sample_env sample_files offline no_json () = Started d"
    using sample_main [of offline no_json "()"] by blast
  have read: "vp_ReadInConfig sample_viper (os_disk (sample_os sample_file)) (cfg_viper sample_config) = sample_settings"
    by (simp add: sample_config_loaded(2) sample_viper_def sample_os_def) (simp add: sample_settings_def)
  have "vp_GetString sample_viper sample_settings ''endpointuri'' = []" "vp_GetString sample_viper sample_settings ''seed'' = []"
    by (simp_all add: sample_viper_def sample_settings_get)
  with local_address_lost [OF sample_viper_contract d sample_config_loaded(1) sample_config_fields(2,1),
      of "sample_os sample_file" "''GET''" "''/ping''" None, unfolded read] d sample_config_fields(3)
  show ?thesis by (intro exI [of _ d]) (simp add: TrimLeft_def)
qed


theorem legacy_options_apply_witness:
  "\<exists>c. conf_EndpointURI (cfg_conf (foldl (\<lambda>c h. config_changed sample_viper h c)
      (EnableAutoUpdate (Conf_Update sample_viper (sample_os []) c))
      [sample_os [(''seed'', String_value ''https://new/'')], sample_os [(''endpointuri'', String_value ''https://new/'')]])) = ''https://old/''"
proof -
  define c where "c = sample_config\<lparr>cfg_viper := \<lparr>st_override = [], st_file = [(''seed'', String_value ''https://old/'')], st_default = []\<rparr>\<rparr>"
  have "vp_GetString sample_viper (cfg_viper c) ''seed'' = ''https://old/''"
    "vp_GetString sample_viper (cfg_viper c) ''endpointuri'' = []"
    by (simp_all add: c_def sample_viper_def settings_string_def settings_get_def)
  moreover have "fullUriPattern ''https://old/''" by code_simp
  ultimately have "\<forall>hs. conf_EndpointURI (cfg_conf (foldl (\<lambda>c h. config_changed sample_viper h c)
      (EnableAutoUpdate (Conf_Update sample_viper (sample_os []) c)) hs)) = ''https://old/''"
    using legacy_options_apply [OF sample_viper_contract, of "sample_os []" c] by (simp del: fullUriPattern.simps)
  then show ?thesis by blast
qed

end
