(* ===== verification/Server_Setup.thy ===== *)
theory Server_Setup
  imports Http_Handlers Samples
begin

text \<open>
  What surrounds the running server: the TLS keys that Start prepares, the backup of handler_backup_configs.go, the audit line of
  audit.go and the redirect of the home page. The files of the host and the cryptographic packages are parameters.
\<close>

section \<open>Files\<close>

text \<open>
  The files of the host by path: what is in them, or \<open>None\<close> for a file that cannot be read.
\<close>

type_synonym files = "(string, string option) gomap"

section \<open>Keys of the server\<close>

text \<open>
  Certificates as package x509 describes them, with their uses by name. Packages rsa, rand, x509 and pem are parameters: the key
  that is generated, keys written as a file of PEM and read back, a random number below a bound if there is one, the signed
  certificate of a description and a key (already written as PEM), and the paths that cannot be opened for writing.
\<close>

record pkix_name =
  pn_Organization :: "string list"
  pn_Country :: "string list"
  pn_CommonName :: string
  pn_OrganizationalUnit :: "string list"
  pn_Province :: "string list"
  pn_Locality :: "string list"

record certificate =
  ce_SerialNumber :: "nat option"
  ce_Subject :: pkix_name
  ce_NotBefore :: time
  ce_NotAfter :: time
  ce_KeyUsage :: "string list"
  ce_ExtKeyUsage :: "string list"
  ce_IsCA :: bool
  ce_BasicConstraintsValid :: bool
  ce_IPAddresses :: "nat list list"

record tls =
  tls_GenerateKey :: string
  tls_EncodeKey :: "string \<Rightarrow> string"
  tls_Decode :: "string \<Rightarrow> string option"
  tls_ParseKey :: "string \<Rightarrow> string + string"
  tls_Int :: "nat \<Rightarrow> nat option"
  tls_CreateCertificate :: "certificate \<Rightarrow> string \<Rightarrow> string + string"
  tls_Unwritable :: "string \<Rightarrow> bool"

text \<open>The key, or an error text; a key file that is not PEM leaves a nil block, whose bytes the code asks for.\<close>

definition readOrGeneratePrivateKey :: "tls \<Rightarrow> string \<Rightarrow> files \<Rightarrow> (panic + (string + string)) \<times> files" where
  "readOrGeneratePrivateKey t fileName fs =
     (case gm_get fs fileName of
        None \<Rightarrow>
          if tls_Unwritable t fileName then (Inr (Inl ''failed to open for writing''), fs)
          else (Inr (Inr (tls_GenerateKey t)), gm_set fileName (Some (tls_EncodeKey t (tls_GenerateKey t))) fs)
      | Some None \<Rightarrow> (Inr (Inl ''failed to read''), fs)
      | Some (Some certArray) \<Rightarrow>
          (case tls_Decode t certArray of
             None \<Rightarrow> (Inl NilDeref, fs)
           | Some block \<Rightarrow> (Inr (tls_ParseKey t block), fs)))"

text \<open>An error of the random source is only logged: the serial number is then missing, and signing fails.\<close>

definition getCertSerialNumber :: "tls \<Rightarrow> nat option" where
  "getCertSerialNumber t = tls_Int t (push_bit 128 1)"

definition generateCertificateTmpl :: "tls \<Rightarrow> time \<Rightarrow> pkix_name \<Rightarrow> int \<Rightarrow> certificate" where
  "generateCertificateTmpl t currentTime subject validPeriod =
     \<lparr>ce_SerialNumber = getCertSerialNumber t, ce_Subject = subject,
      ce_NotBefore = currentTime, ce_NotAfter = currentTime + validPeriod,
      ce_KeyUsage = [''KeyEncipherment'', ''DigitalSignature'', ''CertSign''], ce_ExtKeyUsage = [''ServerAuth''],
      ce_IsCA = False, ce_BasicConstraintsValid = True, ce_IPAddresses = [[127, 0, 0, 1]]\<rparr>"

definition generateCertificate :: "tls \<Rightarrow> time \<Rightarrow> string \<Rightarrow> string \<Rightarrow> int \<Rightarrow> files \<Rightarrow> string option \<times> files" where
  "generateCertificate t now fileName privateKey validPeriod fs =
     (let subject = \<lparr>pn_Organization = [''Indispenso''], pn_Country = [''NL''], pn_CommonName = ''ssl.indispenso.org'',
            pn_OrganizationalUnit = [''IT''], pn_Province = [''Indispenso''], pn_Locality = [''Indispenso'']\<rparr>;
          tmpl = generateCertificateTmpl t now subject validPeriod
      in case tls_CreateCertificate t tmpl privateKey of
           Inl err \<Rightarrow> (Some err, fs)
         | Inr certBytes \<Rightarrow>
             if tls_Unwritable t fileName then (Some ''Cannot create cert file'', fs)
             else (None, gm_set fileName (Some certBytes) fs))"

definition prepareTlsKeys :: "tls \<Rightarrow> time \<Rightarrow> conf \<Rightarrow> files \<Rightarrow> (panic + string option) \<times> files" where
  "prepareTlsKeys t now c fs =
     (if gm_get fs (GetSslCertFile c) = None then
        if \<not> conf_AutoGenerateCert c then (Inr (Some ''no such file''), fs)
        else
          (case readOrGeneratePrivateKey t (GetSslPrivateKeyFile c) fs of
             (Inl p, fs) \<Rightarrow> (Inl p, fs)
           | (Inr (Inl err), fs) \<Rightarrow> (Inr (Some err), fs)
           | (Inr (Inr privateKey), fs) \<Rightarrow>
               (case generateCertificate t now (GetSslCertFile c) privateKey (365 * 24 * 3600 * nanosecond_per_second) fs of
                  (err, fs) \<Rightarrow> (Inr err, fs)))
      else (Inr None, fs))"

text \<open>
  Preparing the keys never touches a file that is there; if it succeeds there is a certificate, and doing it again changes nothing. Without
  leave to generate one, a missing certificate is an error.
\<close>

theorem prepareTlsKeys_careful:
  "(\<forall>f content. gm_get fs f = Some content \<longrightarrow> gm_get (snd (prepareTlsKeys t now c fs)) f = Some content) \<and>
   (fst (prepareTlsKeys t now c fs) = Inr None \<longrightarrow>
      gm_get (snd (prepareTlsKeys t now c fs)) (GetSslCertFile c) \<noteq> None \<and>
      prepareTlsKeys t now c (snd (prepareTlsKeys t now c fs)) = (Inr None, snd (prepareTlsKeys t now c fs))) \<and>
   (\<not> conf_AutoGenerateCert c \<longrightarrow> snd (prepareTlsKeys t now c fs) = fs \<and>
      (fst (prepareTlsKeys t now c fs) = Inr None \<longleftrightarrow> gm_get fs (GetSslCertFile c) \<noteq> None))"
proof -
  have key: "gm_get (snd (readOrGeneratePrivateKey t p fs)) f = Some content" if "gm_get fs f = Some content" for f content p
    using that by (auto simp: readOrGeneratePrivateKey_def split: option.split)
  have cert: "gm_get (snd (generateCertificate t now p k v gs)) f = Some content"
    if "gm_get gs f = Some content" "f \<noteq> p" for f content p k v gs
    using that by (auto simp: generateCertificate_def Let_def split: sum.split)
  have made: "gm_get (snd (generateCertificate t now p k v gs)) p \<noteq> None" if "fst (generateCertificate t now p k v gs) = None" for p k v gs
    using that by (auto simp: generateCertificate_def Let_def split: sum.splits if_splits)
  have keeps: "gm_get (snd (prepareTlsKeys t now c fs)) f = Some content" if "gm_get fs f = Some content" for f content
    using key [OF that, of "GetSslPrivateKeyFile c"] cert [of _ f content "GetSslCertFile c"] that
    by (auto simp: prepareTlsKeys_def split: prod.split sum.split) (metis option.distinct(1) snd_conv)+
  have there: "gm_get (snd (prepareTlsKeys t now c fs)) (GetSslCertFile c) \<noteq> None" if "fst (prepareTlsKeys t now c fs) = Inr None"
    using that made [of "GetSslCertFile c"]
    by (auto simp: prepareTlsKeys_def split: prod.splits sum.splits if_splits) (metis fst_conv snd_conv option.distinct(1))+
  have again: "prepareTlsKeys t now c (snd (prepareTlsKeys t now c fs)) = (Inr None, snd (prepareTlsKeys t now c fs))"
    if ok: "fst (prepareTlsKeys t now c fs) = Inr None"
  proof -
    obtain y where "gm_get (snd (prepareTlsKeys t now c fs)) (GetSslCertFile c) = Some y" using there [OF ok] by blast
    then show ?thesis unfolding prepareTlsKeys_def [of t now c "snd (prepareTlsKeys t now c fs)"] by simp
  qed
  have strict: "snd (prepareTlsKeys t now c fs) = fs \<and> (fst (prepareTlsKeys t now c fs) = Inr None \<longleftrightarrow> gm_get fs (GetSslCertFile c) \<noteq> None)"
    if "\<not> conf_AutoGenerateCert c" using that by (simp add: prepareTlsKeys_def)
  show ?thesis using keeps there again strict by blast
qed

definition sample_tls :: tls where
  "sample_tls = \<lparr>tls_GenerateKey = ''k'', tls_EncodeKey = (\<lambda>k. ''PEM'' @ k), tls_Decode = (\<lambda>s. if prefix ''PEM'' s then Some (drop 3 s) else None),
     tls_ParseKey = Inr, tls_Int = (\<lambda>n. Some 5), tls_CreateCertificate = (\<lambda>tmpl k. Inr (''CERT'' @ k)), tls_Unwritable = (\<lambda>p. False)\<rparr>"

theorem prepareTlsKeys_careful_witness:
  "gm_get (snd (prepareTlsKeys sample_tls 0 sample_conf [(''/etc/key.pem'', Some ''PEMold'')])) ''/etc/key.pem'' = Some (Some ''PEMold'') \<and>
   gm_get (snd (prepareTlsKeys sample_tls 0 sample_conf [(''/etc/key.pem'', Some ''PEMold'')])) ''/etc/cert.pem'' \<noteq> None"
proof -
  let ?fs = "[(''/etc/key.pem'', Some ''PEMold'')]"
  have p: "GetSslCertFile sample_conf = ''/etc/cert.pem''" "GetSslPrivateKeyFile sample_conf = ''/etc/key.pem''"
    by (simp_all add: GetSslCertFile_def GetSslPrivateKeyFile_def HomeFile_def GetHome_def sample_conf_def TrimRight_def)
  have "fst (prepareTlsKeys sample_tls 0 sample_conf ?fs) = Inr None"
    by (simp add: prepareTlsKeys_def p readOrGeneratePrivateKey_def generateCertificate_def Let_def sample_tls_def)
      (simp add: sample_conf_def)
  then show ?thesis using prepareTlsKeys_careful [of ?fs sample_tls 0 sample_conf] p by auto
qed

text \<open>
  The goroutine of \<open>Start\<close> that serves: without keys the process ends; otherwise package http listens on the port, with the
  certificate and the key of these files.
\<close>

record listener =
  li_Addr :: string
  li_CertFile :: string
  li_KeyFile :: string

definition start_webserver :: "tls \<Rightarrow> time \<Rightarrow> conf \<Rightarrow> files \<Rightarrow> (panic + listener) \<times> files" where
  "start_webserver t now c fs =
     (case prepareTlsKeys t now c fs of
        (Inl p, fs) \<Rightarrow> (Inl p, fs)
      | (Inr (Some err), fs) \<Rightarrow> (Inl LogFatal, fs)
      | (Inr None, fs) \<Rightarrow>
          (Inr \<lparr>li_Addr = '':'' @ itoa (conf_ServerPort c), li_CertFile = GetSslCertFile c, li_KeyFile = GetSslPrivateKeyFile c\<rparr>, fs))"

text \<open>Whoever listens has a certificate; its key may be missing all the same, when the certificate was there before.\<close>

lemma listener_certificate:
  assumes "start_webserver t now c fs = (Inr li, fs')"
  shows "gm_get fs' (li_CertFile li) \<noteq> None"
proof -
  have "prepareTlsKeys t now c fs = (Inr None, fs')" "li_CertFile li = GetSslCertFile c"
    using assms by (auto simp: start_webserver_def split: prod.splits sum.splits option.splits)
  then show ?thesis
    by (auto simp: prepareTlsKeys_def generateCertificate_def Let_def split: prod.splits sum.splits if_splits)
qed

lemma listener_without_key:
  "start_webserver t now sample_conf [(''/etc/cert.pem'', Some ''CERT'')] =
     (Inr \<lparr>li_Addr = '':897'', li_CertFile = ''/etc/cert.pem'', li_KeyFile = ''/etc/key.pem''\<rparr>, [(''/etc/cert.pem'', Some ''CERT'')])"
proof -
  have p: "GetSslCertFile sample_conf = ''/etc/cert.pem''" "GetSslPrivateKeyFile sample_conf = ''/etc/key.pem''"
    by (simp_all add: GetSslCertFile_def GetSslPrivateKeyFile_def HomeFile_def GetHome_def sample_conf_def TrimRight_def)
  have "itoa 897 = ''897''" by code_simp
  then show ?thesis by (simp add: start_webserver_def prepareTlsKeys_def p) (simp add: sample_conf_def)
qed

section \<open>The backup\<close>

text \<open>\<open>path.Base\<close>: the last element of a path.\<close>

definition path_Base :: "string \<Rightarrow> string" where
  "path_Base p =
     (if p = [] then ''.''
      else let p = TrimRight (CHR ''/'') p;
               base = rev (takeWhile (\<lambda>c. c \<noteq> CHR ''/'') (rev p))
           in if p = [] then ''/'' else base)"

text \<open>The reply: an error, or the archive, name and content of each entry.\<close>

datatype backup_reply = Backup_Error string | Backup_Zip "(string \<times> string) list"

text \<open>
  The loop over the files; one that does not exist is left out. Writing the archive to memory (package zip) does not fail. The error
  texts of the file system are not part of the model.
\<close>

fun backup_loop :: "files \<Rightarrow> string list \<Rightarrow> (string \<times> string) list \<Rightarrow> backup_reply" where
  "backup_loop fs [] zw = Backup_Zip zw"
| "backup_loop fs (fileName # names) zw =
     (case gm_get fs fileName of
        None \<Rightarrow> backup_loop fs names zw
      | Some None \<Rightarrow> Backup_Error ''Failed creating zip: ''
      | Some (Some fileB) \<Rightarrow> backup_loop fs names (zw @ [(path_Base fileName, fileB)]))"

definition backup_files :: "conf \<Rightarrow> string \<Rightarrow> string \<Rightarrow> string list" where
  "backup_files c confFile ldapFile =
     [HomeFile c ''users.json'', HomeFile c ''templates.conf'', HomeFile c ''httpchecks.json'',
      GetSslCertFile c, GetSslPrivateKeyFile c, confFile, ldapFile]"

definition GetBackupConfigs ::
  "conf \<Rightarrow> files \<Rightarrow> string \<Rightarrow> string \<Rightarrow> env \<Rightarrow> http_request \<Rightarrow> server \<Rightarrow> (panic + backup_reply) \<times> server"
where
  "GetBackupConfigs c fs confFile ldapFile e r s =
     (case authUser r (env_now e) (srv_userStore s) of
        (False, us) \<Rightarrow> (Inr (Backup_Error ''Not authorized''), on_users (\<lambda>_. us) s)
      | (True, us) \<Rightarrow>
          let s = on_users (\<lambda>_. us) s
          in (case getUser r (env_now e) (srv_userStore s) of
                None \<Rightarrow> (Inl NilDeref, s)
              | Some i \<Rightarrow>
                  (case get_user (srv_userStore s) i of
                     None \<Rightarrow> (Inl NilDeref, s)
                   | Some usr \<Rightarrow>
                       if \<not> HasRole usr ''admin'' then (Inr (Backup_Error ''Not allowed''), s)
                       else (Inr (backup_loop fs (backup_files c confFile ldapFile) []), s))))"

text \<open>What is in a backup: the files of the list that exist, in that order; and only for an administrator.\<close>

lemma backup_loop_zip:
  "backup_loop fs names zw = Backup_Zip entries \<Longrightarrow>
     entries = zw @ concat (map (\<lambda>n. case gm_get fs n of Some (Some b) \<Rightarrow> [(path_Base n, b)] | _ \<Rightarrow> []) names)"
  by (induction fs names zw rule: backup_loop.induct) (auto split: option.splits)

lemma backup_admin:
  assumes "GetBackupConfigs c fs confFile ldapFile e r s = (Inr (Backup_Zip entries), s')"
  shows "\<exists>u. session_user e r s = Some u \<and> HasRole u ''admin''"
  using assms
  by (auto simp: GetBackupConfigs_def authUser_def session_user_def Let_def getUser_touched split: option.splits if_splits prod.splits)

section \<open>The rest of the start\<close>

definition Home :: "http_request \<Rightarrow> string" where
  "Home r = rq_Url r @ ''console/''"

end
