(* ===== verification/Spec2Isabelle.thy ===== *)
theory Spec2Isabelle
  imports Concurrent_Votes Audit_Trail Shared_Query Overlapping_Batches Quiescence Durability Reply_Types Configuration Dispatched_Query Server_Setup
begin

text \<open>
  \<^bold>\<open>Indispenso: a verification development.\<close>

  Indispenso runs shell commands on many machines, after enough people have agreed. One process is the server (server.go and the stores
  beside it), one process per machine is the client (client.go). A user files a request to run a template on some clients
  (consensus.go); other users approve it; when the votes suffice, the coordinator (execution_coordinator.go) signs one command per
  client and starts them batch by batch, as the template's strategy says. Clients poll the server for their commands, check the
  signature, run them with bash and report the state and the output (cmd.go); the server judges the output by the validation rules of the
  template and starts the next batch. External services can trigger requests by http checks (http_check.go).

  \<^bold>\<open>How the code is modelled.\<close> A struct is a record with the fields of the source, an enumeration a datatype. A Go map is an association list whose
  order is the order of a range loop; properties hold for every order (Go\_Prelude). Objects that several structures point to live in
  heaps, a pointer is an index. A panic is a value. Times are integers of nanoseconds, minimum votes and authentication types 64-bit
  words, strings lists of bytes. A handler maps the request and the state of the server to the reply and the new state. What the
  code takes from outside is an argument: the clock, random bytes, identifiers and the outcome of writing a file in \<open>env\<close>, bcrypt and one-time
  passwords in \<open>ext\<close> (Go\_External), and the packages named below.

  \<^bold>\<open>Theories and sources.\<close>
  \<^item> Go\_Prelude, Go\_Strings, Crypto, Go\_External: maps, heaps, panics, files; package strings; SHA-256, HMAC and base64, written out and
    executable; random\_strings.go and the outside world.
  \<^item> Users (users.go), Authentication (user\_auth.go and the sessions of server.go), Ldap (ldap\_auth.go): users, roles, logins. The directory and package
    reflections are parameters.
  \<^item> Templates (templates.go, execution\_strategy.go, execution\_validation.go), Keyed\_Store (what the stores that are maps share), Http\_Check\_Store
    (http\_check.go), Commands (cmd.go: the command, its signature, its rules), Clients (registered clients, their queue and long poll), Conf
    (conf.go: the fields of the configuration), Configuration (conf.go: loading, old names, changes of the file; main.go: the process), Notifications and Notification\_Services (notifications.go, notification\_slack.go).
  \<^item> Server\_State, Coordinator (execution\_coordinator.go), Consensus\_Requests (consensus.go), Command\_State (the states of a command on the server):
    the state of the server and the operations that several stores take part in.
  \<^item> Http\_Handlers, Consensus\_Handlers, Client\_Handlers, Admin\_Handlers: every handler of server.go and http\_check.go. Form\_Values, Data\_Table,
    Dispatched\_Query: data\_table/ and the history table of server.go. Server\_Setup: TLS keys, listener, backup. The audit log (audit.go) is a
    field of the server's state (Server\_State), written by every operation that writes to it in the code.
  \<^item> Server\_Steps: the route table, the start, and the step relation \<open>server_step\<close>, in which handlers, goroutines, the cleanup, the purge of the history and
    the dispatcher of notifications interleave in any order.
  \<^item> Client\_Process (client.go, Execute and the log buffers of cmd.go): the client. Wire: addresses, the table of routes of Start, and a request on its way
    from the client to a handler. Machines: the server with any number of machines, one step relation \<open>system_step\<close> for the whole.
  \<^item> Concurrent\_Votes: \<open>Approve\<close>, \<open>check\<close> and \<open>start\<close> of consensus.go again, one step per access to what threads share, with their lock. Shared\_Query:
    requests for the history table in their steps, over the one store that they share.
  \<^item> Samples: the concrete values at which the theorems are applied.

  \<^bold>\<open>What is shown.\<close>
  \<^item> Rollout, Voting: the coordinator's \<open>Next\<close> refines an abstract rollout (which batch, how large, in which order), voting refines an abstract ballot.
  \<^item> Server\_Properties, Server\_Invariant, Server\_Safety: locales for properties that every operation or every step keeps, with their interpretations; the
    well-formedness \<open>server_ok\<close> of the whole state (names unique, pointers valid, links between the stores, signals for
    waiting commands), kept by every step; Server\_Theorems: it holds in every reachable state and after a restart from any files that a server
    has written; which goroutines and handlers can panic.
  \<^item> Panic\_Freedom: results of every operation in a well-formed state. Authorisation, Command\_Theorems: every command in the server's hands goes back to a
    request with enough votes of distinct people for the template that it runs; a request starts once; a command is
    delivered, and only once. Quiescence: the server's goroutines, left to themselves, come to rest. Durability: what survives a restart. Reply\_Types: the fields
    of every answer.
  \<^item> Access\_Theorems, Ldap: who gets in, which session counts, what each route asks for. Report\_Theorems: the verdict on a command, and
    the reports that disturb it. Wire: every request of the client reaches the handler meant. Client\_Theorems: what the client sends, what it
    runs, and the path from a process on a machine to the verdict of the server. Addressing, Machines: every script that any machine is started
    with was approved, for this machine, and is run once. Configuration: what a process starts, and what a change of its file does. Dispatched\_Query, Data\_Table,
    Form\_Values: pages, filters, totals and form fields of the history table. Notification\_Services: order and completeness of notifications.
  \<^item> Audit\_Trail: from the audit log alone, every command that a client ever gets can be accounted for. Concurrent\_Votes: uninterrupted, a thread does
    what the handler's step does; however many interleave, the strategy runs at most once and no start is lost, unless its template is deleted
    meanwhile. Overlapping\_Batches, Shared\_Query: what two calls of \<open>Next\<close>, or two requests for the history, do to each other.

  \<^bold>\<open>Bounds.\<close> The measure \<open>work\<close> of Quiescence bounds every run of goroutines. Every definition terminates on its own: there is
  no fuel except the ten attempts of the client's requests, a number of the code. \<open>SetState\<close> and \<open>_validate\<close> call each other; the measure on the reported state is their termination proof. A batch of an exponential strategy is computed with the clamping of the
  conversion from float64 to int. Words wrap where the code's unsigned integers do; the theorem on pages assumes fewer rows than \<open>2 ^ 64\<close>.

  \<^bold>\<open>Atomicity.\<close> A handler is one step, except that the wait of a triggered http check splits it in two; a goroutine is one step. Interleavings inside
  a handler are modelled where the code's locks leave the most room: approvals of one request (Concurrent\_Votes), and requests for the history table
  (Shared\_Query, Dispatched\_Query). In \<open>GetHttpCheck_select\<close> both branches are possible once the channel has a message.

  \<^bold>\<open>Parameters\<close>, with what is assumed of them where a theorem needs it: bcrypt (a hash matches its password), one-time passwords, the LDAP directory, reflections
  (sets the email field), viper and pflag (keys without case, \<open>Set\<close> before everything else, \<open>Unmarshal\<close> by names), httprouter (a path that
  matches a pattern goes to its handler), slack, rbtree (keeps its items in order), regexp for searches, cast, jason (the client's parser of replies), the
  network and bash of the client, rsa/x509/pem, the file system.

  \<^bold>\<open>Not modelled:\<close> how viper and pflag read flags, environment and files, process signals, listening on the network and TLS, serving the
  console's files, the text of JSON, the log other than the audit log (log.go hands it to package log), waits and back-off times, package zip beyond names and contents, unsynchronised accesses to
  maps of Go, which end the process, the client's ping port, \<open>ToLower\<close> beyond ASCII and the two characters that fold into it, \<open>validateRow\<close> of the data tables (never called), the console's JavaScript.
\<close>

end
